(* ===== verification/Prelude.thy ===== *)
theory Prelude
  imports Complex_Main "HOL-Library.Word"
begin

text \<open>
  Shared vocabulary of the development: the text operations of Python's \<^verbatim>\<open>str\<close> that the
  code uses, dictionaries as association lists in insertion order, results as sums, and the
  generic lemmas and fact collections that the component theories rest on.

  Text is \<^typ>\<open>string\<close>, a list of code points below 256 (where Python's \<^verbatim>\<open>lower\<close>,
  \<^verbatim>\<open>isspace\<close> and \<^verbatim>\<open>strip\<close> agree with the definitions here);
  bytes are lists of the same type.
\<close>

type_synonym bytes = string

named_theorems result_simps \<open>rewrite rules for sequencing of results\<close>
named_theorems frame_simps \<open>what an operation leaves unchanged\<close>

subsection \<open>Results: a value or an error\<close>

fun ebind :: "'e + 'a \<Rightarrow> ('a \<Rightarrow> 'e + 'b) \<Rightarrow> 'e + 'b" where
  "ebind (Inl e) f = Inl e"
| "ebind (Inr x) f = f x"

lemma ebind_eq_Inr [result_simps]: "ebind r f = Inr y \<longleftrightarrow> (\<exists>x. r = Inr x \<and> f x = Inr y)"
  by (cases r) auto

lemma ebind_eq_Inl [result_simps]:
  "ebind r f = Inl e \<longleftrightarrow> r = Inl e \<or> (\<exists>x. r = Inr x \<and> f x = Inl e)"
  by (cases r) auto

lemma ebind_cong [fundef_cong]:
  "r = r' \<Longrightarrow> (\<And>x. r' = Inr x \<Longrightarrow> f x = f' x) \<Longrightarrow> ebind r f = ebind r' f'"
  by (cases r') auto

text \<open>A list comprehension whose element expression may raise: the first error is the result.\<close>

fun emap :: "('a \<Rightarrow> 'e + 'b) \<Rightarrow> 'a list \<Rightarrow> 'e + 'b list" where
  "emap f [] = Inr []"
| "emap f (x # xs) = ebind (f x) (\<lambda>y. ebind (emap f xs) (\<lambda>ys. Inr (y # ys)))"

lemma emap_cong [fundef_cong]:
  "xs = ys \<Longrightarrow> (\<And>x. x \<in> set ys \<Longrightarrow> f x = g x) \<Longrightarrow> emap f xs = emap g ys"
  by (induction xs arbitrary: ys) auto

lemma emap_Inr_iff:
  "emap f xs = Inr ys \<longleftrightarrow> length ys = length xs \<and> (\<forall>i < length xs. f (xs ! i) = Inr (ys ! i))"
proof (induction xs arbitrary: ys)
  case (Cons x xs)
  then show ?case
    by (cases ys) (auto simp: result_simps All_less_Suc2)
qed auto

lemma emap_length: "emap f xs = Inr ys \<Longrightarrow> length ys = length xs"
  by (simp add: emap_Inr_iff)

lemma emap_append:
  "emap f (xs @ ys) = ebind (emap f xs) (\<lambda>us. ebind (emap f ys) (\<lambda>vs. Inr (us @ vs)))"
proof (induction xs)
  case Nil
  show ?case by (cases "emap f ys") auto
next
  case (Cons x xs)
  show ?case
  proof (cases "f x")
    case (Inr y)
    with Cons show ?thesis by (cases "emap f xs"; cases "emap f ys") auto
  qed simp
qed

lemma emap_total: "(\<And>x. x \<in> set xs \<Longrightarrow> f x = Inr (g x)) \<Longrightarrow> emap f xs = Inr (map g xs)"
  by (induction xs) auto

lemma emap_error: "emap f xs = Inl e \<Longrightarrow> \<exists>x \<in> set xs. f x = Inl e"
  by (induction xs) (auto simp: result_simps)

subsection \<open>Characters and text\<close>

definition is_space :: "char \<Rightarrow> bool" where
  "is_space c = (let n = (of_char c :: nat) in
     (9 \<le> n \<and> n \<le> 13) \<or> (28 \<le> n \<and> n \<le> 32) \<or> n = 133 \<or> n = 160)"

definition is_digit :: "char \<Rightarrow> bool" where
  "is_digit c = (let n = (of_char c :: nat) in 48 \<le> n \<and> n \<le> 57)"

definition is_alpha :: "char \<Rightarrow> bool" where
  "is_alpha c = (let n = (of_char c :: nat) in (65 \<le> n \<and> n \<le> 90) \<or> (97 \<le> n \<and> n \<le> 122))"

definition lower_char :: "char \<Rightarrow> char" where
  "lower_char c = (let n = (of_char c :: nat) in
     if (65 \<le> n \<and> n \<le> 90) \<or> (192 \<le> n \<and> n \<le> 222 \<and> n \<noteq> 215) then char_of (n + 32) else c)"

definition upper_char :: "char \<Rightarrow> char" where
  "upper_char c = (let n = (of_char c :: nat) in
     if 97 \<le> n \<and> n \<le> 122 then char_of (n - 32) else c)"

definition py_lower :: "string \<Rightarrow> string" where
  "py_lower s = map lower_char s"

definition py_upper :: "string \<Rightarrow> string" where
  "py_upper s = map upper_char s"

definition lstrip :: "string \<Rightarrow> string" where
  "lstrip s = dropWhile is_space s"

definition py_strip :: "string \<Rightarrow> string" where
  "py_strip s = rev (dropWhile is_space (rev (lstrip s)))"

definition starts_with :: "string \<Rightarrow> string \<Rightarrow> bool" where
  "starts_with s p = (take (length p) s = p)"

definition ends_with :: "string \<Rightarrow> string \<Rightarrow> bool" where
  "ends_with s p = starts_with (rev s) (rev p)"

lemma starts_with_append [simp]: "starts_with (p @ s) p"
  by (simp add: starts_with_def)

lemma starts_withE: "starts_with s p \<Longrightarrow> \<exists>r. s = p @ r"
  by (metis append_take_drop_id starts_with_def)

lemma py_lower_append [simp]: "py_lower (s @ t) = py_lower s @ py_lower t"
  by (simp add: py_lower_def)

lemma lower_char_idem [simp]: "lower_char (lower_char c) = lower_char c"
proof -
  have "of_char c < (256::nat)" by simp
  then show ?thesis
    by (auto simp: lower_char_def Let_def of_char_of)
qed

lemma py_lower_idem [simp]: "py_lower (py_lower s) = py_lower s"
  by (simp add: py_lower_def)

text \<open>\<^verbatim>\<open>s.partition(c)\<close> for a one-character separator: what precedes the first
  occurrence, whether there is one, and what follows it.\<close>

fun partition_char :: "char \<Rightarrow> string \<Rightarrow> string \<times> bool \<times> string" where
  "partition_char c [] = ([], False, [])"
| "partition_char c (x # xs) =
     (if x = c then ([], True, xs)
      else case partition_char c xs of (a, found, b) \<Rightarrow> (x # a, found, b))"

text \<open>\<^verbatim>\<open>s.rpartition(c)\<close>: the split at the last occurrence; without one the whole text is
  the third component.\<close>

definition rpartition_char :: "char \<Rightarrow> string \<Rightarrow> string \<times> bool \<times> string" where
  "rpartition_char c s =
     (case partition_char c (rev s) of (a, found, b) \<Rightarrow>
        if found then (rev b, True, rev a) else ([], False, s))"

text \<open>\<^verbatim>\<open>s.split(c)\<close> for a one-character separator; never the empty list.\<close>

fun split_char :: "char \<Rightarrow> string \<Rightarrow> string list" where
  "split_char c [] = [[]]"
| "split_char c (x # xs) =
     (if x = c then [] # split_char c xs
      else case split_char c xs of [] \<Rightarrow> [[x]] | p # ps \<Rightarrow> (x # p) # ps)"

fun join_with :: "string \<Rightarrow> string list \<Rightarrow> string" where
  "join_with sep [] = []"
| "join_with sep [x] = x"
| "join_with sep (x # y # ys) = x @ sep @ join_with sep (y # ys)"

lemma partition_char_absent: "c \<notin> set s \<Longrightarrow> partition_char c s = (s, False, [])"
  by (induction s) auto

lemma partition_char_append:
  "c \<notin> set a \<Longrightarrow> partition_char c (a @ c # b) = (a, True, b)"
  by (induction a) auto

lemma partition_char_parts:
  "partition_char c s = (a, found, b) \<Longrightarrow> c \<notin> set a \<and> s = (if found then a @ c # b else a) \<and> (\<not> found \<longrightarrow> b = [])"
  by (induction s arbitrary: a found b) (auto split: if_splits prod.splits)

lemma split_char_nonempty [simp]: "split_char c s \<noteq> []"
  by (induction s) (auto split: list.splits)

lemma split_char_absent: "c \<notin> set s \<Longrightarrow> split_char c s = [s]"
  by (induction s) auto

lemma split_char_append: "c \<notin> set a \<Longrightarrow> split_char c (a @ c # b) = a # split_char c b"
  by (induction a) auto

lemma split_join:
  "ps \<noteq> [] \<Longrightarrow> (\<And>p. p \<in> set ps \<Longrightarrow> c \<notin> set p) \<Longrightarrow> split_char c (join_with [c] ps) = ps"
  by (induction "[c]" ps rule: join_with.induct) (auto simp: split_char_absent split_char_append)

lemma join_split: "join_with [c] (split_char c s) = s"
proof (induction s)
  case (Cons x xs)
  show ?case
  proof (cases "x = c")
    case True
    with Cons show ?thesis
      by (cases "split_char c xs") auto
  next
    case False
    with Cons show ?thesis
      by (cases "split_char c xs" rule: list.exhaust; cases "tl (split_char c xs)") auto
  qed
qed simp

end
