(* ===== verification/Values.thy ===== *)
theory Values
  imports Prelude "HOL-Library.AList"
begin

text \<open>
  The Python values the program computes with: decimal rendering and parsing of integers,
  \<^verbatim>\<open>repr\<close> of text, JSON documents (what \<^verbatim>\<open>json.loads\<close> and a Django
  \<^verbatim>\<open>JSONField\<close> hold), their truth value and their reading as numbers, and dictionaries as
  association lists in insertion order. A JSON number with a fraction is a finite float, so a
  rational.
\<close>

subsection \<open>Integers as text\<close>

fun str_of_nat :: "nat \<Rightarrow> string" where
  "str_of_nat n =
     (if n < 10 then [char_of (48 + n)] else str_of_nat (n div 10) @ [char_of (48 + n mod 10)])"

declare str_of_nat.simps [simp del]

definition str_of_int :: "int \<Rightarrow> string" where
  "str_of_int i = (if i < 0 then CHR ''-'' # str_of_nat (nat (- i)) else str_of_nat (nat i))"

text \<open>The digits of \<^verbatim>\<open>int(text)\<close>: decimal digits, single underscores between them.\<close>

fun int_digits :: "nat \<Rightarrow> bool \<Rightarrow> string \<Rightarrow> nat option" where
  "int_digits acc prev [] = (if prev then Some acc else None)"
| "int_digits acc prev (c # cs) =
     (if is_digit c then int_digits (10 * acc + (of_char c - 48)) True cs
      else if c = CHR ''_'' \<and> prev then int_digits acc False cs
      else None)"

text \<open>\<^verbatim>\<open>int(text)\<close>; \<^const>\<open>None\<close> is the \<^verbatim>\<open>ValueError\<close>.\<close>

definition py_int :: "string \<Rightarrow> int option" where
  "py_int s =
     (case py_strip s of
        [] \<Rightarrow> None
      | c # r \<Rightarrow>
          if c = CHR ''-'' then map_option (\<lambda>n. - int n) (int_digits 0 False r)
          else if c = CHR ''+'' then map_option int (int_digits 0 False r)
          else map_option int (int_digits 0 False (c # r)))"

text \<open>The format \<^verbatim>\<open>{n:06d}\<close> of a natural number.\<close>

definition pad6 :: "nat \<Rightarrow> string" where
  "pad6 n = (let d = str_of_nat n in replicate (6 - length d) (CHR ''0'') @ d)"

lemma str_of_nat_nonempty [simp]: "str_of_nat n \<noteq> []"
  by (subst str_of_nat.simps) auto

lemma is_digit_char_of: "d < 10 \<Longrightarrow> is_digit (char_of (48 + d)) \<and> of_char (char_of (48 + d) :: char) = (48 + d :: nat)"
  by (simp add: is_digit_def Let_def)

lemma str_of_nat_digits: "\<forall>c \<in> set (str_of_nat n). is_digit c"
proof (induction n rule: str_of_nat.induct)
  case (1 n)
  show ?case
    by (subst str_of_nat.simps) (use 1 is_digit_char_of in auto)
qed

lemma int_digits_append:
  "\<forall>c \<in> set s. is_digit c \<Longrightarrow> s \<noteq> [] \<Longrightarrow> int_digits a p (s @ t) =
     int_digits (the (int_digits a p s)) True t"
proof (induction s arbitrary: a p)
  case (Cons c s)
  show ?case
  proof (cases s)
    case Nil
    with Cons.prems show ?thesis by simp
  next
    case (Cons c' s')
    with Cons.IH [of "10 * a + (of_char c - 48)" True] Cons.prems show ?thesis by simp
  qed
qed simp

lemma int_digits_str_of_nat: "int_digits 0 p (str_of_nat n) = Some n"
proof (induction n arbitrary: p rule: str_of_nat.induct)
  case (1 n)
  show ?case
  proof (cases "n < 10")
    case True
    then show ?thesis
      by (subst str_of_nat.simps) (simp add: is_digit_char_of)
  next
    case False
    then have "str_of_nat n = str_of_nat (n div 10) @ [char_of (48 + n mod 10)]"
      by (subst str_of_nat.simps) simp
    with 1 [OF False, of p] show ?thesis
      by (simp add: int_digits_append str_of_nat_digits is_digit_char_of)
  qed
qed

lemma digit_not_space: "is_digit c \<Longrightarrow> \<not> is_space c"
  by (simp add: is_digit_def is_space_def Let_def)

lemma py_strip_no_space:
  assumes "s \<noteq> []" "\<not> is_space (hd s)" "\<not> is_space (last s)"
  shows "py_strip s = s"
proof -
  have "dropWhile is_space s = s" and "dropWhile is_space (rev s) = rev s"
    using assms by (simp_all add: dropWhile_eq_self_iff hd_rev)
  then show ?thesis by (simp add: py_strip_def lstrip_def)
qed

lemma str_of_nat_inj [simp]: "str_of_nat m = str_of_nat n \<longleftrightarrow> m = n"
  by (metis int_digits_str_of_nat option.inject)

lemma str_of_nat_hd: "is_digit (hd (str_of_nat n)) \<and> is_digit (last (str_of_nat n))"
  using str_of_nat_digits str_of_nat_nonempty by (metis hd_in_set last_in_set)

lemma str_of_nat_not_in: "\<not> is_digit c \<Longrightarrow> c \<notin> set (str_of_nat n)"
  using str_of_nat_digits by blast

lemma str_of_int_nonempty [simp]: "str_of_int i \<noteq> []"
  by (simp add: str_of_int_def)

lemma minus_not_space: "\<not> is_space (CHR ''-'')" "\<not> is_digit (CHR ''-'')" "\<not> is_digit (CHR ''+'')"
  by (simp_all add: is_space_def is_digit_def Let_def)

text \<open>What \<^verbatim>\<open>str\<close> prints of an integer, \<^verbatim>\<open>int\<close> reads back.\<close>

lemma py_int_str_of_int [simp]: "py_int (str_of_int i) = Some i"
proof (cases "i < 0")
  case True
  let ?d = "str_of_nat (nat (- i))"
  have "py_strip (CHR ''-'' # ?d) = CHR ''-'' # ?d"
    by (rule py_strip_no_space) (use str_of_nat_hd digit_not_space minus_not_space in auto)
  with True show ?thesis
    by (simp add: py_int_def str_of_int_def int_digits_str_of_nat)
next
  case False
  let ?d = "str_of_nat (nat i)"
  obtain c r where d: "?d = c # r" by (cases ?d) auto
  have "is_digit c" using str_of_nat_hd [of "nat i"] d by simp
  moreover have "py_strip ?d = ?d"
    by (rule py_strip_no_space) (use str_of_nat_hd digit_not_space in auto)
  ultimately show ?thesis
    using False d minus_not_space int_digits_str_of_nat [of False "nat i"]
    by (auto simp: py_int_def str_of_int_def)
qed

lemma str_of_int_inj [simp]: "str_of_int i = str_of_int j \<longleftrightarrow> i = j"
  by (metis option.inject py_int_str_of_int)

lemma pad6_digits: "\<forall>c \<in> set (pad6 n). is_digit c"
  using str_of_nat_digits by (auto simp: pad6_def Let_def is_digit_def)

lemma int_digits_zeros: "int_digits 0 p (replicate k (CHR ''0'') @ s) = int_digits 0 (p \<or> 0 < k) s"
  by (induction k arbitrary: p) (auto simp: is_digit_def Let_def)

lemma int_digits_pad6: "int_digits 0 False (pad6 n) = Some n"
  by (simp add: pad6_def Let_def int_digits_zeros int_digits_str_of_nat)

lemma pad6_inj [simp]: "pad6 m = pad6 n \<longleftrightarrow> m = n"
  by (metis int_digits_pad6 option.inject)

subsection \<open>JSON documents\<close>

datatype json =
    JNull
  | JBool bool
  | JInt int
  | JFloat rat
  | JStr string
  | JList "json list"
  | JObj "(string \<times> json) list"

text \<open>\<^verbatim>\<open>type(v).__name__\<close>, the truth value of a value, and its reading as a number
  (\<^verbatim>\<open>bool\<close> is a subclass of \<^verbatim>\<open>int\<close>).\<close>

fun type_name :: "json \<Rightarrow> string" where
  "type_name JNull = ''NoneType''"
| "type_name (JBool b) = ''bool''"
| "type_name (JInt i) = ''int''"
| "type_name (JFloat r) = ''float''"
| "type_name (JStr s) = ''str''"
| "type_name (JList xs) = ''list''"
| "type_name (JObj kvs) = ''dict''"

fun truthy :: "json \<Rightarrow> bool" where
  "truthy JNull = False"
| "truthy (JBool b) = b"
| "truthy (JInt i) = (i \<noteq> 0)"
| "truthy (JFloat r) = (r \<noteq> 0)"
| "truthy (JStr s) = (s \<noteq> [])"
| "truthy (JList xs) = (xs \<noteq> [])"
| "truthy (JObj kvs) = (kvs \<noteq> [])"

fun json_num :: "json \<Rightarrow> rat option" where
  "json_num (JBool b) = Some (if b then 1 else 0)"
| "json_num (JInt i) = Some (of_int i)"
| "json_num (JFloat r) = Some r"
| "json_num _ = None"

text \<open>\<^verbatim>\<open>d.get(k, default)\<close>, and \<^verbatim>\<open>{**a, **b}\<close>: a key keeps the place it was
  first given, with the last value.\<close>

definition get_or :: "'v \<Rightarrow> (string \<times> 'v) list \<Rightarrow> string \<Rightarrow> 'v" where
  "get_or d kvs k = (case map_of kvs k of None \<Rightarrow> d | Some v \<Rightarrow> v)"

definition dict_merge :: "(string \<times> 'v) list \<Rightarrow> (string \<times> 'v) list \<Rightarrow> (string \<times> 'v) list" where
  "dict_merge a b = foldl (\<lambda>m kv. AList.update (fst kv) (snd kv) m) a b"

lemma map_of_dict_merge:
  "distinct (map fst b) \<Longrightarrow> map_of (dict_merge a b) = map_of a ++ map_of b"
proof (induction b arbitrary: a)
  case (Cons kv b)
  then have "fst kv \<notin> dom (map_of b)" by (simp add: dom_map_of_conv_image_fst)
  with Cons show ?case
    by (cases kv) (auto simp: dict_merge_def update_conv' map_add_def fun_eq_iff split: option.splits)
qed (simp add: dict_merge_def)

lemma distinct_dict_merge:
  "distinct (map fst a) \<Longrightarrow> distinct (map fst (dict_merge a b))"
  by (induction b arbitrary: a) (auto simp: dict_merge_def distinct_update)

subsection \<open>\<^verbatim>\<open>repr\<close> of text\<close>

definition hex_digit :: "nat \<Rightarrow> char" where
  "hex_digit d = (if d < 10 then char_of (48 + d) else char_of (87 + d))"

definition repr_char :: "char \<Rightarrow> char \<Rightarrow> string" where
  "repr_char q c = (let n = (of_char c :: nat) in
     if c = q \<or> c = CHR 0x5C then [CHR 0x5C, c]
     else if n = 9 then [CHR 0x5C, CHR ''t'']
     else if n = 10 then [CHR 0x5C, CHR ''n'']
     else if n = 13 then [CHR 0x5C, CHR ''r'']
     else if n < 32 \<or> (127 \<le> n \<and> n \<le> 160) \<or> n = 173
       then [CHR 0x5C, CHR ''x'', hex_digit (n div 16), hex_digit (n mod 16)]
     else [c])"

definition py_repr :: "string \<Rightarrow> string" where
  "py_repr s = (let q = (if CHR 0x27 \<in> set s \<and> CHR 0x22 \<notin> set s then CHR 0x22 else CHR 0x27)
                in [q] @ concat (map (repr_char q) s) @ [q])"

text \<open>\<^verbatim>\<open>repr\<close> of an optional text (\<^verbatim>\<open>None\<close> prints as itself).\<close>

definition repr_opt :: "string option \<Rightarrow> string" where
  "repr_opt s = (case s of None \<Rightarrow> ''None'' | Some t \<Rightarrow> py_repr t)"

end
