(* ===== verification/Errors.thy ===== *)
theory Errors
  imports Values
begin

text \<open>
  The domain errors of \<^verbatim>\<open>apps/core/exceptions.py\<close>: the class hierarchy, the fields
  \<^verbatim>\<open>retryable\<close> and \<^verbatim>\<open>category\<close> that the execution layer reads, one
  constructor per class, and the value \<open>exn\<close> that every raising operation of the model
  returns on the left: a domain error, or an exception of another class with its text.
\<close>

datatype err_class =
    DataLakeError | ConnectionTestFailed | LoadFailed | FetchFailed | MalformedResponseError
  | AuthenticationError | SecretNotFound | UnsupportedCapability | ConfigurationError
  | MappingError | SchemaMismatchError | PageLimitExceededError | OutboundRequestBlockedError
  | RawPayloadAccessDenied | RawPayloadIntegrityError | RunClaimRejected | InvalidRunTransition

fun class_name :: "err_class \<Rightarrow> string" where
  "class_name DataLakeError = ''DataLakeError''"
| "class_name ConnectionTestFailed = ''ConnectionTestFailed''"
| "class_name LoadFailed = ''LoadFailed''"
| "class_name FetchFailed = ''FetchFailed''"
| "class_name MalformedResponseError = ''MalformedResponseError''"
| "class_name AuthenticationError = ''AuthenticationError''"
| "class_name SecretNotFound = ''SecretNotFound''"
| "class_name UnsupportedCapability = ''UnsupportedCapability''"
| "class_name ConfigurationError = ''ConfigurationError''"
| "class_name MappingError = ''MappingError''"
| "class_name SchemaMismatchError = ''SchemaMismatchError''"
| "class_name PageLimitExceededError = ''PageLimitExceededError''"
| "class_name OutboundRequestBlockedError = ''OutboundRequestBlockedError''"
| "class_name RawPayloadAccessDenied = ''RawPayloadAccessDenied''"
| "class_name RawPayloadIntegrityError = ''RawPayloadIntegrityError''"
| "class_name RunClaimRejected = ''RunClaimRejected''"
| "class_name InvalidRunTransition = ''InvalidRunTransition''"

text \<open>The base class of a class, below \<^const>\<open>DataLakeError\<close>.\<close>

fun base_class :: "err_class \<Rightarrow> err_class" where
  "base_class MalformedResponseError = FetchFailed"
| "base_class PageLimitExceededError = FetchFailed"
| "base_class SchemaMismatchError = LoadFailed"
| "base_class _ = DataLakeError"

definition isinstance_of :: "err_class \<Rightarrow> err_class \<Rightarrow> bool" where
  "isinstance_of c d = (c = d \<or> base_class c = d \<or> d = DataLakeError)"

record dl_error =
  err_class :: err_class
  err_message :: string
  err_retryable :: bool
  err_category :: string

text \<open>\<^verbatim>\<open>DataLakeError.__init__\<close>: an absent or empty category is the class name.\<close>

definition mk_error :: "err_class \<Rightarrow> string \<Rightarrow> bool \<Rightarrow> string option \<Rightarrow> dl_error" where
  "mk_error c msg retry cat =
     \<lparr>err_class = c, err_message = msg, err_retryable = retry,
      err_category = (case cat of None \<Rightarrow> class_name c
                      | Some t \<Rightarrow> if t = [] then class_name c else t)\<rparr>"

text \<open>Python exceptions outside the hierarchy, by class: the ones of the language and those
  that the libraries document. The text is what \<^verbatim>\<open>str(exc)\<close> prints.\<close>

datatype py_class =
    TypeError | ValueError | KeyError | AttributeError | IndexError | OSError
  | DatabaseError | HttpxTimeout | HttpxError | OtherException

datatype exn = Domain dl_error | PyExn py_class string

fun exn_text :: "exn \<Rightarrow> string" where
  "exn_text (Domain e) = err_message e"
| "exn_text (PyExn c msg) = msg"

text \<open>\<^verbatim>\<open>ConnectionTestFailed\<close>, \<^verbatim>\<open>SecretNotFound\<close>, \<^verbatim>\<open>FetchFailed\<close> and
  \<^verbatim>\<open>LoadFailed\<close> take their constructor from the base class; the other classes fix
  \<^verbatim>\<open>retryable=False\<close> and their own name as category.\<close>

definition connection_test_failed :: "string \<Rightarrow> exn" where
  "connection_test_failed msg = Domain (mk_error ConnectionTestFailed msg False None)"

definition load_failed :: "string \<Rightarrow> bool \<Rightarrow> exn" where
  "load_failed msg retry = Domain (mk_error LoadFailed msg retry None)"

definition fetch_failed :: "string \<Rightarrow> bool \<Rightarrow> exn" where
  "fetch_failed msg retry = Domain (mk_error FetchFailed msg retry None)"

definition secret_not_found :: "string \<Rightarrow> exn" where
  "secret_not_found msg = Domain (mk_error SecretNotFound msg False None)"

definition malformed_response_error :: "string \<Rightarrow> exn" where
  "malformed_response_error msg =
     Domain (mk_error MalformedResponseError msg False (Some ''MalformedResponseError''))"

definition authentication_error :: "string \<Rightarrow> exn" where
  "authentication_error msg =
     Domain (mk_error AuthenticationError msg False (Some ''AuthenticationError''))"

definition unsupported_capability :: "string \<Rightarrow> exn" where
  "unsupported_capability msg =
     Domain (mk_error UnsupportedCapability msg False (Some ''UnsupportedCapability''))"

definition configuration_error :: "string \<Rightarrow> exn" where
  "configuration_error msg =
     Domain (mk_error ConfigurationError msg False (Some ''ConfigurationError''))"

definition mapping_error :: "string \<Rightarrow> exn" where
  "mapping_error msg = Domain (mk_error MappingError msg False (Some ''MappingError''))"

definition schema_mismatch_error :: "string \<Rightarrow> exn" where
  "schema_mismatch_error msg =
     Domain (mk_error SchemaMismatchError msg False (Some ''SchemaMismatchError''))"

definition page_limit_exceeded_error :: "string \<Rightarrow> exn" where
  "page_limit_exceeded_error msg =
     Domain (mk_error PageLimitExceededError msg False (Some ''PageLimitExceededError''))"

definition outbound_request_blocked_error :: "string \<Rightarrow> exn" where
  "outbound_request_blocked_error msg =
     Domain (mk_error OutboundRequestBlockedError msg False (Some ''OutboundRequestBlockedError''))"

definition raw_payload_access_denied :: "string \<Rightarrow> exn" where
  "raw_payload_access_denied msg =
     Domain (mk_error RawPayloadAccessDenied msg False (Some ''RawPayloadAccessDenied''))"

definition raw_payload_integrity_error :: "string \<Rightarrow> exn" where
  "raw_payload_integrity_error msg =
     Domain (mk_error RawPayloadIntegrityError msg False (Some ''RawPayloadIntegrityError''))"

text \<open>The two classes of \<^verbatim>\<open>apps/execution/claims.py\<close>.\<close>

definition run_claim_rejected :: "string \<Rightarrow> exn" where
  "run_claim_rejected msg =
     Domain (mk_error RunClaimRejected msg False (Some ''RunClaimRejected''))"

definition invalid_run_transition :: "string \<Rightarrow> exn" where
  "invalid_run_transition msg =
     Domain (mk_error InvalidRunTransition msg False (Some ''InvalidRunTransition''))"

lemmas error_defs =
  connection_test_failed_def load_failed_def fetch_failed_def secret_not_found_def
  malformed_response_error_def authentication_error_def unsupported_capability_def
  configuration_error_def mapping_error_def schema_mismatch_error_def
  page_limit_exceeded_error_def outbound_request_blocked_error_def
  raw_payload_access_denied_def raw_payload_integrity_error_def
  run_claim_rejected_def invalid_run_transition_def

text \<open>What an \<^verbatim>\<open>except\<close> clause of one of the domain classes catches.\<close>

fun raised_class :: "exn \<Rightarrow> err_class option" where
  "raised_class (Domain e) = Some (err_class e)"
| "raised_class (PyExn c msg) = None"

definition catches :: "err_class \<Rightarrow> exn \<Rightarrow> bool" where
  "catches d e = (case raised_class e of None \<Rightarrow> False | Some c \<Rightarrow> isinstance_of c d)"

definition is_retryable :: "exn \<Rightarrow> bool" where
  "is_retryable e = (case e of Domain d \<Rightarrow> err_retryable d | PyExn c msg \<Rightarrow> False)"

lemma mk_error_fields [simp]:
  "err_class (mk_error c msg r cat) = c"
  "err_message (mk_error c msg r cat) = msg"
  "err_retryable (mk_error c msg r cat) = r"
  "err_category (mk_error c msg r None) = class_name c"
  by (simp_all add: mk_error_def)

text \<open>The class and the retry flag of each constructor's error.\<close>

lemma raised_class_simps [simp]:
  "raised_class (connection_test_failed msg) = Some ConnectionTestFailed"
  "raised_class (load_failed msg r) = Some LoadFailed"
  "raised_class (fetch_failed msg r) = Some FetchFailed"
  "raised_class (secret_not_found msg) = Some SecretNotFound"
  "raised_class (malformed_response_error msg) = Some MalformedResponseError"
  "raised_class (authentication_error msg) = Some AuthenticationError"
  "raised_class (unsupported_capability msg) = Some UnsupportedCapability"
  "raised_class (configuration_error msg) = Some ConfigurationError"
  "raised_class (mapping_error msg) = Some MappingError"
  "raised_class (schema_mismatch_error msg) = Some SchemaMismatchError"
  "raised_class (page_limit_exceeded_error msg) = Some PageLimitExceededError"
  "raised_class (outbound_request_blocked_error msg) = Some OutboundRequestBlockedError"
  "raised_class (raw_payload_access_denied msg) = Some RawPayloadAccessDenied"
  "raised_class (raw_payload_integrity_error msg) = Some RawPayloadIntegrityError"
  "raised_class (run_claim_rejected msg) = Some RunClaimRejected"
  "raised_class (invalid_run_transition msg) = Some InvalidRunTransition"
  by (simp_all add: error_defs)

lemma is_retryable_simps [simp]:
  "is_retryable (connection_test_failed msg) = False"
  "is_retryable (load_failed msg r) = r"
  "is_retryable (fetch_failed msg r) = r"
  "is_retryable (secret_not_found msg) = False"
  "is_retryable (malformed_response_error msg) = False"
  "is_retryable (authentication_error msg) = False"
  "is_retryable (unsupported_capability msg) = False"
  "is_retryable (configuration_error msg) = False"
  "is_retryable (mapping_error msg) = False"
  "is_retryable (schema_mismatch_error msg) = False"
  "is_retryable (page_limit_exceeded_error msg) = False"
  "is_retryable (outbound_request_blocked_error msg) = False"
  "is_retryable (raw_payload_access_denied msg) = False"
  "is_retryable (raw_payload_integrity_error msg) = False"
  "is_retryable (run_claim_rejected msg) = False"
  "is_retryable (invalid_run_transition msg) = False"
  "is_retryable (PyExn c msg) = False"
  by (simp_all add: error_defs is_retryable_def)

lemma class_name_nonempty [simp]: "class_name c \<noteq> []"
  by (cases c) simp_all

lemma class_name_inj [simp]: "class_name c = class_name d \<longleftrightarrow> c = d"
  by (cases c; cases d; simp)

lemma mk_error_category_own [simp]: "err_category (mk_error c msg r (Some (class_name c))) = class_name c"
  by (simp add: mk_error_def)

lemma catches_domain [simp]: "catches DataLakeError e \<longleftrightarrow> (\<exists>d. e = Domain d)"
  by (cases e) (auto simp: catches_def isinstance_of_def)

lemma isinstance_trans: "isinstance_of c d \<Longrightarrow> isinstance_of d e \<Longrightarrow> isinstance_of c e"
  by (cases c; auto simp: isinstance_of_def)

end
