(* ===== verification/Urls.thy ===== *)
theory Urls
  imports Errors
begin

text \<open>
  What the outbound policy uses of Python's \<^verbatim>\<open>urllib.parse\<close> and
  \<^verbatim>\<open>ipaddress\<close> (CPython 3.11.10): splitting a URL, the host, port and user
  information of its network location, and the address classes.
\<close>

subsection \<open>\<^verbatim>\<open>urlsplit\<close>\<close>

record split_result =
  url_scheme :: string
  url_netloc :: string
  url_path :: string
  url_query :: string
  url_fragment :: string

definition scheme_char :: "char \<Rightarrow> bool" where
  "scheme_char c = (is_alpha c \<or> is_digit c \<or> c \<in> set ''+-.'')"

definition netloc_end :: "char \<Rightarrow> bool" where
  "netloc_end c = (c \<in> set ''/?#'')"

definition split_scheme :: "string \<Rightarrow> string \<times> string" where
  "split_scheme url =
     (case partition_char (CHR '':'') url of (pre, found, post) \<Rightarrow>
        if found \<and> pre \<noteq> [] \<and> is_alpha (hd pre) \<and> list_all scheme_char pre
        then (py_lower pre, post) else ([], url))"

text \<open>\<^verbatim>\<open>_check_bracketed_host\<close> (an IPv6 literal between brackets) is the parameter
  \<open>bracket_ok\<close>.\<close>

definition urlsplit :: "(string \<Rightarrow> bool) \<Rightarrow> string \<Rightarrow> exn + split_result" where
  "urlsplit bracket_ok url0 =
     (let url1 = filter (\<lambda>c. c \<notin> set [CHR 0x09, CHR 0x0D, CHR 0x0A])
                   (dropWhile (\<lambda>c. of_char c \<le> (32::nat)) url0);
          (scheme, url2) = split_scheme url1;
          has_netloc = (take 2 url2 = ''//'');
          netloc = (if has_netloc then takeWhile (\<lambda>c. \<not> netloc_end c) (drop 2 url2) else []);
          url3 = (if has_netloc then dropWhile (\<lambda>c. \<not> netloc_end c) (drop 2 url2) else url2);
          open_br = (CHR ''['' \<in> set netloc);
          close_br = (CHR '']'' \<in> set netloc);
          bracketed = fst (partition_char (CHR '']'') (snd (snd (partition_char (CHR ''['') netloc))));
          (url4, _, fragment) = partition_char (CHR ''#'') url3;
          (path, _, query) = partition_char (CHR ''?'') url4
      in if open_br \<noteq> close_br then Inl (PyExn ValueError ''Invalid IPv6 URL'')
         else if open_br \<and> \<not> bracket_ok bracketed
         then Inl (PyExn ValueError (py_repr bracketed @ '' does not appear to be an IPv4 or IPv6 address''))
         else Inr \<lparr>url_scheme = scheme, url_netloc = netloc, url_path = path,
                   url_query = query, url_fragment = fragment\<rparr>)"

text \<open>\<^verbatim>\<open>username\<close>, \<^verbatim>\<open>password\<close>, \<^verbatim>\<open>hostname\<close> and \<^verbatim>\<open>port\<close> of the result.\<close>

definition url_username :: "split_result \<Rightarrow> string option" where
  "url_username u =
     (case rpartition_char (CHR ''@'') (url_netloc u) of (userinfo, found, _) \<Rightarrow>
        if found then Some (fst (partition_char (CHR '':'') userinfo)) else None)"

definition url_password :: "split_result \<Rightarrow> string option" where
  "url_password u =
     (case rpartition_char (CHR ''@'') (url_netloc u) of (userinfo, found, _) \<Rightarrow>
        if found then
          (case partition_char (CHR '':'') userinfo of (_, have_password, password) \<Rightarrow>
             if have_password then Some password else None)
        else None)"

definition url_hostinfo :: "split_result \<Rightarrow> string \<times> string option" where
  "url_hostinfo u =
     (let hostinfo = snd (snd (rpartition_char (CHR ''@'') (url_netloc u)));
          (_, have_open_br, bracketed) = partition_char (CHR ''['') hostinfo;
          (hostname, port) =
            (if have_open_br then
               (let (h, _, p) = partition_char (CHR '']'') bracketed
                in (h, snd (snd (partition_char (CHR '':'') p))))
             else (let (h, _, p) = partition_char (CHR '':'') hostinfo in (h, p)))
      in (hostname, if port = [] then None else Some port))"

definition url_hostname :: "split_result \<Rightarrow> string option" where
  "url_hostname u =
     (let h = fst (url_hostinfo u)
      in if h = [] then None
         else (case partition_char (CHR ''%'') h of (name, percent, zone) \<Rightarrow>
                 Some (py_lower name @ (if percent then ''%'' @ zone else []))))"

definition url_port :: "split_result \<Rightarrow> exn + int option" where
  "url_port u =
     (case snd (url_hostinfo u) of
        None \<Rightarrow> Inr None
      | Some p \<Rightarrow>
          if \<not> list_all is_digit p
          then Inl (PyExn ValueError (''Port could not be cast to integer value as '' @ py_repr p))
          else (case int_digits 0 False p of
                  None \<Rightarrow> Inl (PyExn ValueError ''Port out of range 0-65535'')
                | Some n \<Rightarrow> if n \<le> 65535 then Inr (Some (int n))
                            else Inl (PyExn ValueError ''Port out of range 0-65535'')))"

lemma takeWhile_netloc: "c \<in> set (takeWhile (\<lambda>c. \<not> netloc_end c) s) \<Longrightarrow> \<not> netloc_end c"
  by (metis set_takeWhileD)

lemma partition_subset:
  "partition_char c s = (a, f, b) \<Longrightarrow> set a \<subseteq> set s \<and> set b \<subseteq> set s"
  by (auto dest!: partition_char_parts split: if_splits)

lemma rpartition_subset:
  "rpartition_char c s = (a, f, b) \<Longrightarrow> set a \<subseteq> set s \<and> set b \<subseteq> set s"
  by (auto simp: rpartition_char_def dest!: partition_subset split: prod.splits if_splits)

subsection \<open>Addresses and their classes\<close>

datatype ipaddr = IPv4 "32 word" | IPv6 "128 word"

definition in_net :: "'a::len word \<Rightarrow> nat \<Rightarrow> 'a word \<Rightarrow> bool" where
  "in_net base plen a =
     (uint a div 2 ^ (LENGTH('a) - plen) = uint base div 2 ^ (LENGTH('a) - plen))"

definition octets :: "int \<Rightarrow> int \<Rightarrow> int \<Rightarrow> int \<Rightarrow> 32 word" where
  "octets a b c d = word_of_int (((a * 256 + b) * 256 + c) * 256 + d)"

definition ipv4_private_networks :: "(32 word \<times> nat) list" where
  "ipv4_private_networks =
     [(octets 0 0 0 0, 8), (octets 10 0 0 0, 8), (octets 127 0 0 0, 8), (octets 169 254 0 0, 16),
      (octets 172 16 0 0, 12), (octets 192 0 0 0, 24), (octets 192 0 0 170, 31),
      (octets 192 0 2 0, 24), (octets 192 168 0 0, 16), (octets 198 18 0 0, 15),
      (octets 198 51 100 0, 24), (octets 203 0 113 0, 24), (octets 240 0 0 0, 4),
      (octets 255 255 255 255, 32)]"

definition ipv4_private_exceptions :: "(32 word \<times> nat) list" where
  "ipv4_private_exceptions = [(octets 192 0 0 9, 32), (octets 192 0 0 10, 32)]"

definition ipv4_is_private :: "32 word \<Rightarrow> bool" where
  "ipv4_is_private a =
     (list_ex (\<lambda>(b, l). in_net b l a) ipv4_private_networks \<and>
      list_all (\<lambda>(b, l). \<not> in_net b l a) ipv4_private_exceptions)"

definition ipv6_private_networks :: "(128 word \<times> nat) list" where
  "ipv6_private_networks =
     [(1, 128), (0, 128), (0xFFFF00000000, 96), (0x0064FF9B000100000000000000000000, 48),
      (0x01000000000000000000000000000000, 64), (0x20010000000000000000000000000000, 23),
      (0x20010DB8000000000000000000000000, 32), (0x20020000000000000000000000000000, 16),
      (0xFC000000000000000000000000000000, 7), (0xFE800000000000000000000000000000, 10)]"

definition ipv6_private_exceptions :: "(128 word \<times> nat) list" where
  "ipv6_private_exceptions =
     [(0x20010001000000000000000000000001, 128), (0x20010001000000000000000000000002, 128),
      (0x20010003000000000000000000000000, 32), (0x20010004011200000000000000000000, 48),
      (0x20010020000000000000000000000000, 28), (0x20010030000000000000000000000000, 28)]"

definition ipv4_mapped :: "128 word \<Rightarrow> 32 word option" where
  "ipv4_mapped a = 
     (if uint a div 2 ^ 32 = 0xFFFF then Some (word_of_int (uint a mod 2 ^ 32)) else None)"

fun is_loopback :: "ipaddr \<Rightarrow> bool" where
  "is_loopback (IPv4 a) = in_net (octets 127 0 0 0) 8 a"
| "is_loopback (IPv6 a) = (a = 1)"

fun is_link_local :: "ipaddr \<Rightarrow> bool" where
  "is_link_local (IPv4 a) = in_net (octets 169 254 0 0) 16 a"
| "is_link_local (IPv6 a) = in_net 0xFE800000000000000000000000000000 10 a"

fun is_multicast :: "ipaddr \<Rightarrow> bool" where
  "is_multicast (IPv4 a) = in_net (octets 224 0 0 0) 4 a"
| "is_multicast (IPv6 a) = in_net 0xFF000000000000000000000000000000 8 a"

fun is_unspecified :: "ipaddr \<Rightarrow> bool" where
  "is_unspecified (IPv4 a) = (a = 0)"
| "is_unspecified (IPv6 a) = (a = 0)"

fun is_private :: "ipaddr \<Rightarrow> bool" where
  "is_private (IPv4 a) = ipv4_is_private a"
| "is_private (IPv6 a) =
     (case ipv4_mapped a of
        Some b \<Rightarrow> ipv4_is_private b
      | None \<Rightarrow> list_ex (\<lambda>(b, l). in_net b l a) ipv6_private_networks \<and>
                list_all (\<lambda>(b, l). \<not> in_net b l a) ipv6_private_exceptions)"

lemmas ip_class_simps =
  ipv4_is_private_def ipv4_private_networks_def ipv4_private_exceptions_def in_net_def
  octets_def ipv6_private_networks_def ipv6_private_exceptions_def ipv4_mapped_def

end
