(* ===== verification/Outbound.thy ===== *)
theory Outbound
  imports Urls
begin

text \<open>
  \<^verbatim>\<open>apps/core/outbound_http.py\<close>: the outbound security policy. The deployment's
  settings, the tenant's allowlist table and name resolution are fields of the record
  \<open>policy_env\<close>; the HTTP library is the parameter \<open>http_lib\<close>, acting on a network state of
  any type. A response body is the sequence of chunks that \<^verbatim>\<open>iter_bytes()\<close> yields, each of
  which may instead be the exception it raises.
\<close>

subsection \<open>Requests, responses and the library\<close>

type_synonym headers = "(string \<times> string) list"

record http_request =
  req_method :: string
  req_url :: string
  req_headers :: headers
  req_content :: bytes

record http_response =
  resp_status :: int
  resp_headers :: headers
  resp_is_redirect :: bool
  resp_chunks :: "(exn + bytes) list"

text \<open>\<^verbatim>\<open>httpx.Headers\<close>: names compare without case; repeated values read as one,
  joined by a comma; setting replaces every earlier value.\<close>

definition header_get :: "headers \<Rightarrow> string \<Rightarrow> string option" where
  "header_get hs name =
     (case filter (\<lambda>kv. py_lower (fst kv) = py_lower name) hs of
        [] \<Rightarrow> None
      | kvs \<Rightarrow> Some (join_with '', '' (map snd kvs)))"

fun header_set :: "headers \<Rightarrow> string \<Rightarrow> string \<Rightarrow> headers" where
  "header_set [] name value = [(name, value)]"
| "header_set (kv # hs) name value =
     (if py_lower (fst kv) = py_lower name
      then (name, value) # filter (\<lambda>kv. py_lower (fst kv) \<noteq> py_lower name) hs
      else kv # header_set hs name value)"

lemma header_get_set [simp]: "header_get (header_set hs name value) name = Some value"
proof (induction hs)
  case (Cons kv hs)
  have "filter (\<lambda>x. py_lower (fst x) \<noteq> py_lower name \<and> py_lower (fst x) = py_lower name) hs = []"
    by simp
  with Cons show ?case by (auto simp: header_get_def)
qed (simp add: header_get_def)

lemma header_get_set_other:
  "py_lower k \<noteq> py_lower name \<Longrightarrow> header_get (header_set hs name value) k = header_get hs k"
proof -
  assume k: "py_lower k \<noteq> py_lower name"
  have "filter (\<lambda>kv. py_lower (fst kv) = py_lower k) (header_set hs name value) =
        filter (\<lambda>kv. py_lower (fst kv) = py_lower k) hs"
    using k by (induction hs) (auto intro: filter_cong)
  then show ?thesis by (simp add: header_get_def)
qed

record timeouts =
  connect_timeout :: rat
  read_timeout :: rat
  write_timeout :: rat
  pool_timeout :: rat

record http_client =
  cl_base_url :: string
  cl_timeout :: timeouts
  cl_follow_redirects :: bool
  cl_trust_env :: bool

record 'n http_lib =
  hl_build :: "http_client \<Rightarrow> string \<Rightarrow> string \<Rightarrow> (string \<times> json) list option \<Rightarrow> json \<Rightarrow>
               json option \<Rightarrow> exn + http_request"
  hl_send :: "http_client \<Rightarrow> http_request \<Rightarrow> 'n \<Rightarrow> (exn + http_response) \<times> 'n"
  hl_monotonic :: "'n \<Rightarrow> rat"
  hl_json_loads :: "bytes \<Rightarrow> json option" \<comment> \<open>\<open>None\<close>: the \<open>ValueError\<close>\<close>
  hl_json_error :: "bytes \<Rightarrow> string" \<comment> \<open>the text of that \<open>ValueError\<close>\<close>
  hl_float :: "string \<Rightarrow> rat option" \<comment> \<open>\<open>float(text)\<close>\<close>
  hl_str :: "json \<Rightarrow> string" \<comment> \<open>\<open>str(v)\<close> of a float, a list or a dictionary\<close>

subsection \<open>Settings and environment\<close>

record policy_env =
  allowed_private_hosts :: "string list option"
  allowed_unsafe_hosts :: "string list option"
  allow_insecure_http :: "bool option"
  insecure_allowed_hosts :: "string list option"
  max_response_bytes_setting :: "int option"
  max_timeout_setting :: "rat option"
  tenant_allowlist :: "string list option" \<comment> \<open>\<open>None\<close>: the query raises\<close>
  getaddrinfo :: "string \<Rightarrow> exn + ipaddr list"
  bracket_ok :: "string \<Rightarrow> bool"

definition or_default :: "'a \<Rightarrow> 'a option \<Rightarrow> 'a" where
  "or_default d v = (case v of None \<Rightarrow> d | Some x \<Rightarrow> x)"

definition DEFAULT_MAX_RESPONSE_BYTES :: int where
  "DEFAULT_MAX_RESPONSE_BYTES = 10 * 1024 * 1024"

definition DEFAULT_MAX_TIMEOUT_SECONDS :: rat where
  "DEFAULT_MAX_TIMEOUT_SECONDS = 120"

definition default_timeout :: timeouts where
  "default_timeout =
     \<lparr>connect_timeout = 10, read_timeout = 30, write_timeout = 10, pool_timeout = 10\<rparr>"

definition resolve_max_response_bytes :: "policy_env \<Rightarrow> int option \<Rightarrow> int" where
  "resolve_max_response_bytes env requested =
     (let ceiling = or_default DEFAULT_MAX_RESPONSE_BYTES (max_response_bytes_setting env)
      in case requested of None \<Rightarrow> ceiling | Some r \<Rightarrow> min r ceiling)"

definition resolve_timeout_seconds :: "policy_env \<Rightarrow> rat option \<Rightarrow> rat" where
  "resolve_timeout_seconds env requested =
     (let ceiling = or_default DEFAULT_MAX_TIMEOUT_SECONDS (max_timeout_setting env)
      in case requested of None \<Rightarrow> ceiling | Some r \<Rightarrow> min r ceiling)"

text \<open>\<^verbatim>\<open>build_client(**kwargs)\<close>: each keyword is absent or given.\<close>

definition build_client :: "string \<Rightarrow> timeouts option \<Rightarrow> bool option \<Rightarrow> bool option \<Rightarrow> http_client" where
  "build_client base_url timeout follow_redirects trust_env =
     \<lparr>cl_base_url = base_url, cl_timeout = or_default default_timeout timeout,
      cl_follow_redirects = or_default False follow_redirects,
      cl_trust_env = or_default False trust_env\<rparr>"

subsection \<open>Allowlists\<close>

definition deployment_allowed_private_hosts :: "policy_env \<Rightarrow> string list" where
  "deployment_allowed_private_hosts env = map py_lower (or_default [] (allowed_private_hosts env))"

definition deployment_allowed_unsafe_hosts :: "policy_env \<Rightarrow> string list" where
  "deployment_allowed_unsafe_hosts env = map py_lower (or_default [] (allowed_unsafe_hosts env))"

definition deployment_insecure_http_hosts :: "policy_env \<Rightarrow> string list" where
  "deployment_insecure_http_hosts env = map py_lower (or_default [] (insecure_allowed_hosts env))"

definition tenant_allowed_private_hosts :: "policy_env \<Rightarrow> string list" where
  "tenant_allowed_private_hosts env = map py_lower (or_default [] (tenant_allowlist env))"

definition is_private_allowlisted :: "policy_env \<Rightarrow> string \<Rightarrow> bool" where
  "is_private_allowlisted env host =
     (py_lower host \<in> set (deployment_allowed_private_hosts env) \<or>
      py_lower host \<in> set (tenant_allowed_private_hosts env))"

definition is_unsafe_allowlisted :: "policy_env \<Rightarrow> string \<Rightarrow> bool" where
  "is_unsafe_allowlisted env host = (py_lower host \<in> set (deployment_allowed_unsafe_hosts env))"

definition is_http_scheme_allowed :: "policy_env \<Rightarrow> string \<Rightarrow> bool" where
  "is_http_scheme_allowed env host =
     (or_default False (allow_insecure_http env) \<or>
      py_lower host \<in> set (deployment_insecure_http_hosts env))"

text \<open>\<^verbatim>\<open>AllowedOutboundHost.save\<close> normalises the host it stores.\<close>

definition saved_outbound_host :: "string \<Rightarrow> string" where
  "saved_outbound_host host = py_lower (py_strip host)"

subsection \<open>Address categories\<close>

datatype category = Loopback | LinkLocal | Multicast | Unspecified | Private

definition classify_blocked :: "ipaddr \<Rightarrow> category option" where
  "classify_blocked ip =
     (if is_loopback ip then Some Loopback
      else if is_link_local ip then Some LinkLocal
      else if is_multicast ip then Some Multicast
      else if is_unspecified ip then Some Unspecified
      else if is_private ip then Some Private
      else None)"

fun category_description :: "category \<Rightarrow> string" where
  "category_description Loopback = ''loopback''"
| "category_description LinkLocal = ''link-local (this range includes cloud metadata endpoints)''"
| "category_description Multicast = ''multicast''"
| "category_description Unspecified = ''unspecified''"
| "category_description Private = ''private''"

definition resolve_host :: "policy_env \<Rightarrow> string \<Rightarrow> exn + ipaddr list" where
  "resolve_host env host =
     (case getaddrinfo env host of
        Inl (PyExn OSError msg) \<Rightarrow>
          Inl (outbound_request_blocked_error (''could not resolve host '' @ py_repr host @ '': '' @ msg))
      | r \<Rightarrow> r)"

subsection \<open>Validating a URL\<close>

fun check_addresses :: "string \<Rightarrow> bool \<Rightarrow> bool \<Rightarrow> ipaddr list \<Rightarrow> exn + unit" where
  "check_addresses host private_ok unsafe_ok [] = Inr ()"
| "check_addresses host private_ok unsafe_ok (ip # ips) =
     (case classify_blocked ip of
        None \<Rightarrow> check_addresses host private_ok unsafe_ok ips
      | Some category \<Rightarrow>
          if category = Private \<and> private_ok then check_addresses host private_ok unsafe_ok ips
          else if unsafe_ok then check_addresses host private_ok unsafe_ok ips
          else Inl (outbound_request_blocked_error
                 (''host '' @ py_repr host @ '' resolves to a '' @ category_description category @
                  '' address; this destination is blocked unless explicitly allowlisted'')))"

definition nonempty_opt :: "string option \<Rightarrow> bool" where
  "nonempty_opt s = (case s of None \<Rightarrow> False | Some t \<Rightarrow> t \<noteq> [])"

definition validate_outbound_url :: "policy_env \<Rightarrow> string \<Rightarrow> exn + unit" where
  "validate_outbound_url env url = ebind (urlsplit (bracket_ok env) url) (\<lambda>parts.
     if url_scheme parts \<notin> {''http'', ''https''}
     then Inl (outbound_request_blocked_error
            (''scheme '' @ py_repr (url_scheme parts) @ '' is not allowed (only http/https)''))
     else if nonempty_opt (url_username parts) \<or> nonempty_opt (url_password parts)
     then Inl (outbound_request_blocked_error ''credentials embedded in a URL are not allowed'')
     else (case url_hostname parts of
        None \<Rightarrow> Inl (outbound_request_blocked_error ''URL has no host'')
      | Some host \<Rightarrow>
          if host = [] then Inl (outbound_request_blocked_error ''URL has no host'')
          else if url_scheme parts = ''http'' \<and> \<not> is_http_scheme_allowed env host
          then Inl (outbound_request_blocked_error
            (''plain http:// is not allowed by default; use https://, or enable it explicitly '' @
             ''via OUTBOUND_HTTP_ALLOW_INSECURE_HTTP / OUTBOUND_HTTP_INSECURE_ALLOWED_HOSTS -- '' @
             ''being on the destination allowlist does not by itself permit http://''))
          else ebind (resolve_host env host)
                 (check_addresses host (is_private_allowlisted env host) (is_unsafe_allowlisted env host))))"

subsection \<open>Bounded bodies, redirects, sending\<close>

fun read_chunks :: "int \<Rightarrow> int \<Rightarrow> bytes list \<Rightarrow> (exn + bytes) list \<Rightarrow> exn + bytes" where
  "read_chunks max_bytes seen chunks [] = Inr (concat chunks)"
| "read_chunks max_bytes seen chunks (Inl e # rest) = Inl e"
| "read_chunks max_bytes seen chunks (Inr c # rest) =
     (let seen' = seen + int (length c)
      in if seen' > max_bytes
         then Inl (outbound_request_blocked_error
                (''response exceeded the maximum allowed size of '' @ str_of_int max_bytes @ '' bytes''))
         else read_chunks max_bytes seen' (chunks @ [c]) rest)"

definition read_bounded_body :: "int \<Rightarrow> http_response \<Rightarrow> exn + bytes" where
  "read_bounded_body max_bytes response = read_chunks max_bytes 0 [] (resp_chunks response)"

definition redirect_omitted :: string where
  "redirect_omitted = ''<redirect-target-omitted>''"

definition sanitize_redirect_location :: "(string \<Rightarrow> bool) \<Rightarrow> string \<Rightarrow> exn + string" where
  "sanitize_redirect_location brk location =
     (case urlsplit brk location of
        Inl e \<Rightarrow> Inr redirect_omitted
      | Inr parts \<Rightarrow>
          (case url_hostname parts of
             None \<Rightarrow> Inr redirect_omitted
           | Some host \<Rightarrow>
               if host = [] then Inr redirect_omitted
               else ebind (url_port parts) (\<lambda>port.
                 let netloc = (case port of
                       None \<Rightarrow> host
                     | Some p \<Rightarrow> if p = 0 then host else host @ '':'' @ str_of_int p)
                 in Inr (if url_scheme parts \<noteq> []
                         then url_scheme parts @ ''://'' @ netloc @ url_path parts
                         else netloc))))"

definition guarded_send ::
  "policy_env \<Rightarrow> 'n http_lib \<Rightarrow> http_client \<Rightarrow> http_request \<Rightarrow> int option \<Rightarrow> bool \<Rightarrow> 'n \<Rightarrow>
   (exn + http_response \<times> bytes) \<times> 'n" where
  "guarded_send env lib client request max_bytes read_body net =
     (case validate_outbound_url env (req_url request) of
        Inl e \<Rightarrow> (Inl e, net)
      | Inr _ \<Rightarrow>
          let effective_max_bytes = resolve_max_response_bytes env max_bytes
          in case hl_send lib client request net of
               (Inl e, net') \<Rightarrow> (Inl e, net')
             | (Inr response, net') \<Rightarrow>
                 if resp_is_redirect response
                 then (ebind (sanitize_redirect_location (bracket_ok env)
                          (or_default [] (header_get (resp_headers response) ''location'')))
                        (\<lambda>location. Inl (outbound_request_blocked_error
                           (''redirect to '' @ py_repr location @
                            '' was not followed (redirects are disabled by policy)''))), net')
                 else if \<not> read_body then (Inr (response, []), net')
                 else (ebind (read_bounded_body effective_max_bytes response)
                        (\<lambda>body. Inr (response, body)), net'))"

subsection \<open>The policy as a predicate\<close>

definition high_risk :: "ipaddr \<Rightarrow> bool" where
  "high_risk ip = (is_loopback ip \<or> is_link_local ip \<or> is_multicast ip \<or> is_unspecified ip)"

lemma classify_high_risk:
  "high_risk ip \<Longrightarrow> \<exists>c. classify_blocked ip = Some c \<and> c \<noteq> Private"
  by (auto simp: classify_blocked_def high_risk_def)

lemma classify_Private: "classify_blocked ip = Some Private \<longleftrightarrow> \<not> high_risk ip \<and> is_private ip"
  by (auto simp: classify_blocked_def high_risk_def)

lemma classify_None: "classify_blocked ip = None \<longleftrightarrow> \<not> high_risk ip \<and> \<not> is_private ip"
  by (auto simp: classify_blocked_def high_risk_def)

definition address_permitted :: "bool \<Rightarrow> bool \<Rightarrow> ipaddr \<Rightarrow> bool" where
  "address_permitted private_ok unsafe_ok ip =
     (unsafe_ok \<or> (\<not> high_risk ip \<and> (is_private ip \<longrightarrow> private_ok)))"

lemma check_addresses_iff:
  "check_addresses host p u ips = Inr () \<longleftrightarrow> list_all (address_permitted p u) ips"
proof (induction ips)
  case (Cons ip ips)
  show ?case
  proof (cases "classify_blocked ip")
    case None
    then have "address_permitted p u ip" by (simp add: classify_None address_permitted_def)
    with None Cons show ?thesis by simp
  next
    case (Some c)
    have "address_permitted p u ip \<longleftrightarrow> (c = Private \<and> p) \<or> u"
      using Some classify_Private [of ip] classify_None [of ip]
      by (cases c) (auto simp: address_permitted_def classify_blocked_def high_risk_def split: if_splits)
    with Some Cons show ?thesis by auto
  qed
qed simp

lemma check_addresses_error:
  "check_addresses host p u ips = Inl e \<Longrightarrow> raised_class e = Some OutboundRequestBlockedError"
  by (induction ips) (auto split: option.splits if_splits)

text \<open>What a validated URL satisfies: its parts, its host and the addresses that host resolved to.\<close>

definition policy_grants :: "policy_env \<Rightarrow> split_result \<Rightarrow> string \<Rightarrow> ipaddr list \<Rightarrow> bool" where
  "policy_grants env parts host ips =
     (url_scheme parts \<in> {''http'', ''https''} \<and>
      \<not> nonempty_opt (url_username parts) \<and> \<not> nonempty_opt (url_password parts) \<and>
      url_hostname parts = Some host \<and> host \<noteq> [] \<and>
      (url_scheme parts = ''http'' \<longrightarrow> is_http_scheme_allowed env host) \<and>
      resolve_host env host = Inr ips \<and>
      list_all (address_permitted (is_private_allowlisted env host) (is_unsafe_allowlisted env host)) ips)"

lemma validate_split:
  "urlsplit (bracket_ok env) url = Inr parts \<Longrightarrow>
   validate_outbound_url env url = Inr () \<longleftrightarrow> (\<exists>host ips. policy_grants env parts host ips)"
proof (cases "url_hostname parts")
  case (Some host)
  assume u: "urlsplit (bracket_ok env) url = Inr parts"
  show ?thesis
  proof (cases "resolve_host env host")
    case (Inl e)
    with u Some show ?thesis
      by (simp add: validate_outbound_url_def policy_grants_def)
  next
    case (Inr ips)
    with u Some show ?thesis
      by (simp add: validate_outbound_url_def policy_grants_def check_addresses_iff)
  qed
qed (simp add: validate_outbound_url_def policy_grants_def)

lemma validate_iff:
  "validate_outbound_url env url = Inr () \<longleftrightarrow>
   (\<exists>parts host ips. urlsplit (bracket_ok env) url = Inr parts \<and> policy_grants env parts host ips)"
proof (cases "urlsplit (bracket_ok env) url")
  case (Inl e)
  then show ?thesis by (simp add: validate_outbound_url_def)
next
  case (Inr parts)
  with validate_split [OF Inr] show ?thesis by simp
qed

lemma policy_grants_unique:
  "policy_grants env parts host ips \<Longrightarrow> policy_grants env parts host' ips' \<Longrightarrow> host' = host \<and> ips' = ips"
  by (auto simp: policy_grants_def)

text \<open>C30: A validated URL is http(s) without credentials, plain http only where that was permitted
  separately, and no address its host resolves to is loopback, link-local, multicast or
  unspecified unless the deployment's own unsafe list names the host; a private address needs
  the deployment's or the tenant's private list, or the unsafe list.\<close>

theorem validated_url_is_safe:
  assumes "validate_outbound_url env url = Inr ()"
  shows "\<exists>parts host ips. urlsplit (bracket_ok env) url = Inr parts \<and> url_hostname parts = Some host \<and>
    resolve_host env host = Inr ips \<and> url_scheme parts \<in> {''http'', ''https''} \<and>
    (url_scheme parts = ''http'' \<longrightarrow> is_http_scheme_allowed env host) \<and>
    \<not> nonempty_opt (url_username parts) \<and> \<not> nonempty_opt (url_password parts) \<and>
    (\<forall>ip \<in> set ips.
       (high_risk ip \<longrightarrow> py_lower host \<in> set (deployment_allowed_unsafe_hosts env)) \<and>
       (is_private ip \<longrightarrow> py_lower host \<in> set (deployment_allowed_unsafe_hosts env) \<union>
          set (deployment_allowed_private_hosts env) \<union> set (tenant_allowed_private_hosts env)))"
proof -
  obtain parts host ips where u: "urlsplit (bracket_ok env) url = Inr parts"
    and g: "policy_grants env parts host ips"
    using assms validate_iff by blast
  have "\<forall>ip \<in> set ips. address_permitted (is_private_allowlisted env host) (is_unsafe_allowlisted env host) ip"
    using g by (simp add: policy_grants_def list_all_iff)
  then have "\<forall>ip \<in> set ips.
       (high_risk ip \<longrightarrow> py_lower host \<in> set (deployment_allowed_unsafe_hosts env)) \<and>
       (is_private ip \<longrightarrow> py_lower host \<in> set (deployment_allowed_unsafe_hosts env) \<union>
          set (deployment_allowed_private_hosts env) \<union> set (tenant_allowed_private_hosts env))"
    by (auto simp: address_permitted_def is_private_allowlisted_def is_unsafe_allowlisted_def)
  with u g show ?thesis unfolding policy_grants_def by blast
qed

text \<open>A deployment with no allowlists whose names all resolve to one address.\<close>

definition example_env :: "ipaddr \<Rightarrow> policy_env" where
  "example_env ip =
     \<lparr>allowed_private_hosts = None, allowed_unsafe_hosts = None, allow_insecure_http = None,
      insecure_allowed_hosts = None, max_response_bytes_setting = None, max_timeout_setting = None,
      tenant_allowlist = None, getaddrinfo = (\<lambda>h. Inr [ip]), bracket_ok = (\<lambda>h. True)\<rparr>"

lemma example_split:
  "urlsplit brk ''https://api.test/v1'' =
   Inr \<lparr>url_scheme = ''https'', url_netloc = ''api.test'', url_path = ''/v1'', url_query = [], url_fragment = []\<rparr>"
  by code_simp

lemma example_host:
  "url_hostname \<lparr>url_scheme = ''https'', url_netloc = ''api.test'', url_path = ''/v1'', url_query = [], url_fragment = []\<rparr>
     = Some ''api.test''"
  "url_username \<lparr>url_scheme = ''https'', url_netloc = ''api.test'', url_path = ''/v1'', url_query = [], url_fragment = []\<rparr> = None"
  "url_password \<lparr>url_scheme = ''https'', url_netloc = ''api.test'', url_path = ''/v1'', url_query = [], url_fragment = []\<rparr> = None"
  by code_simp+

lemmas class_defs = classify_blocked_def ip_class_simps

lemma example_validate:
  assumes "getaddrinfo env = (\<lambda>h. Inr [ip])"
  shows "validate_outbound_url env ''https://api.test/v1'' = Inr () \<longleftrightarrow>
    address_permitted (is_private_allowlisted env ''api.test'') (is_unsafe_allowlisted env ''api.test'') ip"
  using assms
  by (simp add: validate_outbound_url_def example_split example_host nonempty_opt_def resolve_host_def
      check_addresses_iff del: check_addresses.simps)

lemmas allowlist_defs =
  is_private_allowlisted_def is_unsafe_allowlisted_def deployment_allowed_private_hosts_def
  deployment_allowed_unsafe_hosts_def tenant_allowed_private_hosts_def or_default_def

lemma example_env_fields [simp]:
  "getaddrinfo (example_env ip) = (\<lambda>h. Inr [ip])" "bracket_ok (example_env ip) = (\<lambda>h. True)"
  "allowed_private_hosts (example_env ip) = None" "allowed_unsafe_hosts (example_env ip) = None"
  "tenant_allowlist (example_env ip) = None"
  by (simp_all add: example_env_def)

lemma example_public: "validate_outbound_url (example_env (IPv4 (octets 93 184 216 34))) ''https://api.test/v1'' = Inr ()"
  by (simp add: example_validate address_permitted_def high_risk_def ip_class_simps)

theorem validated_url_is_safe_witness:
  "\<exists>parts host ips. urlsplit (\<lambda>h. True) ''https://api.test/v1'' = Inr parts \<and> url_hostname parts = Some host \<and>
     resolve_host (example_env (IPv4 (octets 93 184 216 34))) host = Inr ips \<and>
     list_all (\<lambda>ip. \<not> high_risk ip) ips"
proof -
  let ?env = "example_env (IPv4 (octets 93 184 216 34))"
  have none: "deployment_allowed_unsafe_hosts ?env = []" "bracket_ok ?env = (\<lambda>h. True)"
    by (simp_all add: allowlist_defs)
  show ?thesis using validated_url_is_safe [OF example_public] unfolding none by (auto simp: list_all_iff)
qed

text \<open>C31: What a tenant's allowlist can do. Whatever a tenant puts into its table, a URL that
  becomes contactable because of it had only private addresses to be blocked for, and its host
  is in that table: no tenant entry opens a loopback, link-local, multicast or unspecified
  destination, a scheme, or any other host.\<close>

theorem tenant_allowlist_opens_only_private:
  assumes "validate_outbound_url (env\<lparr>tenant_allowlist := t\<rparr>) url = Inr ()"
    and "validate_outbound_url (env\<lparr>tenant_allowlist := None\<rparr>) url \<noteq> Inr ()"
  shows "\<exists>parts host ips. urlsplit (bracket_ok env) url = Inr parts \<and> url_hostname parts = Some host \<and>
    resolve_host env host = Inr ips \<and> py_lower host \<in> set (map py_lower (or_default [] t)) \<and>
    (\<forall>ip \<in> set ips. \<not> high_risk ip)"
proof -
  let ?e = "env\<lparr>tenant_allowlist := t\<rparr>" and ?none = "env\<lparr>tenant_allowlist := None\<rparr>"
  obtain parts host ips where u: "urlsplit (bracket_ok env) url = Inr parts"
    and g: "policy_grants ?e parts host ips"
    using assms(1) validate_iff [of "env\<lparr>tenant_allowlist := t\<rparr>" url] by auto
  have same: "resolve_host ?e host = resolve_host env host" "resolve_host ?none host = resolve_host env host"
    "is_http_scheme_allowed ?e host = is_http_scheme_allowed ?none host"
    "is_unsafe_allowlisted ?e host = is_unsafe_allowlisted ?none host"
    by (simp_all add: resolve_host_def is_http_scheme_allowed_def deployment_insecure_http_hosts_def
        is_unsafe_allowlisted_def deployment_allowed_unsafe_hosts_def)
  have "\<not> policy_grants ?none parts host ips"
    using assms(2) u validate_iff [of "env\<lparr>tenant_allowlist := None\<rparr>" url] by auto
  then have n: "\<not> list_all (address_permitted (is_private_allowlisted ?none host) (is_unsafe_allowlisted ?e host)) ips"
    using g same by (auto simp: policy_grants_def)
  have a: "list_all (address_permitted (is_private_allowlisted ?e host) (is_unsafe_allowlisted ?e host)) ips"
    using g by (simp add: policy_grants_def)
  have "\<not> is_unsafe_allowlisted ?e host" "is_private_allowlisted ?e host \<noteq> is_private_allowlisted ?none host"
    using n a by (auto simp: address_permitted_def list_all_iff)
  moreover have "py_lower host \<in> set (map py_lower (or_default [] t))"
    using calculation(2)
    by (auto simp: is_private_allowlisted_def tenant_allowed_private_hosts_def
        deployment_allowed_private_hosts_def or_default_def)
  moreover have "\<forall>ip \<in> set ips. \<not> high_risk ip"
    using a calculation(1) by (auto simp: address_permitted_def list_all_iff)
  ultimately show ?thesis using u g same by (auto simp: policy_grants_def)
qed

theorem tenant_allowlist_opens_only_private_witness:
  "\<exists>parts host ips. urlsplit (\<lambda>h. True) ''https://api.test/v1'' = Inr parts \<and> url_hostname parts = Some host \<and>
     resolve_host (example_env (IPv4 (octets 10 0 0 5))) host = Inr ips \<and>
     py_lower host \<in> set (map py_lower (or_default [] (Some [''API.test'']))) \<and> list_all (\<lambda>ip. \<not> high_risk ip) ips"
proof -
  let ?ip = "IPv4 (octets 10 0 0 5)"
  let ?env = "example_env ?ip"
  have low: "py_lower ''api.test'' = ''api.test''" "py_lower ''API.test'' = ''api.test''" by code_simp+
  have "validate_outbound_url (?env\<lparr>tenant_allowlist := Some [''API.test'']\<rparr>) ''https://api.test/v1'' = Inr ()"
    by (simp add: example_validate address_permitted_def high_risk_def ip_class_simps allowlist_defs low)
  moreover have "validate_outbound_url (?env\<lparr>tenant_allowlist := None\<rparr>) ''https://api.test/v1'' \<noteq> Inr ()"
    by (simp add: example_validate address_permitted_def high_risk_def ip_class_simps allowlist_defs)
  ultimately show ?thesis
    using tenant_allowlist_opens_only_private [where env = ?env and t = "Some [''API.test'']"] by (simp add: list_all_iff)
qed

text \<open>The address classes leave three gaps in that guarantee. The shared range
  100.64.0.0/10, which holds one cloud's metadata service (100.100.100.200), is not blocked at
  all; an IPv4-mapped loopback address and the IPv6 metadata address fd00:ec2::254 count as
  merely private, so a tenant's own allowlist entry opens them.\<close>

theorem address_class_gaps:
  "classify_blocked (IPv4 (octets 100 100 100 200)) = None \<and>
   classify_blocked (IPv6 0xFFFF7F000001) = Some Private \<and>
   classify_blocked (IPv6 0xFD000EC2000000000000000000000254) = Some Private \<and>
   validate_outbound_url ((example_env (IPv6 0xFFFF7F000001))\<lparr>tenant_allowlist := Some [''api.test'']\<rparr>)
     ''https://api.test/v1'' = Inr ()"
proof -
  have "validate_outbound_url ((example_env (IPv6 0xFFFF7F000001))\<lparr>tenant_allowlist := Some [''api.test'']\<rparr>)
     ''https://api.test/v1'' = Inr ()"
    by (simp add: example_validate address_permitted_def high_risk_def ip_class_simps allowlist_defs)
  then show ?thesis by (simp add: class_defs)
qed

subsection \<open>Bounded bodies and guarded sends\<close>

definition total_length :: "bytes list \<Rightarrow> int" where
  "total_length cs = int (length (concat cs))"

lemma read_chunks_iff:
  "read_chunks m seen acc cs = Inr b \<longleftrightarrow>
   (\<exists>bs. cs = map Inr bs \<and> b = concat (acc @ bs) \<and> (bs = [] \<or> seen + total_length bs \<le> m))"
proof (induction m seen acc cs arbitrary: b rule: read_chunks.induct)
  case (3 m seen acc c rest)
  have eq: "(\<exists>bs. Inr c # rest = map Inr bs \<and> P bs) \<longleftrightarrow> (\<exists>bs. rest = map Inr bs \<and> P (c # bs))" for P
    by (auto simp: Cons_eq_map_conv)
  show ?case
  proof (cases "m < seen + int (length c)")
    case True
    then have "\<not> seen + total_length (c # bs) \<le> m" for bs by (simp add: total_length_def)
    with True show ?thesis by (simp add: eq Let_def)
  next
    case False
    with "3.IH" [OF refl] show ?thesis
      by (auto simp: eq Let_def total_length_def)
  qed
qed auto

text \<open>A body is returned exactly when every chunk arrives and the total stays within the cap; it is
  then the concatenation of the chunks.\<close>

lemma read_bounded_body_iff:
  "0 \<le> m \<Longrightarrow> read_bounded_body m r = Inr b \<longleftrightarrow>
   (\<exists>bs. resp_chunks r = map Inr bs \<and> b = concat bs \<and> int (length b) \<le> m)"
  by (auto simp: read_bounded_body_def read_chunks_iff total_length_def)

text \<open>Over the cap, however the body is cut into chunks, the error is the policy's and nothing of
  the body comes back.\<close>

lemma read_chunks_over:
  "m < seen + total_length bs \<Longrightarrow> seen \<le> m \<Longrightarrow>
   \<exists>e. read_chunks m seen acc (map Inr bs @ later) = Inl e \<and> raised_class e = Some OutboundRequestBlockedError"
proof (induction bs arbitrary: seen acc)
  case Nil
  then show ?case by (simp add: total_length_def)
next
  case (Cons c bs)
  show ?case
  proof (cases "m < seen + int (length c)")
    case True
    then show ?thesis by (simp add: Let_def)
  next
    case False
    moreover have "m < (seen + int (length c)) + total_length bs"
      using Cons.prems(1) by (simp add: total_length_def)
    ultimately show ?thesis
      using Cons.IH [of "seen + int (length c)" "acc @ [c]"] by (simp add: Let_def)
  qed
qed

definition effective_cap :: "policy_env \<Rightarrow> int" where
  "effective_cap env = or_default DEFAULT_MAX_RESPONSE_BYTES (max_response_bytes_setting env)"

lemma resolve_max_le_cap: "resolve_max_response_bytes env r \<le> effective_cap env"
  by (simp add: resolve_max_response_bytes_def effective_cap_def Let_def split: option.splits)

lemma resolve_max_le_requested: "resolve_max_response_bytes env (Some r) \<le> r"
  by (simp add: resolve_max_response_bytes_def Let_def)

text \<open>Deployment ceilings. A connection's own configuration can lower the response cap and
  the timeout of a request, never raise them: what applies is never above the deployment's
  ceiling, never above the request, and is the request itself where that is within the ceiling.\<close>

lemma ceilings_hold:
  "resolve_max_response_bytes env r \<le> or_default DEFAULT_MAX_RESPONSE_BYTES (max_response_bytes_setting env)"
  "resolve_timeout_seconds env t \<le> or_default DEFAULT_MAX_TIMEOUT_SECONDS (max_timeout_setting env)"
  "resolve_max_response_bytes env (Some n) \<le> n"
  "resolve_timeout_seconds env (Some x) \<le> x"
  "resolve_max_response_bytes env (Some n) \<in>
     {n, or_default DEFAULT_MAX_RESPONSE_BYTES (max_response_bytes_setting env)}"
  "resolve_timeout_seconds env (Some x) \<in>
     {x, or_default DEFAULT_MAX_TIMEOUT_SECONDS (max_timeout_setting env)}"
  by (auto simp: resolve_max_response_bytes_def resolve_timeout_seconds_def Let_def min_def
      split: option.splits)

text \<open>How a guarded send goes: refused before anything is sent, or sent exactly once.\<close>

lemma guarded_send_refused:
  "validate_outbound_url env (req_url request) = Inl e \<Longrightarrow>
   guarded_send env lib client request mb rb net = (Inl e, net)"
  by (simp add: guarded_send_def)

lemma guarded_send_net:
  "validate_outbound_url env (req_url request) = Inr () \<Longrightarrow>
   snd (guarded_send env lib client request mb rb net) = snd (hl_send lib client request net)"
  by (auto simp: guarded_send_def Let_def split: prod.splits sum.splits)

lemma guarded_send_ok:
  assumes "guarded_send env lib client request mb rb net = (Inr (resp, body), net')"
  shows "validate_outbound_url env (req_url request) = Inr () \<and>
    hl_send lib client request net = (Inr resp, net') \<and> \<not> resp_is_redirect resp \<and>
    (if rb then read_bounded_body (resolve_max_response_bytes env mb) resp = Inr body else body = [])"
  using assms
  by (auto simp: guarded_send_def Let_def result_simps split: prod.splits sum.splits if_splits)

lemma guarded_send_plain:
  "validate_outbound_url env (req_url request) = Inr () \<Longrightarrow>
   hl_send lib client request net = (Inr resp, net') \<Longrightarrow> \<not> resp_is_redirect resp \<Longrightarrow>
   guarded_send env lib client request mb True net =
     (ebind (read_bounded_body (resolve_max_response_bytes env mb) resp) (\<lambda>b. Inr (resp, b)), net')"
  by (simp add: guarded_send_def)

text \<open>What httpx documents of a client that does not follow redirects: a send is one exchange, of
  the request it was given; one that fails may have failed before it or after it. \<open>sent\<close> reads
  the requests that went out so far from the state of the network.\<close>

definition single_exchange :: "'n http_lib \<Rightarrow> ('n \<Rightarrow> http_request list) \<Rightarrow> bool" where
  "single_exchange lib sent =
     (\<forall>client request net. \<not> cl_follow_redirects client \<longrightarrow>
        (case hl_send lib client request net of
           (Inl e, net') \<Rightarrow> sent net' \<in> {sent net, sent net @ [request]}
         | (Inr resp, net') \<Rightarrow> sent net' = sent net @ [request]))"

lemma build_client_follows [simp]: "\<not> cl_follow_redirects (build_client base timeout None trust)"
  by (simp add: build_client_def or_default_def)

lemma single_exchange_ok:
  "single_exchange lib sent \<Longrightarrow> \<not> cl_follow_redirects client \<Longrightarrow>
   hl_send lib client request net = (Inr resp, net') \<Longrightarrow> sent net' = sent net @ [request]"
  unfolding single_exchange_def by (drule spec [of _ client], drule spec [of _ request], drule spec [of _ net]) simp

lemma single_exchange_any:
  "single_exchange lib sent \<Longrightarrow> \<not> cl_follow_redirects client \<Longrightarrow>
   hl_send lib client request net = (r, net') \<Longrightarrow> sent net' \<in> {sent net, sent net @ [request]}"
  unfolding single_exchange_def
  by (drule spec [of _ client], drule spec [of _ request], drule spec [of _ net]) (cases r; simp)

text \<open>C29: Every request that the platform makes with a client of its own is guarded. The clients
  of \<^verbatim>\<open>build_client\<close> follow no redirect, so whatever the server answers, nothing is sent but the
  request itself, once, and only to a URL that the policy permits; if the URL is not permitted,
  the network is untouched. If a response comes back, it is not a redirect, and its body is the
  whole received body and no longer than the deployment's ceiling nor, where the connection
  asked for a lower cap, than that cap.\<close>

theorem guarded_send_guards:
  assumes "single_exchange lib sent"
    and "0 \<le> or_default DEFAULT_MAX_RESPONSE_BYTES (max_response_bytes_setting env)"
    and "\<forall>r. mb = Some r \<longrightarrow> 0 \<le> r"
  shows "case guarded_send env lib (build_client base timeout None trust) request mb True net of
      (Inl e, net') \<Rightarrow>
        (if validate_outbound_url env (req_url request) = Inr ()
         then sent net' \<in> {sent net, sent net @ [request]} else net' = net)
    | (Inr (resp, body), net') \<Rightarrow>
        validate_outbound_url env (req_url request) = Inr () \<and>
        sent net' = sent net @ [request] \<and> \<not> resp_is_redirect resp \<and>
        hl_send lib (build_client base timeout None trust) request net = (Inr resp, net') \<and>
        (\<exists>bs. resp_chunks resp = map Inr bs \<and> concat bs = body) \<and>
        int (length body) \<le> or_default DEFAULT_MAX_RESPONSE_BYTES (max_response_bytes_setting env) \<and>
        (\<forall>r. mb = Some r \<longrightarrow> int (length body) \<le> r)"
proof (cases "guarded_send env lib (build_client base timeout None trust) request mb True net")
  case (Pair r net')
  let ?client = "build_client base timeout None trust"
  have pos: "0 \<le> resolve_max_response_bytes env mb"
    using assms by (simp add: resolve_max_response_bytes_def Let_def split: option.splits)
  obtain h nh where h: "hl_send lib ?client request net = (h, nh)" by fastforce
  note any = single_exchange_any [OF assms(1) build_client_follows h]
  show ?thesis
  proof (cases r)
    case (Inl e)
    show ?thesis
    proof (cases "validate_outbound_url env (req_url request)")
      case (Inr u)
      then have v: "validate_outbound_url env (req_url request) = Inr ()" by simp
      have "net' = nh" using guarded_send_net [OF v, of lib ?client mb True net] Pair h by simp
      with any Pair Inl v show ?thesis by simp
    qed (use Pair Inl in \<open>simp add: guarded_send_refused\<close>)
  next
    case (Inr rb)
    obtain resp body where rb: "rb = (resp, body)" by fastforce
    have ok: "guarded_send env lib ?client request mb True net = (Inr (resp, body), net')"
      using Pair Inr rb by simp
    note g = guarded_send_ok [OF ok]
    have one: "sent net' = sent net @ [request]"
      using single_exchange_ok [OF assms(1) build_client_follows] g by blast
    obtain bs where "resp_chunks resp = map Inr bs" "body = concat bs"
        "int (length body) \<le> resolve_max_response_bytes env mb"
      using g read_bounded_body_iff [OF pos] by auto
    moreover have "resolve_max_response_bytes env mb \<le>
        or_default DEFAULT_MAX_RESPONSE_BYTES (max_response_bytes_setting env)"
      using resolve_max_le_cap [of env mb] by (simp add: effective_cap_def)
    moreover have "mb = Some r \<Longrightarrow> resolve_max_response_bytes env mb \<le> r" for r
      using resolve_max_le_requested by simp
    ultimately show ?thesis using ok g one by force
  qed
qed

text \<open>A library that answers every request with one response and counts the requests sent.\<close>

definition const_lib :: "http_response \<Rightarrow> nat http_lib" where
  "const_lib r =
     \<lparr>hl_build = (\<lambda>client m path params hs body. Inr \<lparr>req_method = m,
         req_url = cl_base_url client @ path, req_headers = [], req_content = []\<rparr>),
      hl_send = (\<lambda>client req n. (Inr r, n + 1)), hl_monotonic = (\<lambda>n. 0),
      hl_json_loads = (\<lambda>b. Some (JStr b)), hl_json_error = (\<lambda>b. []), hl_float = (\<lambda>t. None), hl_str = (\<lambda>v. [])\<rparr>"

definition example_request :: http_request where
  "example_request =
     \<lparr>req_method = ''GET'', req_url = ''https://api.test/v1'', req_headers = [], req_content = []\<rparr>"

definition example_response :: http_response where
  "example_response =
     \<lparr>resp_status = 200, resp_headers = [], resp_is_redirect = False,
      resp_chunks = [Inr ''ab'', Inr ''c'']\<rparr>"

text \<open>The same with the requests that were sent as the network's state.\<close>

definition log_lib :: "http_response \<Rightarrow> http_request list http_lib" where
  "log_lib r =
     \<lparr>hl_build = (\<lambda>client m path params hs body. Inr \<lparr>req_method = m,
         req_url = cl_base_url client @ path, req_headers = [], req_content = []\<rparr>),
      hl_send = (\<lambda>client req n. (Inr r, n @ [req])), hl_monotonic = (\<lambda>n. 0),
      hl_json_loads = (\<lambda>b. Some (JStr b)), hl_json_error = (\<lambda>b. []), hl_float = (\<lambda>t. None), hl_str = (\<lambda>v. [])\<rparr>"

theorem guarded_send_guards_witness:
  "\<exists>resp body. guarded_send (example_env (IPv4 (octets 93 184 216 34))) (log_lib example_response)
      (build_client [] None None None) example_request (Some 3) True [] = (Inr (resp, body), [example_request]) \<and>
    int (length body) \<le> 3"
proof -
  let ?env = "example_env (IPv4 (octets 93 184 216 34))"
  let ?send = "guarded_send ?env (log_lib example_response) (build_client [] None None None)
                 example_request (Some 3) True []"
  have cap: "max_response_bytes_setting ?env = None" by (simp add: example_env_def)
  have law: "single_exchange (log_lib r) (\<lambda>n. n)" for r by (simp add: single_exchange_def log_lib_def)
  have r: "?send = (Inr (example_response, ''abc''), [example_request])"
    using example_public
    by (simp add: guarded_send_def example_request_def log_lib_def example_response_def
        resolve_max_response_bytes_def cap or_default_def DEFAULT_MAX_RESPONSE_BYTES_def
        read_bounded_body_def Let_def)
  show ?thesis
    using guarded_send_guards [OF law, where env = ?env and mb = "Some 3" and r1 = example_response
        and base = "[]" and timeout = None and trust = None and request = example_request and net = "[]"] r cap
    by (simp add: or_default_def DEFAULT_MAX_RESPONSE_BYTES_def)
qed

subsection \<open>Redirect targets\<close>

lemma lower_char_small: "of_char x < (97::nat) \<Longrightarrow> lower_char c = x \<Longrightarrow> c = x"
  by (auto simp: lower_char_def Let_def of_char_of split: if_splits)

lemma in_py_lower_small: "of_char x < (97::nat) \<Longrightarrow> x \<in> set (py_lower s) \<Longrightarrow> x \<in> set s"
  unfolding py_lower_def by (metis imageE lower_char_small list.set_map)

lemma urlsplit_parts:
  assumes "urlsplit brk url = Inr p"
  shows "(\<forall>c \<in> set (url_netloc p). \<not> netloc_end c) \<and>
    CHR ''?'' \<notin> set (url_path p) \<and> CHR ''#'' \<notin> set (url_path p) \<and>
    (\<forall>c \<in> set (url_scheme p). c \<noteq> CHR ''?'' \<and> c \<noteq> CHR ''#'')"
proof -
  let ?u1 = "filter (\<lambda>c. c \<notin> set [CHR 0x09, CHR 0x0D, CHR 0x0A]) (dropWhile (\<lambda>c. of_char c \<le> (32::nat)) url)"
  obtain scheme u2 where ss: "split_scheme ?u1 = (scheme, u2)" by fastforce
  let ?n = "if take 2 u2 = ''//'' then takeWhile (\<lambda>c. \<not> netloc_end c) (drop 2 u2) else []"
  let ?u3 = "if take 2 u2 = ''//'' then dropWhile (\<lambda>c. \<not> netloc_end c) (drop 2 u2) else u2"
  obtain u4 h1 frag where f: "partition_char (CHR ''#'') ?u3 = (u4, h1, frag)" by (cases "partition_char (CHR ''#'') ?u3") auto
  obtain path h2 query where q: "partition_char (CHR ''?'') u4 = (path, h2, query)" by (cases "partition_char (CHR ''?'') u4") auto
  have p: "url_scheme p = scheme" "url_netloc p = ?n" "url_path p = path"
    using assms ss f q by (auto simp: urlsplit_def Let_def split: if_splits)
  have sc: "\<forall>c \<in> set scheme. c \<noteq> CHR ''?'' \<and> c \<noteq> CHR ''#''"
  proof (rule ballI)
    fix c assume c: "c \<in> set scheme"
    have "CHR ''?'' \<notin> set (py_lower pre)" "CHR ''#'' \<notin> set (py_lower pre)"
      if "list_all scheme_char pre" for pre
    proof -
      have "\<not> scheme_char (CHR ''?'')" "\<not> scheme_char (CHR ''#'')"
        by (simp_all add: scheme_char_def is_alpha_def is_digit_def Let_def)
      with that have "CHR ''?'' \<notin> set pre" "CHR ''#'' \<notin> set pre"
        by (auto simp: list_all_iff)
      then show "CHR ''?'' \<notin> set (py_lower pre)" "CHR ''#'' \<notin> set (py_lower pre)"
        using in_py_lower_small [of "CHR ''?''" pre] in_py_lower_small [of "CHR ''#''" pre] by auto
    qed
    with c ss show "c \<noteq> CHR ''?'' \<and> c \<noteq> CHR ''#''"
      by (auto simp: split_scheme_def split: prod.splits if_splits)
  qed
  have n: "\<forall>c \<in> set (url_netloc p). \<not> netloc_end c"
    using p(2) takeWhile_netloc by (auto split: if_splits)
  have "CHR ''#'' \<notin> set u4" "CHR ''?'' \<notin> set path" "set path \<subseteq> set u4"
    using partition_char_parts [OF f] partition_char_parts [OF q] partition_subset [OF q] by blast+
  with p sc n show ?thesis by auto
qed

lemma url_hostname_chars:
  assumes "url_hostname p = Some h" "x \<in> set h" "of_char x < (97::nat)"
  shows "x \<in> set (url_netloc p) \<or> x = CHR ''%''"
proof -
  let ?hi = "snd (snd (rpartition_char (CHR ''@'') (url_netloc p)))"
  have hi: "set ?hi \<subseteq> set (url_netloc p)"
    using rpartition_subset [of "CHR ''@''" "url_netloc p"]
    by (cases "rpartition_char (CHR ''@'') (url_netloc p)") auto
  have h0: "set (fst (url_hostinfo p)) \<subseteq> set ?hi"
    by (auto simp: url_hostinfo_def Let_def split: prod.splits if_splits dest!: partition_subset)
  obtain nm pc z where z: "partition_char (CHR ''%'') (fst (url_hostinfo p)) = (nm, pc, z)"
    by (cases "partition_char (CHR ''%'') (fst (url_hostinfo p))") auto
  have "h = py_lower nm @ (if pc then ''%'' @ z else [])"
    using assms(1) z by (simp add: url_hostname_def Let_def split: if_splits)
  then have "x \<in> set nm \<or> x \<in> set z \<or> x = CHR ''%''"
    using assms(2) in_py_lower_small [OF assms(3)] by (auto split: if_splits)
  moreover have "set nm \<subseteq> set (fst (url_hostinfo p))" "set z \<subseteq> set (fst (url_hostinfo p))"
    using partition_subset [OF z] by auto
  ultimately show ?thesis using h0 hi by blast
qed

lemma str_of_int_no: "c \<noteq> CHR ''-'' \<Longrightarrow> \<not> is_digit c \<Longrightarrow> c \<notin> set (str_of_int i)"
  by (auto simp: str_of_int_def dest: str_of_nat_not_in split: if_splits)

lemma punctuation_small:
  "of_char (CHR ''?'') < (97::nat)" "of_char (CHR ''#'') < (97::nat)"
  "\<not> is_digit (CHR ''?'')" "\<not> is_digit (CHR ''#'')" "netloc_end (CHR ''?'')" "netloc_end (CHR ''#'')"
  by (simp_all add: is_digit_def Let_def netloc_end_def)

text \<open>What a refused redirect may put into an error message. The reported target contains no
  query and no fragment separator, whatever the source's \<^verbatim>\<open>Location\<close> header holds.\<close>

theorem redirect_target_has_no_query:
  assumes "sanitize_redirect_location brk location = Inr shown"
  shows "CHR ''?'' \<notin> set shown \<and> CHR ''#'' \<notin> set shown"
proof (cases "urlsplit brk location")
  case (Inl e)
  with assms show ?thesis by (auto simp: sanitize_redirect_location_def redirect_omitted_def)
next
  case (Inr p)
  note parts = urlsplit_parts [OF Inr]
  show ?thesis
  proof (cases "url_hostname p")
    case None
    with Inr assms show ?thesis by (auto simp: sanitize_redirect_location_def redirect_omitted_def)
  next
    case (Some h)
    have h: "CHR ''?'' \<notin> set h" "CHR ''#'' \<notin> set h"
      using url_hostname_chars [OF Some] parts punctuation_small by fastforce+
    have port: "CHR ''?'' \<notin> set (str_of_int i)" "CHR ''#'' \<notin> set (str_of_int i)" for i
      using punctuation_small str_of_int_no [of "CHR ''?''"] str_of_int_no [of "CHR ''#''"] by simp_all
    show ?thesis
    proof (cases "h = []")
      case True
      with Inr Some assms show ?thesis by (auto simp: sanitize_redirect_location_def redirect_omitted_def)
    next
      case False
      with Inr Some assms obtain port where
        "shown = (let netloc = (case port of None \<Rightarrow> h | Some p \<Rightarrow> if p = 0 then h else h @ '':'' @ str_of_int p)
          in if url_scheme p \<noteq> [] then url_scheme p @ ''://'' @ netloc @ url_path p else netloc)"
        by (auto simp: sanitize_redirect_location_def result_simps Let_def)
      then show ?thesis using h port parts
        by (cases port; cases "url_scheme p = []") (simp_all add: Let_def, blast+)
    qed
  qed
qed

theorem redirect_target_has_no_query_witness:
  "CHR ''?'' \<notin> set ''https://idp.test/login'' \<and> CHR ''#'' \<notin> set ''https://idp.test/login''"
proof (rule redirect_target_has_no_query [of "\<lambda>h. True" "''https://u:pw@IdP.test/login?token=s3#f''"])
  show "sanitize_redirect_location (\<lambda>h. True) ''https://u:pw@IdP.test/login?token=s3#f'' =
        Inr ''https://idp.test/login''"
    by code_simp
qed

text \<open>A \<^verbatim>\<open>Location\<close> whose port is not a number escapes the sanitizer: the access to
  \<^verbatim>\<open>parts.port\<close> raises a \<^verbatim>\<open>ValueError\<close> that nothing there catches, so the
  refused redirect surfaces as an exception outside the domain hierarchy whose text quotes
  what the header held in the port's place.\<close>

theorem redirect_bad_port_escapes:
  assumes "validate_outbound_url env (req_url request) = Inr ()"
    and "hl_send lib client request net = (Inr resp, net')" and "resp_is_redirect resp"
    and "header_get (resp_headers resp) ''location'' = Some ''https://h:s3cr3t/x''"
  shows "guarded_send env lib client request mb rb net =
    (Inl (PyExn ValueError (''Port could not be cast to integer value as '' @ py_repr ''s3cr3t'')), net')"
proof -
  have "sanitize_redirect_location brk ''https://h:s3cr3t/x'' =
    Inl (PyExn ValueError (''Port could not be cast to integer value as '' @ py_repr ''s3cr3t''))" for brk
    by code_simp
  with assms show ?thesis by (simp add: guarded_send_def or_default_def)
qed

theorem redirect_bad_port_escapes_witness:
  "guarded_send (example_env (IPv4 (octets 93 184 216 34)))
     (const_lib \<lparr>resp_status = 302, resp_headers = [(''Location'', ''https://h:s3cr3t/x'')],
        resp_is_redirect = True, resp_chunks = []\<rparr>)
     (build_client [] None None None) example_request None True 0 =
   (Inl (PyExn ValueError (''Port could not be cast to integer value as '' @ py_repr ''s3cr3t'')), 1)"
proof (rule redirect_bad_port_escapes)
  show "validate_outbound_url (example_env (IPv4 (octets 93 184 216 34))) (req_url example_request) = Inr ()"
    using example_public by (simp add: example_request_def)
  show "hl_send (const_lib \<lparr>resp_status = 302, resp_headers = [(''Location'', ''https://h:s3cr3t/x'')],
        resp_is_redirect = True, resp_chunks = []\<rparr>) (build_client [] None None None) example_request 0 =
     (Inr \<lparr>resp_status = 302, resp_headers = [(''Location'', ''https://h:s3cr3t/x'')],
        resp_is_redirect = True, resp_chunks = []\<rparr>, 1)"
    by (simp add: const_lib_def)
  show "resp_is_redirect \<lparr>resp_status = 302, resp_headers = [(''Location'', ''https://h:s3cr3t/x'')],
        resp_is_redirect = True, resp_chunks = []\<rparr>" by simp
  show "header_get (resp_headers \<lparr>resp_status = 302, resp_headers = [(''Location'', ''https://h:s3cr3t/x'')],
        resp_is_redirect = True, resp_chunks = []\<rparr>) ''location'' = Some ''https://h:s3cr3t/x''"
    by code_simp
qed

end
