(* ===== verification/Mapping_Paths.thy ===== *)
theory Mapping_Paths
  imports Errors
begin

text \<open>
  \<^verbatim>\<open>apps/core/paths.py\<close> (dotted lookups into JSON documents) and
  \<^verbatim>\<open>apps/pipelines/mapping.py\<close> (a pipeline's destination mapping applied to extracted
  records), with the laws of path lookup and the functional description of the mapper.
\<close>

subsection \<open>Dotted paths\<close>

fun walk_path :: "json \<Rightarrow> string list \<Rightarrow> json \<times> bool" where
  "walk_path current [] = (current, True)"
| "walk_path current (part # parts) =
     (case current of
        JObj kvs \<Rightarrow> (case map_of kvs part of
            None \<Rightarrow> (JNull, False)
          | Some v \<Rightarrow> walk_path v parts)
      | _ \<Rightarrow> (JNull, False))"

definition get_by_path :: "json \<Rightarrow> string \<Rightarrow> json \<times> bool" where
  "get_by_path obj path = walk_path obj (split_char (CHR ''.'') path)"

lemma walk_path_append:
  "walk_path obj (ps @ qs) =
     (case walk_path obj ps of (v, found) \<Rightarrow> if found then walk_path v qs else (JNull, False))"
  by (induction ps arbitrary: obj) (auto split: json.splits option.splits)

lemma walk_path_missing: "walk_path obj ps = (v, False) \<Longrightarrow> v = JNull"
  by (induction ps arbitrary: obj) (auto split: json.splits option.splits)

lemma walk_path_scalar: "(\<And>kvs. obj \<noteq> JObj kvs) \<Longrightarrow> walk_path obj (p # ps) = (JNull, False)"
  by (cases obj) auto

text \<open>The document that holds one value under nested keys.\<close>

fun nest_under :: "string list \<Rightarrow> json \<Rightarrow> json" where
  "nest_under [] v = v"
| "nest_under (p # ps) v = JObj [(p, nest_under ps v)]"

lemma walk_nest: "walk_path (nest_under ps v) ps = (v, True)"
  by (induction ps) auto

lemma get_nest:
  "ps \<noteq> [] \<Longrightarrow> (\<And>p. p \<in> set ps \<Longrightarrow> CHR ''.'' \<notin> set p) \<Longrightarrow>
   get_by_path (nest_under ps v) (join_with ''.'' ps) = (v, True)"
  by (simp add: get_by_path_def split_join walk_nest)

text \<open>A field path without a dot is a plain key lookup.\<close>

lemma get_by_path_key:
  "CHR ''.'' \<notin> set k \<Longrightarrow>
   get_by_path (JObj kvs) k = (case map_of kvs k of None \<Rightarrow> (JNull, False) | Some v \<Rightarrow> (v, True))"
  by (simp add: get_by_path_def split_char_absent split: option.splits)

lemma get_by_path_nonobject: "(\<And>kvs. obj \<noteq> JObj kvs) \<Longrightarrow> get_by_path obj path = (JNull, False)"
  using split_char_nonempty [of "CHR ''.''" path] walk_path_scalar
  by (cases "split_char (CHR ''.'') path") (auto simp: get_by_path_def)

subsection \<open>The destination mapper\<close>

type_synonym row = "(string \<times> json) list"

text \<open>The loop over \<^verbatim>\<open>mapping.items()\<close>, with the dictionary \<^verbatim>\<open>mapped\<close> built so far.\<close>

fun map_columns :: "json \<Rightarrow> bool \<Rightarrow> (string \<times> string) list \<Rightarrow> row \<Rightarrow> exn + row" where
  "map_columns record strict [] mapped = Inr mapped"
| "map_columns record strict ((destination_column, source_field) # rest) mapped =
     (case get_by_path record source_field of (value, found) \<Rightarrow>
        if \<not> found \<and> strict
        then Inl (mapping_error (''source field '' @ py_repr source_field @
               '' missing for destination column '' @ py_repr destination_column))
        else map_columns record strict rest
               (AList.update destination_column (if found then value else JNull) mapped))"

definition map_record :: "bool \<Rightarrow> (string \<times> string) list \<Rightarrow> json \<Rightarrow> exn + row" where
  "map_record strict mapping record =
     (case record of
        JObj kvs \<Rightarrow> map_columns record strict mapping []
      | _ \<Rightarrow> Inl (mapping_error (''expected an object record, got '' @ type_name record)))"

definition map_records :: "bool \<Rightarrow> (string \<times> string) list \<Rightarrow> json list \<Rightarrow> exn + row list" where
  "map_records strict mapping records = emap (map_record strict mapping) records"

text \<open>What a mapped record is: one column per mapping entry, in the mapping's order.\<close>

definition mapped_row :: "(string \<times> string) list \<Rightarrow> json \<Rightarrow> row" where
  "mapped_row mapping record = map (\<lambda>(d, f). (d, fst (get_by_path record f))) mapping"

definition is_object :: "json \<Rightarrow> bool" where
  "is_object v = (case v of JObj kvs \<Rightarrow> True | _ \<Rightarrow> False)"

definition fields_present :: "(string \<times> string) list \<Rightarrow> json \<Rightarrow> bool" where
  "fields_present mapping record = list_all (\<lambda>(d, f). snd (get_by_path record f)) mapping"

lemma get_by_path_missing: "get_by_path obj path = (v, False) \<Longrightarrow> v = JNull"
  by (simp add: get_by_path_def walk_path_missing)

lemma update_new_key: "k \<notin> fst ` set m \<Longrightarrow> AList.update k v m = m @ [(k, v)]"
  by (induction m) auto

lemma map_columns_ok:
  assumes "distinct (map fst mapping)" "fst ` set acc \<inter> fst ` set mapping = {}"
    and "strict \<Longrightarrow> fields_present mapping record"
  shows "map_columns record strict mapping acc = Inr (acc @ mapped_row mapping record)"
  using assms
proof (induction mapping arbitrary: acc)
  case (Cons df rest)
  obtain d f where df: "df = (d, f)" by fastforce
  obtain v found where vf: "get_by_path record f = (v, found)" by fastforce
  have new: "d \<notin> fst ` set acc" using Cons.prems(2) df by auto
  have "(if found then v else JNull) = v"
    using vf get_by_path_missing by (cases found) auto
  moreover have "fst ` set (acc @ [(d, v)]) \<inter> fst ` set rest = {}"
    using Cons.prems(1,2) df by auto
  ultimately show ?case
    using Cons.IH [of "acc @ [(d, v)]"] Cons.prems df vf new
    by (auto simp: update_new_key mapped_row_def fields_present_def)
qed (simp add: mapped_row_def)

lemma map_columns_strict_missing:
  "\<not> fields_present mapping record \<Longrightarrow>
   \<exists>msg. map_columns record True mapping acc = Inl (mapping_error msg)"
  by (induction mapping arbitrary: acc) (auto simp: fields_present_def split: prod.splits)

lemma map_record_ok:
  "is_object record \<Longrightarrow> distinct (map fst mapping) \<Longrightarrow> (strict \<Longrightarrow> fields_present mapping record) \<Longrightarrow>
   map_record strict mapping record = Inr (mapped_row mapping record)"
  by (auto simp: map_record_def is_object_def map_columns_ok split: json.splits)

lemma map_record_error:
  "\<not> is_object record \<or> (strict \<and> \<not> fields_present mapping record) \<Longrightarrow>
   \<exists>msg. map_record strict mapping record = Inl (mapping_error msg)"
  using map_columns_strict_missing
  by (cases strict) (auto simp: map_record_def is_object_def split: json.splits)

definition mappable :: "bool \<Rightarrow> (string \<times> string) list \<Rightarrow> json \<Rightarrow> bool" where
  "mappable strict mapping record = (is_object record \<and> (strict \<longrightarrow> fields_present mapping record))"

lemma map_records_ok:
  "distinct (map fst mapping) \<Longrightarrow> list_all (mappable strict mapping) records \<Longrightarrow>
   map_records strict mapping records = Inr (map (mapped_row mapping) records)"
  unfolding map_records_def
  by (rule emap_total, rule map_record_ok) (auto simp: mappable_def list_all_iff)

lemma map_records_error:
  assumes "distinct (map fst mapping)" "\<not> list_all (mappable strict mapping) records"
  shows "\<exists>msg. map_records strict mapping records = Inl (mapping_error msg)"
  using assms(2)
proof (induction records)
  case (Cons r rs)
  show ?case
  proof (cases "mappable strict mapping r")
    case True
    then have "map_record strict mapping r = Inr (mapped_row mapping r)"
      using assms(1) by (auto simp: mappable_def intro: map_record_ok)
    with True Cons show ?thesis by (auto simp: map_records_def)
  next
    case False
    then have "\<exists>msg. map_record strict mapping r = Inl (mapping_error msg)"
      by (intro map_record_error) (auto simp: mappable_def)
    then show ?thesis by (auto simp: map_records_def)
  qed
qed simp

lemma map_records_length: "map_records strict mapping records = Inr rows \<Longrightarrow> length rows = length records"
  by (auto simp: map_records_def dest: emap_length)

text \<open>C39: The mapper is exact. For a mapping with distinct destination columns, mapping a page
  of records succeeds exactly when every record is a JSON object (and, in strict mode, has every
  source field), and then yields one row per record with one column per mapping entry, in order,
  an explicit null and a missing field both as null; otherwise it raises a \<^verbatim>\<open>MappingError\<close>
  and maps nothing.\<close>

theorem map_records_exact:
  assumes "distinct (map fst mapping)"
  shows "if list_all (mappable strict mapping) records
         then map_records strict mapping records = Inr (map (mapped_row mapping) records)
         else \<exists>msg. map_records strict mapping records = Inl (mapping_error msg)"
  using map_records_ok [OF assms] map_records_error [OF assms] by simp

theorem map_records_exact_witness:
  "map_records True [(''id'', ''a.b''), (''n'', ''m'')]
     [JObj [(''m'', JNull), (''a'', JObj [(''b'', JInt 7)])]] =
   Inr [[(''id'', JInt 7), (''n'', JNull)]]"
proof -
  have d: "distinct (map fst [(''id'', ''a.b''), (''n'', ''m'')])" by simp
  let ?r = "JObj [(''m'', JNull), (''a'', JObj [(''b'', JInt 7)])]"
  have ok: "list_all (mappable True [(''id'', ''a.b''), (''n'', ''m'')]) [?r]"
    by code_simp
  have "map (mapped_row [(''id'', ''a.b''), (''n'', ''m'')]) [?r] = [[(''id'', JInt 7), (''n'', JNull)]]"
    by code_simp
  with map_records_exact [OF d, of True "[?r]"] ok show ?thesis by simp
qed

end
