(* ===== verification/TokenSupport.thy ===== *)
theory TokenSupport
  imports Outbound Mapping_Paths
begin

text \<open>
  \<^verbatim>\<open>apps/authproviders/token_support.py\<close>: validation of the credential fields of the
  token-acquiring providers, placeholder substitution, extraction of a token and of its expiry
  from a response, and the token cache. A credential is the decrypted JSON object as an
  association list.
\<close>

type_synonym credential = "(string \<times> json) list"

definition EXPIRY_SAFETY_MARGIN_SECONDS :: rat where
  "EXPIRY_SAFETY_MARGIN_SECONDS = 30"

definition TOKEN_TIMEOUT_SECONDS :: json where
  "TOKEN_TIMEOUT_SECONDS = JInt 30"

definition MAX_MULTI_STEPS :: nat where
  "MAX_MULTI_STEPS = 5"

text \<open>\<^verbatim>\<open>str(value)\<close>; the texts of floats, lists and dictionaries are the library's.\<close>

fun str_of_json :: "'n http_lib \<Rightarrow> json \<Rightarrow> string" where
  "str_of_json lib (JStr s) = s"
| "str_of_json lib (JInt i) = str_of_int i"
| "str_of_json lib (JBool b) = (if b then ''True'' else ''False'')"
| "str_of_json lib JNull = ''None''"
| "str_of_json lib v = hl_str lib v"

subsection \<open>The cached token\<close>

record cached_token =
  token_value :: string
  expires_at :: "rat option"

definition is_expired :: "rat \<Rightarrow> cached_token option \<Rightarrow> bool" where
  "is_expired now token =
     (case token of
        None \<Rightarrow> True
      | Some t \<Rightarrow> (case expires_at t of None \<Rightarrow> False | Some deadline \<Rightarrow> deadline \<le> now))"

subsection \<open>Validation\<close>

definition validate_url :: "json \<Rightarrow> string \<Rightarrow> exn + string" where
  "validate_url value label =
     (case value of
        JStr s \<Rightarrow>
          if starts_with s ''http://'' \<or> starts_with s ''https://'' then Inr s
          else Inl (configuration_error (label @ '' must be an absolute http:// or https:// URL''))
      | _ \<Rightarrow> Inl (configuration_error (label @ '' must be an absolute http:// or https:// URL'')))"

text \<open>Only the texts GET and POST, in any case, name an allowed method; a value of another type
  prints as something else.\<close>

definition validate_method :: "'n http_lib \<Rightarrow> json \<Rightarrow> string \<Rightarrow> exn + string" where
  "validate_method lib value label =
     (let m = (if truthy value then py_upper (str_of_json lib value) else ''POST'')
      in if m \<in> {''GET'', ''POST''} then Inr m
         else Inl (configuration_error (label @ '' must be one of ['' @ py_repr ''GET'' @ '', '' @
                py_repr ''POST'' @ ''], got '' @
                (case value of JStr s \<Rightarrow> py_repr s | _ \<Rightarrow> str_of_json lib value))))"

definition validate_header_name :: "json \<Rightarrow> string \<Rightarrow> exn + string" where
  "validate_header_name value label =
     (case value of
        JStr s \<Rightarrow>
          if py_strip s = [] \<or> CHR 0x0D \<in> set s \<or> CHR 0x0A \<in> set s
          then Inl (configuration_error (label @ '' must be a non-empty header name''))
          else Inr s
      | _ \<Rightarrow> Inl (configuration_error (label @ '' must be a non-empty header name'')))"

definition validate_field_path :: "json \<Rightarrow> string \<Rightarrow> exn + string" where
  "validate_field_path value label =
     (case value of
        JStr s \<Rightarrow> if py_strip s = [] then Inl (configuration_error (label @ '' must be a non-empty field path''))
                  else Inr s
      | _ \<Rightarrow> Inl (configuration_error (label @ '' must be a non-empty field path'')))"

text \<open>A number proper: \<^verbatim>\<open>isinstance(v, int | float)\<close> and not a \<^verbatim>\<open>bool\<close>.\<close>

fun strict_num :: "json \<Rightarrow> rat option" where
  "strict_num (JInt i) = Some (of_int i)"
| "strict_num (JFloat r) = Some r"
| "strict_num _ = None"

definition validate_timeout :: "policy_env \<Rightarrow> 'n http_lib \<Rightarrow> json \<Rightarrow> string \<Rightarrow> exn + rat" where
  "validate_timeout env lib value label =
     (let max_timeout = or_default DEFAULT_MAX_TIMEOUT_SECONDS (max_timeout_setting env)
      in case strict_num value of
           None \<Rightarrow> Inl (configuration_error (label @ '' must be a positive number''))
         | Some r \<Rightarrow>
             if r \<le> 0 then Inl (configuration_error (label @ '' must be a positive number''))
             else if r > max_timeout
             then Inl (configuration_error (label @ '' must not exceed '' @
                    hl_str lib (JFloat max_timeout) @ '' seconds''))
             else Inr r)"

definition validate_extract_config :: "json \<Rightarrow> string \<Rightarrow> exn + (string \<times> json) list" where
  "validate_extract_config extract label =
     (case extract of
        JObj kvs \<Rightarrow>
          (let source = get_or JNull kvs ''from'' in
           if source = JStr ''json''
           then ebind (validate_field_path (get_or JNull kvs ''field'') (label @ ''.field'')) (\<lambda>_. Inr kvs)
           else if source = JStr ''header''
           then ebind (validate_header_name (get_or JNull kvs ''header'') (label @ ''.header'')) (\<lambda>_. Inr kvs)
           else Inl (configuration_error (label @ ''.from must be '' @ py_repr ''json'' @
             '' or '' @ py_repr ''header'')))
      | _ \<Rightarrow> Inl (configuration_error (label @ '' must be an object'')))"

subsection \<open>Placeholders\<close>

text \<open>A placeholder is two opening braces, optional white space, \<^verbatim>\<open>credential\<close> or
  \<^verbatim>\<open>steps\<close>, a dot, a path of letters, digits, dots and underscores, optional white space
  and two closing braces. What is returned is the namespace, the path and the text behind the
  placeholder. No character of the path can start the closing part, so the greedy path is the
  only one that can match.\<close>

definition path_char :: "char \<Rightarrow> bool" where
  "path_char c = (is_alpha c \<or> is_digit c \<or> c = CHR ''_'' \<or> c = CHR ''.'')"

definition placeholder_body :: "string \<Rightarrow> string \<Rightarrow> (string \<times> string \<times> string) option" where
  "placeholder_body ns s =
     (let path = takeWhile path_char s;
          rest = lstrip (dropWhile path_char s)
      in if path \<noteq> [] \<and> starts_with rest ''}}'' then Some (ns, path, drop 2 rest) else None)"

definition match_placeholder :: "string \<Rightarrow> (string \<times> string \<times> string) option" where
  "match_placeholder s =
     (if \<not> starts_with s ''{{'' then None
      else (let t = lstrip (drop 2 s)
            in if starts_with t ''credential.'' then placeholder_body ''credential'' (drop 11 t)
               else if starts_with t ''steps.'' then placeholder_body ''steps'' (drop 6 t)
               else None))"

text \<open>The substitution context: the credential and the values the earlier steps produced.\<close>

type_synonym subst_context = "string \<Rightarrow> json"

lemma length_lstrip: "length (lstrip s) \<le> length s"
  by (simp add: lstrip_def length_dropWhile_le)

lemma match_placeholder_shorter:
  "match_placeholder s = Some (ns, path, rest) \<Longrightarrow> length rest < length s"
proof -
  assume m: "match_placeholder s = Some (ns, path, rest)"
  have body: "length r \<le> length t" if "placeholder_body n t = Some (n', p, r)" for n t n' p r
  proof -
    have "length r \<le> length (lstrip (dropWhile path_char t))"
      using that by (auto simp: placeholder_body_def Let_def split: if_splits)
    also have "\<dots> \<le> length t"
      by (meson length_lstrip length_dropWhile_le order_trans)
    finally show ?thesis .
  qed
  have s: "starts_with s ''{{''" using m by (auto simp: match_placeholder_def split: if_splits)
  then have "2 \<le> length s" by (auto simp: starts_with_def dest!: arg_cong [where f = length])
  moreover have "length rest \<le> length (lstrip (drop 2 s))"
    using m body by (fastforce simp: match_placeholder_def Let_def split: if_splits)
  ultimately show ?thesis using length_lstrip [of "drop 2 s"] by simp
qed

function substitute_text :: "'n http_lib \<Rightarrow> subst_context \<Rightarrow> string \<Rightarrow> exn + string" where
  "substitute_text lib ctx [] = Inr []"
| "substitute_text lib ctx (c # cs) =
     (case match_placeholder (c # cs) of
        None \<Rightarrow> ebind (substitute_text lib ctx cs) (\<lambda>t. Inr (c # t))
      | Some (ns, path, rest) \<Rightarrow>
          (case get_by_path (ctx ns) path of (resolved, found) \<Rightarrow>
             if \<not> found
             then Inl (configuration_error (''unresolved placeholder {{'' @ ns @ ''.'' @ path @ ''}}''))
             else ebind (substitute_text lib ctx rest) (\<lambda>t. Inr (str_of_json lib resolved @ t))))"
  by pat_completeness auto
termination
  by (relation "measure (\<lambda>(lib, ctx, s). length s)") (auto dest: match_placeholder_shorter)

fun substitute_placeholders :: "'n http_lib \<Rightarrow> subst_context \<Rightarrow> json \<Rightarrow> exn + json" where
  "substitute_placeholders lib ctx (JStr s) = ebind (substitute_text lib ctx s) (\<lambda>t. Inr (JStr t))"
| "substitute_placeholders lib ctx (JObj kvs) =
     ebind (emap (\<lambda>kv. ebind (substitute_placeholders lib ctx (snd kv)) (\<lambda>v. Inr (fst kv, v))) kvs)
       (\<lambda>kvs'. Inr (JObj kvs'))"
| "substitute_placeholders lib ctx (JList xs) =
     ebind (emap (substitute_placeholders lib ctx) xs) (\<lambda>xs'. Inr (JList xs'))"
| "substitute_placeholders lib ctx v = Inr v"

subsection \<open>Extraction\<close>

definition extract_value :: "'n http_lib \<Rightarrow> http_response \<Rightarrow> bytes \<Rightarrow> (string \<times> json) list \<Rightarrow> exn + string" where
  "extract_value lib response body extract =
     (if get_or JNull extract ''from'' = JStr ''header''
      then (case get_or JNull extract ''header'' of
              JStr name \<Rightarrow>
                (case header_get (resp_headers response) name of
                   None \<Rightarrow> Inl (authentication_error (''authentication response missing header '' @ py_repr name))
                 | Some value \<Rightarrow> Inr value)
            | _ \<Rightarrow> Inl (PyExn AttributeError ''header name is not text''))
      else (case hl_json_loads lib body of
              None \<Rightarrow> Inl (authentication_error ''authentication response was not valid JSON'')
            | Some data \<Rightarrow>
                (case get_or JNull extract ''field'' of
                   JStr field \<Rightarrow>
                     (case get_by_path data field of (value, found) \<Rightarrow>
                        if \<not> found
                        then Inl (authentication_error (''authentication response missing field '' @ py_repr field))
                        else Inr (str_of_json lib value))
                 | _ \<Rightarrow> Inl (PyExn AttributeError ''field path is not text''))))"

fun seconds_of :: "'n http_lib \<Rightarrow> json \<Rightarrow> rat option" where
  "seconds_of lib (JStr t) = hl_float lib t"
| "seconds_of lib v = json_num v"

definition extract_expires_at :: "'n http_lib \<Rightarrow> 'n \<Rightarrow> bytes \<Rightarrow> json \<Rightarrow> exn + rat option" where
  "extract_expires_at lib net body expires_in_field =
     (if \<not> truthy expires_in_field then Inr None
      else (case hl_json_loads lib body of
              None \<Rightarrow> Inr None
            | Some data \<Rightarrow>
                (case expires_in_field of
                   JStr path \<Rightarrow>
                     (case get_by_path data path of (value, found) \<Rightarrow>
                        if \<not> found then Inr None
                        else (case seconds_of lib value of
                                None \<Rightarrow> Inr None
                              | Some seconds \<Rightarrow>
                                  Inr (Some (hl_monotonic lib net + max (seconds - EXPIRY_SAFETY_MARGIN_SECONDS) 0))))
                 | _ \<Rightarrow> Inl (PyExn AttributeError ''field path is not text''))))"

subsection \<open>Laws of substitution\<close>

text \<open>Text without an opening brace pair is not touched, whatever the context.\<close>

fun no_placeholder :: "string \<Rightarrow> bool" where
  "no_placeholder [] = True"
| "no_placeholder (c # cs) = (match_placeholder (c # cs) = None \<and> no_placeholder cs)"

lemma substitute_text_plain: "no_placeholder s \<Longrightarrow> substitute_text lib ctx s = Inr s"
  by (induction s) auto

lemma substitute_text_error:
  "substitute_text lib ctx s = Inl e \<Longrightarrow> raised_class e = Some ConfigurationError"
  by (induction lib ctx s rule: substitute_text.induct)
    (auto simp: result_simps split: option.splits prod.splits if_splits)

lemma substitute_error:
  "substitute_placeholders lib ctx v = Inl e \<Longrightarrow> raised_class e = Some ConfigurationError"
proof (induction lib ctx v arbitrary: e rule: substitute_placeholders.induct)
  case (1 lib ctx s)
  then show ?case by (auto simp: result_simps dest: substitute_text_error)
next
  case (2 lib ctx kvs)
  then show ?case by (auto simp: result_simps dest!: emap_error)
next
  case (3 lib ctx xs)
  then show ?case by (auto simp: result_simps dest!: emap_error)
qed auto

text \<open>The shape of a document is kept: only its texts change.\<close>

fun same_shape :: "json \<Rightarrow> json \<Rightarrow> bool" where
  "same_shape (JStr s) v = (\<exists>t. v = JStr t)"
| "same_shape (JObj kvs) v =
     (case v of JObj kvs' \<Rightarrow> list_all2 (\<lambda>a b. fst a = fst b \<and> same_shape (snd a) (snd b)) kvs kvs'
      | _ \<Rightarrow> False)"
| "same_shape (JList xs) v =
     (case v of JList ys \<Rightarrow> list_all2 same_shape xs ys | _ \<Rightarrow> False)"
| "same_shape u v = (v = u)"

lemma emap_list_all2: "emap f xs = Inr ys \<Longrightarrow> list_all2 (\<lambda>x y. f x = Inr y) xs ys"
  by (simp add: emap_Inr_iff list_all2_conv_all_nth)

lemma substitute_shape: "substitute_placeholders lib ctx v = Inr v' \<Longrightarrow> same_shape v v'"
proof (induction lib ctx v arbitrary: v' rule: substitute_placeholders.induct)
  case (2 lib ctx kvs)
  then obtain kvs' where v': "v' = JObj kvs'"
    and e: "list_all2 (\<lambda>kv kv'. ebind (substitute_placeholders lib ctx (snd kv)) (\<lambda>v. Inr (fst kv, v)) = Inr kv') kvs kvs'"
    by (auto simp: result_simps dest!: emap_list_all2)
  have "list_all2 (\<lambda>a b. fst a = fst b \<and> same_shape (snd a) (snd b)) kvs kvs'"
    using e by (rule list.rel_mono_strong) (use "2.IH" in \<open>force simp: result_simps\<close>)
  with v' show ?case by simp
next
  case (3 lib ctx xs)
  then obtain ys where v': "v' = JList ys"
    and e: "list_all2 (\<lambda>x y. substitute_placeholders lib ctx x = Inr y) xs ys"
    by (auto simp: result_simps dest!: emap_list_all2)
  have "list_all2 same_shape xs ys"
    using e by (rule list.rel_mono_strong) (auto simp: 3)
  with v' show ?case by simp
qed (auto simp: result_simps)

end
