(* ===== verification/AuthProviders.thy ===== *)
theory AuthProviders
  imports TokenSupport
begin

text \<open>
  \<^verbatim>\<open>apps/authproviders\<close>: the registry of authentication providers and the five built-in
  ones. A provider instance is a value of \<open>auth_provider\<close>; the two token providers carry their
  cache. The interface that a source connector relies on is the locale \<open>auth_interface\<close>,
  interpreted here on the model's own operations.
\<close>

subsection \<open>Base64\<close>

definition utf8_char :: "char \<Rightarrow> bytes" where
  "utf8_char c = (let n = (of_char c :: nat) in
     if n < 128 then [c] else [char_of (192 + n div 64), char_of (128 + n mod 64)])"

definition utf8 :: "string \<Rightarrow> bytes" where
  "utf8 s = concat (map utf8_char s)"

definition b64_char :: "nat \<Rightarrow> char" where
  "b64_char n =
     (if n < 26 then char_of (65 + n)
      else if n < 52 then char_of (97 + (n - 26))
      else if n < 62 then char_of (48 + (n - 52))
      else if n = 62 then CHR ''+'' else CHR ''/'')"

fun b64encode :: "bytes \<Rightarrow> string" where
  "b64encode [] = []"
| "b64encode [a] =
     (let x = (of_char a :: nat)
      in [b64_char (x div 4), b64_char (x mod 4 * 16), CHR ''='', CHR ''=''])"
| "b64encode [a, b] =
     (let x = (of_char a :: nat); y = (of_char b :: nat)
      in [b64_char (x div 4), b64_char (x mod 4 * 16 + y div 16), b64_char (y mod 16 * 4), CHR ''=''])"
| "b64encode (a # b # c # rest) =
     (let x = (of_char a :: nat); y = (of_char b :: nat); z = (of_char c :: nat)
      in [b64_char (x div 4), b64_char (x mod 4 * 16 + y div 16),
          b64_char (y mod 16 * 4 + z div 64), b64_char (z mod 64)] @ b64encode rest)"

subsection \<open>Providers and the registry\<close>

datatype auth_provider =
    ApiKeyAuth
  | BasicAuth
  | BearerAuth
  | TokenEndpointAuth "cached_token option"
  | MultiStepAuth "cached_token option"

definition auth_registry :: "(string \<times> auth_provider) list" where
  "auth_registry =
     [(''api_key'', ApiKeyAuth), (''basic'', BasicAuth), (''bearer'', BearerAuth),
      (''multi_step_token'', MultiStepAuth None), (''token_endpoint'', TokenEndpointAuth None)]"

definition available_auth_provider_types :: "string list" where
  "available_auth_provider_types = map fst auth_registry"

text \<open>\<^verbatim>\<open>repr(value)\<close>: of a text it is quoted, of the other values it is their text.\<close>

fun repr_json :: "'n http_lib \<Rightarrow> json \<Rightarrow> string" where
  "repr_json lib (JStr s) = py_repr s"
| "repr_json lib v = str_of_json lib v"

text \<open>A fresh instance of the registered class. The key comes from a JSON document and so may be of any
  type: one that is not registered is a \<^verbatim>\<open>KeyError\<close>, whose text is the repr of its message, and one that
  cannot be hashed a \<^verbatim>\<open>TypeError\<close>.\<close>

definition no_auth_provider :: "string \<Rightarrow> exn" where
  "no_auth_provider key = PyExn KeyError (py_repr (''No AuthProvider registered for type_key='' @ key @
     ''. Known types: ['' @ join_with '', '' (map py_repr available_auth_provider_types) @ '']''))"

definition get_auth_provider :: "'n http_lib \<Rightarrow> json \<Rightarrow> exn + auth_provider" where
  "get_auth_provider lib type_key =
     (case type_key of
        JStr k \<Rightarrow> (case map_of auth_registry k of Some p \<Rightarrow> Inr p | None \<Rightarrow> Inl (no_auth_provider (py_repr k)))
      | JList xs \<Rightarrow> Inl (PyExn TypeError (''unhashable type: '' @ py_repr ''list''))
      | JObj kvs \<Rightarrow> Inl (PyExn TypeError (''unhashable type: '' @ py_repr ''dict''))
      | v \<Rightarrow> Inl (no_auth_provider (repr_json lib v)))"

definition field :: "credential \<Rightarrow> string \<Rightarrow> json" where
  "field kvs k = get_or JNull kvs k"

text \<open>\<^verbatim>\<open>headers[name] = value\<close>: both must be text.\<close>

definition put_header :: "http_request \<Rightarrow> json \<Rightarrow> json \<Rightarrow> exn + http_request" where
  "put_header request name value =
     (case (name, value) of
        (JStr n, JStr v) \<Rightarrow> Inr (request\<lparr>req_headers := header_set (req_headers request) n v\<rparr>)
      | _ \<Rightarrow> Inl (PyExn AttributeError ''header is not text''))"

subsection \<open>The static providers\<close>

definition api_key_prepare :: "http_request \<Rightarrow> credential \<Rightarrow> exn + http_request" where
  "api_key_prepare request credential =
     (if \<not> truthy (field credential ''api_key'')
      then Inl (authentication_error (''api_key credential requires an '' @ py_repr ''api_key'' @ '' value''))
      else put_header request (get_or (JStr ''X-API-Key'') credential ''header_name'')
             (field credential ''api_key''))"

definition basic_prepare :: "'n http_lib \<Rightarrow> http_request \<Rightarrow> credential \<Rightarrow> exn + http_request" where
  "basic_prepare lib request credential =
     (if \<not> truthy (field credential ''username'') \<or> \<not> truthy (field credential ''password'')
      then Inl (authentication_error (''basic credential requires '' @ py_repr ''username'' @ '' and '' @
             py_repr ''password''))
      else (let token = b64encode (utf8 (str_of_json lib (field credential ''username'') @ '':'' @
                          str_of_json lib (field credential ''password'')))
            in put_header request (JStr ''Authorization'') (JStr (''Basic '' @ token))))"

definition bearer_prepare :: "'n http_lib \<Rightarrow> http_request \<Rightarrow> credential \<Rightarrow> exn + http_request" where
  "bearer_prepare lib request credential =
     (if \<not> truthy (field credential ''token'')
      then Inl (authentication_error (''bearer credential requires a '' @ py_repr ''token'' @ '' value''))
      else put_header request (JStr ''Authorization'')
             (JStr (''Bearer '' @ str_of_json lib (field credential ''token''))))"

subsection \<open>The token endpoint\<close>

text \<open>\<^verbatim>\<open>httpx.HTTPError\<close> and its subclass for timeouts.\<close>

fun is_httpx_error :: "exn \<Rightarrow> bool" where
  "is_httpx_error (PyExn c msg) = (c = HttpxTimeout \<or> c = HttpxError)"
| "is_httpx_error (Domain e) = False"

text \<open>\<^verbatim>\<open>dict(value)\<close>: an object is copied, a list is read as a list of pairs.\<close>

fun py_pair :: "json \<Rightarrow> exn + string \<times> json" where
  "py_pair (JList [JStr k, v]) = Inr (k, v)"
| "py_pair (JStr [a, b]) = Inr ([a], JStr [b])"
| "py_pair v = Inl (PyExn ValueError ''dictionary update sequence element is not a pair'')"

fun py_dict :: "json \<Rightarrow> exn + (string \<times> json) list" where
  "py_dict (JObj kvs) = Inr kvs"
| "py_dict (JList xs) =
     ebind (emap py_pair xs) (\<lambda>kvs. Inr (fold (\<lambda>(k, v) acc. AList.update k v acc) kvs []))"
| "py_dict (JStr s) =
     (if s = [] then Inr [] else Inl (PyExn ValueError ''dictionary update sequence element is not a pair''))"
| "py_dict v = Inl (PyExn TypeError ''object is not iterable'')"

definition auth_timeout :: "rat \<Rightarrow> timeouts" where
  "auth_timeout read = default_timeout\<lparr>read_timeout := read\<rparr>"

definition token_endpoint_acquire ::
  "policy_env \<Rightarrow> 'n http_lib \<Rightarrow> credential \<Rightarrow> 'n \<Rightarrow> (exn + cached_token) \<times> 'n" where
  "token_endpoint_acquire env lib cred net =
     (case ebind (validate_url (field cred ''token_url'') ''credential.token_url'') (\<lambda>url.
           ebind (validate_method lib (get_or (JStr ''POST'') cred ''method'') ''credential.method'') (\<lambda>method.
           ebind (validate_timeout env lib (get_or TOKEN_TIMEOUT_SECONDS cred ''timeout_seconds'')
                    ''credential.timeout_seconds'') (\<lambda>read.
           ebind (validate_extract_config (field cred ''extract'') ''credential.extract'') (\<lambda>extract.
           ebind (py_dict (get_or (JObj []) cred ''request_headers'')) (\<lambda>headers.
             Inr (url, method, read, extract, headers)))))) of
        Inl e \<Rightarrow> (Inl e, net)
      | Inr (url, method, read, extract, headers) \<Rightarrow>
          let body = field cred ''request_body'';
              client = build_client [] (Some (auth_timeout read)) None None;
              sent = (case hl_build lib client method url None (JObj headers)
                             (if method = ''POST'' \<and> body \<noteq> JNull then Some body else None) of
                        Inl e \<Rightarrow> (Inl e, net)
                      | Inr request \<Rightarrow> guarded_send env lib client request None True net)
          in case sent of
               (Inl e, net') \<Rightarrow>
                 (Inl (if is_httpx_error e
                       then authentication_error (''token endpoint request failed: '' @ exn_text e)
                       else e), net')
             | (Inr (response, response_body), net') \<Rightarrow>
                 if resp_status response \<ge> 400
                 then (Inl (authentication_error
                        (''token endpoint returned HTTP '' @ str_of_int (resp_status response))), net')
                 else (ebind (extract_value lib response response_body extract) (\<lambda>value.
                       ebind (extract_expires_at lib net' response_body (field cred ''expires_in_field''))
                         (\<lambda>deadline. Inr \<lparr>token_value = value, expires_at = deadline\<rparr>)), net'))"

subsection \<open>Multi-step acquisition\<close>

definition step_label :: "nat \<Rightarrow> string \<Rightarrow> string" where
  "step_label i suffix = ''credential.steps['' @ str_of_nat i @ '']'' @ suffix"

definition validate_step :: "'n http_lib \<Rightarrow> nat \<Rightarrow> json \<Rightarrow> exn + unit" where
  "validate_step lib i step =
     (case step of
        JObj kvs \<Rightarrow>
          ebind (validate_url (field kvs ''url'') (step_label i ''.url'')) (\<lambda>_.
          ebind (validate_method lib (get_or (JStr ''POST'') kvs ''method'') (step_label i ''.method'')) (\<lambda>_.
          (case map_of kvs ''extract'' of
             None \<Rightarrow> Inr ()
           | Some ex \<Rightarrow>
               ebind (validate_extract_config ex (step_label i ''.extract'')) (\<lambda>ekvs.
                 if truthy (field ekvs ''as'') then Inr ()
                 else Inl (configuration_error (step_label i ''.extract.as is required''))))))
      | _ \<Rightarrow> Inl (configuration_error (step_label i '' must be an object'')))"

fun validate_each_step :: "'n http_lib \<Rightarrow> nat \<Rightarrow> json list \<Rightarrow> exn + unit" where
  "validate_each_step lib i [] = Inr ()"
| "validate_each_step lib i (step # steps) =
     ebind (validate_step lib i step) (\<lambda>_. validate_each_step lib (Suc i) steps)"

definition validate_steps :: "'n http_lib \<Rightarrow> credential \<Rightarrow> exn + json list" where
  "validate_steps lib cred =
     (case field cred ''steps'' of
        JList steps \<Rightarrow>
          if steps = [] then Inl (configuration_error ''credential.steps must be a non-empty list'')
          else if length steps > MAX_MULTI_STEPS
          then Inl (configuration_error (''credential.steps has '' @ str_of_nat (length steps) @
                 '' entries, exceeding the maximum of '' @ str_of_nat MAX_MULTI_STEPS))
          else ebind (validate_each_step lib 0 steps) (\<lambda>_.
                 if truthy (field cred ''final_token_from'') then Inr steps
                 else Inl (configuration_error ''credential.final_token_from is required''))
      | _ \<Rightarrow> Inl (configuration_error ''credential.steps must be a non-empty list''))"

text \<open>The key under which a dictionary stores a value: equal numbers are one key whatever their
  type, and a list or an object is not hashable.\<close>

fun dict_key :: "json \<Rightarrow> json option" where
  "dict_key (JBool b) = Some (JInt (if b then 1 else 0))"
| "dict_key (JFloat r) = Some (if r = of_int \<lfloor>r\<rfloor> then JInt \<lfloor>r\<rfloor> else JFloat r)"
| "dict_key (JList xs) = None"
| "dict_key (JObj kvs) = None"
| "dict_key v = Some v"

text \<open>The substitution context of one acquisition: the credential, and the values by name that
  earlier steps produced. A placeholder reaches only the names that are text.\<close>

type_synonym produced = "(json \<times> string) list"

definition text_names :: "produced \<Rightarrow> (string \<times> json) list" where
  "text_names ps =
     concat (map (\<lambda>(k, v). case k of JStr n \<Rightarrow> [(n, JStr v)] | _ \<Rightarrow> []) ps)"

definition step_context :: "credential \<Rightarrow> produced \<Rightarrow> string \<Rightarrow> json" where
  "step_context cred produced ns =
     (if ns = ''credential'' then JObj cred
      else if ns = ''steps'' then JObj (text_names produced)
      else JObj [])"

text \<open>The request of one step: the method is checked again, then URL, headers and body are
  substituted, in this order.\<close>

definition step_request ::
  "'n http_lib \<Rightarrow> http_client \<Rightarrow> credential \<Rightarrow> produced \<Rightarrow> nat \<Rightarrow> (string \<times> json) list \<Rightarrow>
   exn + string \<times> string \<times> json \<times> json option" where
  "step_request lib client cred produced i kvs =
     ebind (validate_method lib (get_or (JStr ''POST'') kvs ''method'') (step_label i ''.method'')) (\<lambda>method.
     ebind (substitute_placeholders lib (step_context cred produced) (field kvs ''url'')) (\<lambda>url.
     ebind (substitute_placeholders lib (step_context cred produced) (get_or (JObj []) kvs ''headers'')) (\<lambda>headers.
     ebind (if field kvs ''json_body'' = JNull then Inr JNull
            else substitute_placeholders lib (step_context cred produced) (field kvs ''json_body'')) (\<lambda>body.
       case url of
         JStr u \<Rightarrow> Inr (method, u, headers, if method = ''POST'' \<and> body \<noteq> JNull then Some body else None)
       | _ \<Rightarrow> Inl (PyExn TypeError ''URL is not text'')))))"

text \<open>What a step leaves in the context.\<close>

definition step_extract ::
  "'n http_lib \<Rightarrow> http_response \<Rightarrow> bytes \<Rightarrow> (string \<times> json) list \<Rightarrow> produced \<Rightarrow>
   exn + produced" where
  "step_extract lib response body kvs produced =
     (case map_of kvs ''extract'' of
        None \<Rightarrow> Inr produced
      | Some (JObj ekvs) \<Rightarrow>
          ebind (extract_value lib response body ekvs) (\<lambda>value.
            case dict_key (field ekvs ''as'') of
              Some name \<Rightarrow> Inr (AList.update name value produced)
            | None \<Rightarrow> Inl (PyExn TypeError ''unhashable type''))
      | Some _ \<Rightarrow> Inl (PyExn TypeError ''extract is not an object''))"

fun run_steps ::
  "policy_env \<Rightarrow> 'n http_lib \<Rightarrow> http_client \<Rightarrow> credential \<Rightarrow> nat \<Rightarrow> json list \<Rightarrow>
   produced \<Rightarrow> bytes option \<Rightarrow> 'n \<Rightarrow>
   (exn + produced \<times> bytes option) \<times> 'n" where
  "run_steps env lib client cred i [] produced final_body net = (Inr (produced, final_body), net)"
| "run_steps env lib client cred i (step # steps) produced final_body net =
     (case step of
        JObj kvs \<Rightarrow>
          (case step_request lib client cred produced i kvs of
             Inl e \<Rightarrow> (Inl e, net)
           | Inr (method, url, headers, body) \<Rightarrow>
               let sent = (case hl_build lib client method url None headers body of
                             Inl e \<Rightarrow> (Inl e, net)
                           | Inr request \<Rightarrow> guarded_send env lib client request None True net)
               in case sent of
                    (Inl e, net') \<Rightarrow>
                      (Inl (if is_httpx_error e
                            then authentication_error (''multi-step auth step '' @ str_of_nat i @
                                   '' request failed: '' @ exn_text e)
                            else e), net')
                  | (Inr (response, response_body), net') \<Rightarrow>
                      if resp_status response \<ge> 400
                      then (Inl (authentication_error (''multi-step auth step '' @ str_of_nat i @
                             '' returned HTTP '' @ str_of_int (resp_status response))), net')
                      else (case step_extract lib response response_body kvs produced of
                              Inl e \<Rightarrow> (Inl e, net')
                            | Inr produced' \<Rightarrow>
                                run_steps env lib client cred (Suc i) steps produced' (Some response_body) net'))
      | _ \<Rightarrow> (Inl (PyExn TypeError ''step is not an object''), net))"

definition multi_step_acquire ::
  "policy_env \<Rightarrow> 'n http_lib \<Rightarrow> credential \<Rightarrow> 'n \<Rightarrow> (exn + cached_token) \<times> 'n" where
  "multi_step_acquire env lib cred net =
     (case ebind (validate_steps lib cred) (\<lambda>steps.
           ebind (validate_timeout env lib (get_or TOKEN_TIMEOUT_SECONDS cred ''timeout_seconds'')
                    ''credential.timeout_seconds'') (\<lambda>read. Inr (steps, read))) of
        Inl e \<Rightarrow> (Inl e, net)
      | Inr (steps, read) \<Rightarrow>
          (case run_steps env lib (build_client [] (Some (auth_timeout read)) None None) cred 0 steps [] None net of
             (Inl e, net') \<Rightarrow> (Inl e, net')
           | (Inr (produced, final_body), net') \<Rightarrow>
               (case dict_key (field cred ''final_token_from'') of
                  None \<Rightarrow> (Inl (PyExn TypeError ''unhashable type''), net')
                | Some name \<Rightarrow>
                    (case map_of produced name of
                       None \<Rightarrow> (Inl (authentication_error (''multi-step auth: '' @
                                  repr_json lib (field cred ''final_token_from'') @
                                  '' was never produced by any step'')), net')
                     | Some value \<Rightarrow>
                         (ebind (case final_body of
                                   None \<Rightarrow> Inr None
                                 | Some body \<Rightarrow> extract_expires_at lib net' body (field cred ''expires_in_field''))
                            (\<lambda>deadline. Inr \<lparr>token_value = value, expires_at = deadline\<rparr>), net')))))"

subsection \<open>The provider interface\<close>

text \<open>\<^verbatim>\<open>TokenCachingAuthProvider.prepare_request\<close>: the cache, after the call, and the request.\<close>

definition token_prepare ::
  "'n http_lib \<Rightarrow> (credential \<Rightarrow> 'n \<Rightarrow> (exn + cached_token) \<times> 'n) \<Rightarrow> cached_token option \<Rightarrow>
   http_request \<Rightarrow> credential \<Rightarrow> 'n \<Rightarrow> (exn + http_request) \<times> cached_token option \<times> 'n" where
  "token_prepare lib acquire cache request cred net =
     (case (if is_expired (hl_monotonic lib net) cache then acquire cred net
            else (case cache of Some t \<Rightarrow> (Inr t, net) | None \<Rightarrow> acquire cred net)) of
        (Inl e, net') \<Rightarrow> (Inl e, cache, net')
      | (Inr token, net') \<Rightarrow>
          (ebind (validate_header_name (get_or (JStr ''Authorization'') cred ''inject_header'')
                    ''credential.inject_header'') (\<lambda>header.
             put_header request (JStr header)
               (JStr (str_of_json lib (get_or (JStr ''Bearer '') cred ''inject_prefix'') @ token_value token))),
           Some token, net'))"

fun prepare_request ::
  "policy_env \<Rightarrow> 'n http_lib \<Rightarrow> auth_provider \<Rightarrow> http_request \<Rightarrow> credential \<Rightarrow> 'n \<Rightarrow>
   (exn + http_request) \<times> auth_provider \<times> 'n" where
  "prepare_request env lib ApiKeyAuth request cred net = (api_key_prepare request cred, ApiKeyAuth, net)"
| "prepare_request env lib BasicAuth request cred net = (basic_prepare lib request cred, BasicAuth, net)"
| "prepare_request env lib BearerAuth request cred net = (bearer_prepare lib request cred, BearerAuth, net)"
| "prepare_request env lib (TokenEndpointAuth cache) request cred net =
     (case token_prepare lib (token_endpoint_acquire env lib) cache request cred net of
        (r, cache', net') \<Rightarrow> (r, TokenEndpointAuth cache', net'))"
| "prepare_request env lib (MultiStepAuth cache) request cred net =
     (case token_prepare lib (multi_step_acquire env lib) cache request cred net of
        (r, cache', net') \<Rightarrow> (r, MultiStepAuth cache', net'))"

fun invalidate :: "auth_provider \<Rightarrow> auth_provider" where
  "invalidate (TokenEndpointAuth cache) = TokenEndpointAuth None"
| "invalidate (MultiStepAuth cache) = MultiStepAuth None"
| "invalidate p = p"

subsection \<open>What authentication may change\<close>

text \<open>The request with one header put in.\<close>

definition with_header :: "string \<Rightarrow> string \<Rightarrow> http_request \<Rightarrow> http_request" where
  "with_header h v request = request\<lparr>req_headers := header_set (req_headers request) h v\<rparr>"

definition authenticates :: "http_request \<Rightarrow> http_request \<Rightarrow> bool" where
  "authenticates request request' = (\<exists>h v. request' = with_header h v request)"

lemma put_header_Inr [result_simps]:
  "put_header request n v = Inr request' \<longleftrightarrow>
     (\<exists>h t. n = JStr h \<and> v = JStr t \<and> request' = with_header h t request)"
  by (auto simp: put_header_def with_header_def split: json.splits)

lemma put_header_text [simp]: "put_header request (JStr h) (JStr v) = Inr (with_header h v request)"
  by (simp add: put_header_def with_header_def)

text \<open>Whether a provider can answer without the network: the static ones always can, the others
  when they hold a token that has not expired.\<close>

fun has_token :: "rat \<Rightarrow> auth_provider \<Rightarrow> bool" where
  "has_token now (TokenEndpointAuth cache) = (\<not> is_expired now cache)"
| "has_token now (MultiStepAuth cache) = (\<not> is_expired now cache)"
| "has_token now p = True"

lemma not_expired_Some: "\<not> is_expired now cache \<Longrightarrow> \<exists>t. cache = Some t"
  by (cases cache) (auto simp: is_expired_def)

lemma token_prepare_Inr:
  assumes "token_prepare lib acquire cache request cred net = (Inr request', cache', net')"
  shows "\<exists>t header. cache' = Some t \<and>
    (if is_expired (hl_monotonic lib net) cache then acquire cred net = (Inr t, net')
     else cache = Some t \<and> net' = net) \<and>
    validate_header_name (get_or (JStr ''Authorization'') cred ''inject_header'')
      ''credential.inject_header'' = Inr header \<and>
    request' = with_header header
      (str_of_json lib (get_or (JStr ''Bearer '') cred ''inject_prefix'') @ token_value t) request"
  using assms
  by (auto simp: token_prepare_def result_simps split: prod.splits sum.splits if_splits option.splits
      dest: not_expired_Some)

lemma token_prepare_cached:
  assumes "\<not> is_expired (hl_monotonic lib net) (Some t)"
    and "validate_header_name (get_or (JStr ''Authorization'') cred ''inject_header'')
      ''credential.inject_header'' = Inr header"
  shows "token_prepare lib acquire (Some t) request cred net =
    (Inr (with_header header
       (str_of_json lib (get_or (JStr ''Bearer '') cred ''inject_prefix'') @ token_value t) request), Some t, net)"
  using assms by (simp add: token_prepare_def)

lemma prepare_request_authenticates:
  "prepare_request env lib p request cred net = (Inr request', p', net') \<Longrightarrow> authenticates request request'"
  by (cases p)
    (auto simp: authenticates_def api_key_prepare_def basic_prepare_def bearer_prepare_def
      result_simps Let_def split: if_splits prod.splits dest!: token_prepare_Inr)

text \<open>What the client of a provider (a source connector) relies on. A provider is asked to
  authenticate a request in some state of the network; it may keep a token.\<close>

locale auth_interface =
  fixes prepare :: "'p \<Rightarrow> http_request \<Rightarrow> credential \<Rightarrow> 'n \<Rightarrow> (exn + http_request) \<times> 'p \<times> 'n"
    and inval :: "'p \<Rightarrow> 'p"
    and ready :: "'n \<Rightarrow> 'p \<Rightarrow> bool"
  assumes adds_one_header:
      "prepare p request cred net = (Inr request', p', net') \<Longrightarrow> authenticates request request'"
    and keeps_answer:
      "prepare p request cred net = (Inr request', p', net') \<Longrightarrow>
       \<exists>h v. request' = with_header h v request \<and>
         (\<forall>request2 net2. ready net2 p' \<longrightarrow>
            prepare p' request2 cred net2 = (Inr (with_header h v request2), p', net2))"
    and inval_idem: "inval (inval p) = inval p"
begin

lemma same_target:
  assumes "prepare p request cred net = (Inr request', p', net')"
  shows "req_method request' = req_method request \<and> req_url request' = req_url request \<and>
    req_content request' = req_content request"
  using adds_one_header [OF assms] by (auto simp: authenticates_def with_header_def)

lemma repeat_is_silent:
  assumes "prepare p request cred net = (Inr request', p', net')" and "ready net2 p'"
  shows "\<exists>request2'. prepare p' request2 cred net2 = (Inr request2', p', net2)"
  using keeps_answer [OF assms(1)] assms(2) by blast

end

lemma prepare_request_keeps_answer:
  assumes "prepare_request env lib p request cred net = (Inr request', p', net')"
  shows "\<exists>h v. request' = with_header h v request \<and>
    (\<forall>request2 net2. has_token (hl_monotonic lib net2) p' \<longrightarrow>
       prepare_request env lib p' request2 cred net2 = (Inr (with_header h v request2), p', net2))"
proof -
  have token: "\<exists>h v. request' = with_header h v request \<and>
      (\<forall>request2 net2. \<not> is_expired (hl_monotonic lib net2) cache' \<longrightarrow>
         token_prepare lib acquire cache' request2 cred net2 = (Inr (with_header h v request2), cache', net2))"
    if "token_prepare lib acquire cache request cred net = (Inr request', cache', net')"
    for acquire cache cache'
  proof -
    from token_prepare_Inr [OF that] obtain t header where c: "cache' = Some t"
      and h: "validate_header_name (get_or (JStr ''Authorization'') cred ''inject_header'')
        ''credential.inject_header'' = Inr header"
      and r: "request' = with_header header
        (str_of_json lib (get_or (JStr ''Bearer '') cred ''inject_prefix'') @ token_value t) request"
      by blast
    show ?thesis unfolding c
      by (intro exI conjI allI impI, rule r) (rule token_prepare_cached [OF _ h])
  qed
  show ?thesis
  proof (cases p)
    case (TokenEndpointAuth cache)
    with assms obtain cache' where
      "token_prepare lib (token_endpoint_acquire env lib) cache request cred net = (Inr request', cache', net')"
      and p': "p' = TokenEndpointAuth cache'" by (auto split: prod.splits)
    from token [OF this(1)] show ?thesis unfolding p' by fastforce
  next
    case (MultiStepAuth cache)
    with assms obtain cache' where
      "token_prepare lib (multi_step_acquire env lib) cache request cred net = (Inr request', cache', net')"
      and p': "p' = MultiStepAuth cache'" by (auto split: prod.splits)
    from token [OF this(1)] show ?thesis unfolding p' by fastforce
  qed (use assms in \<open>auto simp: api_key_prepare_def basic_prepare_def bearer_prepare_def result_simps
      Let_def split: if_splits\<close>)
qed

lemma invalidate_idem: "invalidate (invalidate p) = invalidate p"
  by (cases p) auto

interpretation auth: auth_interface "prepare_request env lib" invalidate
  "\<lambda>net p. has_token (hl_monotonic lib net) p" for env lib
  by unfold_locales (fact prepare_request_authenticates prepare_request_keeps_answer invalidate_idem)+

subsection \<open>Requests sent by one authentication\<close>

text \<open>A counter of the requests that left: a send adds at most one.\<close>

definition counts_sends :: "'n http_lib \<Rightarrow> ('n \<Rightarrow> nat) \<Rightarrow> bool" where
  "counts_sends lib sent = (\<forall>client request net. sent (snd (hl_send lib client request net)) \<le> Suc (sent net))"

lemma guarded_send_counted:
  "counts_sends lib sent \<Longrightarrow> guarded_send env lib client request mb rb net = (r, net') \<Longrightarrow>
   sent net' \<le> Suc (sent net)"
  using guarded_send_net [of env request lib client mb rb net]
  by (cases "validate_outbound_url env (req_url request)") (auto simp: counts_sends_def guarded_send_refused)

lemma token_endpoint_counted:
  assumes "counts_sends lib sent" "token_endpoint_acquire env lib cred net = (r, net')"
  shows "sent net' \<le> Suc (sent net)"
  using assms(2) guarded_send_counted [OF assms(1)]
  by (fastforce simp: token_endpoint_acquire_def Let_def split: sum.splits prod.splits if_splits)

lemma run_steps_counted:
  assumes "counts_sends lib sent"
  shows "run_steps env lib client cred i steps produced final_body net = (r, net') \<Longrightarrow>
    sent net' \<le> sent net + length steps"
proof (induction steps arbitrary: i produced final_body net)
  case (Cons step steps)
  note sent = guarded_send_counted [OF assms]
  show ?case
  proof (cases step)
    case (JObj kvs)
    show ?thesis
    proof (cases "step_request lib client cred produced i kvs")
      case (Inr q)
      obtain meth url headers body where q: "q = (meth, url, headers, body)" by (cases q) auto
      show ?thesis
      proof (cases "hl_build lib client meth url None headers body")
        case (Inr request)
        obtain sr net1 where g: "guarded_send env lib client request None True net = (sr, net1)" by fastforce
        from sent [OF g] have n1: "sent net1 \<le> Suc (sent net)" .
        from Cons.prems JObj \<open>step_request lib client cred produced i kvs = Inr q\<close> q Inr g
        have "net' = net1 \<or> (\<exists>prod fb. run_steps env lib client cred (Suc i) steps prod fb net1 = (r, net'))"
          by (auto simp: Let_def split: sum.splits prod.splits if_splits)
        with Cons.IH n1 show ?thesis by fastforce
      qed (use Cons.prems JObj Inr q in auto)
    qed (use Cons.prems JObj in auto)
  qed (use Cons.prems in auto)
qed simp

lemma validate_steps_Inr:
  "validate_steps lib cred = Inr steps \<Longrightarrow> steps \<noteq> [] \<and> length steps \<le> MAX_MULTI_STEPS"
  by (auto simp: validate_steps_def result_simps Let_def split: json.splits if_splits)

lemma multi_step_counted:
  assumes c: "counts_sends lib sent" and m: "multi_step_acquire env lib cred net = (r, net')"
  shows "sent net' \<le> sent net + MAX_MULTI_STEPS"
proof (cases "validate_steps lib cred")
  case (Inr steps)
  show ?thesis
  proof (cases "validate_timeout env lib (get_or TOKEN_TIMEOUT_SECONDS cred ''timeout_seconds'')
                  ''credential.timeout_seconds''")
    case (Inr read)
    obtain rs net1 where rs: "run_steps env lib (build_client [] (Some (auth_timeout read)) None None)
        cred 0 steps [] None net = (rs, net1)" by fastforce
    have "net' = net1"
      using m \<open>validate_steps lib cred = Inr steps\<close> Inr rs
      by (auto simp: multi_step_acquire_def split: sum.splits option.splits prod.splits)
    with run_steps_counted [OF c rs] validate_steps_Inr [OF \<open>validate_steps lib cred = Inr steps\<close>]
    show ?thesis by simp
  qed (use m Inr in \<open>auto simp: multi_step_acquire_def\<close>)
qed (use m in \<open>auto simp: multi_step_acquire_def\<close>)

lemma token_prepare_net:
  "token_prepare lib acquire cache request cred net = (r, cache', net') \<Longrightarrow>
   net' = net \<or> (\<exists>t. acquire cred net = (t, net'))"
  by (auto simp: token_prepare_def split: prod.splits sum.splits if_splits option.splits)

lemma token_prepare_silent:
  "\<not> is_expired (hl_monotonic lib net) cache \<Longrightarrow>
   token_prepare lib acquire cache request cred net = (r, cache', net') \<Longrightarrow> net' = net"
  by (cases cache) (auto simp: token_prepare_def is_expired_def split: option.splits if_splits)

text \<open>Authenticating a request cannot redirect it or alter what it carries: method, URL, body
  and every header but the one the provider sets are those of the request the connector built,
  whatever the credential holds and whatever a token endpoint answers.\<close>

theorem auth_only_adds_header:
  assumes "prepare_request env lib p request cred net = (Inr request', p', net')"
  shows "req_method request' = req_method request \<and> req_url request' = req_url request \<and>
    req_content request' = req_content request \<and>
    (\<exists>name. \<forall>k. py_lower k \<noteq> py_lower name \<longrightarrow>
       header_get (req_headers request') k = header_get (req_headers request) k)"
proof -
  obtain h v where "request' = with_header h v request"
    using auth.adds_one_header [OF assms] by (auto simp: authenticates_def)
  then have "\<forall>k. py_lower k \<noteq> py_lower h \<longrightarrow>
      header_get (req_headers request') k = header_get (req_headers request) k"
    by (simp add: with_header_def header_get_set_other)
  with auth.same_target [OF assms] show ?thesis by blast
qed

theorem auth_only_adds_header_witness:
  "\<exists>request'. prepare_request (example_env (IPv4 (octets 93 184 216 34))) (const_lib example_response) BearerAuth
      example_request [(''token'', JStr ''t1'')] 0 = (Inr request', BearerAuth, 0) \<and>
    req_url request' = req_url example_request \<and>
    header_get (req_headers request') ''authorization'' = Some ''Bearer t1''"
proof -
  let ?r = "with_header ''Authorization'' ''Bearer t1'' example_request"
  have e: "prepare_request (example_env (IPv4 (octets 93 184 216 34))) (const_lib example_response) BearerAuth
      example_request [(''token'', JStr ''t1'')] 0 = (Inr ?r, BearerAuth, 0)"
    by (simp add: bearer_prepare_def field_def get_or_def)
  moreover have "header_get (req_headers ?r) ''authorization'' = Some ''Bearer t1''" by code_simp
  ultimately show ?thesis using auth_only_adds_header [OF e] by blast
qed

text \<open>The life of a token. A request that was authenticated leaves the provider ready to
  authenticate any further request the same way with no traffic at all, for as long as the
  token has not expired; after \<^verbatim>\<open>invalidate\<close> no token provider is ready, so the next
  request acquires a new token.\<close>

theorem auth_token_reused:
  assumes "prepare_request env lib p request cred net = (Inr request', p', net')"
  shows "(\<exists>h v. request' = with_header h v request \<and>
      (\<forall>request2 net2. has_token (hl_monotonic lib net2) p' \<longrightarrow>
         prepare_request env lib p' request2 cred net2 = (Inr (with_header h v request2), p', net2))) \<and>
    (\<forall>now. has_token now (invalidate p') \<longrightarrow> p' \<in> {ApiKeyAuth, BasicAuth, BearerAuth})"
  using auth.keeps_answer [OF assms] by (cases p') (auto simp: is_expired_def)

theorem auth_token_reused_witness:
  "has_token 9 (TokenEndpointAuth (Some \<lparr>token_value = ''t'', expires_at = Some 10\<rparr>)) \<and>
   \<not> has_token 10 (TokenEndpointAuth (Some \<lparr>token_value = ''t'', expires_at = Some 10\<rparr>)) \<and>
   (\<exists>request' p'. prepare_request (example_env (IPv4 (octets 93 184 216 34))) (const_lib example_response)
      (TokenEndpointAuth (Some \<lparr>token_value = ''t'', expires_at = Some 10\<rparr>)) example_request [] 0 =
        (Inr request', p', 0) \<and>
      (\<forall>request2 net2. \<exists>r2. prepare_request (example_env (IPv4 (octets 93 184 216 34)))
         (const_lib example_response) p' request2 [] net2 = (Inr r2, p', net2)))"
proof -
  let ?t = "\<lparr>token_value = ''t'', expires_at = Some 10\<rparr>"
  let ?env = "example_env (IPv4 (octets 93 184 216 34))"
  have e: "prepare_request ?env (const_lib example_response) (TokenEndpointAuth (Some ?t)) example_request [] 0 =
      (Inr (with_header ''Authorization'' ''Bearer t'' example_request), TokenEndpointAuth (Some ?t), 0)"
    by (simp add: token_prepare_def is_expired_def const_lib_def get_or_def validate_header_name_def
        py_strip_def lstrip_def is_space_def)
  have r: "has_token (hl_monotonic (const_lib example_response) net2) (TokenEndpointAuth (Some ?t))" for net2
    by (simp add: is_expired_def const_lib_def)
  show ?thesis using e auth_token_reused [OF e] r by (simp add: is_expired_def) blast
qed

lemma auth_requests_bound:
  assumes "counts_sends lib sent"
    and "prepare_request env lib p request cred net = (r, p', net')"
  shows "sent net' \<le> sent net + MAX_MULTI_STEPS"
proof (cases p)
  case (TokenEndpointAuth cache)
  then obtain cache' where t:
      "token_prepare lib (token_endpoint_acquire env lib) cache request cred net = (r, cache', net')"
    using assms(2) by (auto split: prod.splits)
  show ?thesis
    using token_prepare_net [OF t] token_endpoint_counted [OF assms(1)] by (fastforce simp: MAX_MULTI_STEPS_def)
next
  case (MultiStepAuth cache)
  then obtain cache' where t:
      "token_prepare lib (multi_step_acquire env lib) cache request cred net = (r, cache', net')"
    using assms(2) by (auto split: prod.splits)
  show ?thesis
    using token_prepare_net [OF t] multi_step_counted [OF assms(1)] by fastforce
qed (use assms in auto)

text \<open>Authentication is bounded. One call sends at most \<^verbatim>\<open>MAX_MULTI_STEPS\<close> requests, at most
  one for a token endpoint, and none for the static providers or while a token is good.\<close>

theorem auth_requests_bounded:
  assumes "counts_sends lib sent"
    and "prepare_request env lib p request cred net = (r, p', net')"
  shows "sent net' \<le> sent net +
    (if has_token (hl_monotonic lib net) p then 0
     else case p of TokenEndpointAuth cache \<Rightarrow> 1 | _ \<Rightarrow> MAX_MULTI_STEPS)"
proof (cases "has_token (hl_monotonic lib net) p")
  case True
  then have "net' = net" using assms(2)
    by (cases p) (auto split: prod.splits dest: token_prepare_silent)
  then show ?thesis by simp
next
  case False
  show ?thesis
  proof (cases p)
    case (TokenEndpointAuth cache)
    then obtain cache' where t:
        "token_prepare lib (token_endpoint_acquire env lib) cache request cred net = (r, cache', net')"
      using assms(2) by (auto split: prod.splits)
    show ?thesis
      using token_prepare_net [OF t] token_endpoint_counted [OF assms(1)] False TokenEndpointAuth by fastforce
  qed (use False auth_requests_bound [OF assms] in auto)
qed

theorem auth_requests_bounded_witness:
  "snd (snd (prepare_request (example_env (IPv4 (octets 93 184 216 34))) (const_lib example_response)
     (MultiStepAuth None) example_request [] 7)) \<le> 7 + MAX_MULTI_STEPS"
proof -
  have "counts_sends (const_lib example_response) (\<lambda>n. n)"
    by (simp add: counts_sends_def const_lib_def)
  from auth_requests_bounded [OF this, where p = "MultiStepAuth None" and net = 7
      and env = "example_env (IPv4 (octets 93 184 216 34))" and request = example_request and cred = "[]"]
  show ?thesis by (simp add: is_expired_def prod_eq_iff)
qed

end
