(* ===== verification/RestApi.thy ===== *)
theory RestApi
  imports AuthProviders
begin

text \<open>
  \<^verbatim>\<open>apps/connectors/sources/rest_api.py\<close> and the source half of \<^verbatim>\<open>apps/connectors/base.py\<close>: the REST
  source connector. Its configuration is a JSON object, its \<^verbatim>\<open>fetch\<close> generator a state machine:
  a state says where the generator is suspended, and \<open>fetch_next\<close> is one \<^verbatim>\<open>next()\<close>. The
  interface the orchestration relies on, a source of pages that ends, is the locale
  \<open>page_source\<close>.
\<close>

subsection \<open>Results of a source\<close>

record source_capabilities =
  supports_incremental :: bool
  supports_pagination :: bool

record fetch_result =
  fr_records :: "json list"
  fr_next_cursor :: "string option"
  fr_raw_payload :: bytes
  fr_content_type :: string
  fr_cursor_used :: "string option"
  fr_source_path :: "string option"
  fr_http_status :: "int option"

datatype fetch_event = Yielded fetch_result | Stopped | Raised exn

subsection \<open>Configuration\<close>

type_synonym config = "(string \<times> json) list"

definition rest_api_capabilities :: source_capabilities where
  "rest_api_capabilities = \<lparr>supports_incremental = False, supports_pagination = True\<rparr>"

definition REST_TIMEOUT_SECONDS :: json where
  "REST_TIMEOUT_SECONDS = JInt 30"

definition DEFAULT_MAX_PAGES :: json where
  "DEFAULT_MAX_PAGES = JInt 500"

text \<open>\<^verbatim>\<open>config.get("method", "GET").upper()\<close>\<close>

definition config_method :: "config \<Rightarrow> exn + string" where
  "config_method config =
     (case get_or (JStr ''GET'') config ''method'' of
        JStr m \<Rightarrow> Inr (py_upper m)
      | v \<Rightarrow> Inl (PyExn AttributeError (type_name v @ '' object has no attribute upper'')))"

text \<open>An \<^verbatim>\<open>int\<close> that is not a \<^verbatim>\<open>bool\<close> and is at least 1.\<close>

fun positive_int :: "json \<Rightarrow> bool" where
  "positive_int (JInt i) = (1 \<le> i)"
| "positive_int _ = False"

definition validate_config :: "config \<Rightarrow> exn + unit" where
  "validate_config config =
     (if \<not> truthy (field config ''base_url'')
      then Inl (configuration_error (''rest_api source requires '' @ py_repr ''base_url''))
      else if \<not> truthy (field config ''path'')
      then Inl (configuration_error (''rest_api source requires '' @ py_repr ''path''))
      else ebind (config_method config) (\<lambda>method.
        if method \<notin> {''GET'', ''POST''}
        then Inl (configuration_error (''rest_api source: unsupported method '' @ py_repr method @
               '' (allowed: ['' @ py_repr ''GET'' @ '', '' @ py_repr ''POST'' @ ''])''))
        else if \<not> positive_int (get_or DEFAULT_MAX_PAGES config ''max_pages'')
        then Inl (configuration_error (''rest_api source: '' @ py_repr ''max_pages'' @ '' must be a positive integer''))
        else if \<not> positive_int (get_or (JInt 1) config ''start_page'')
        then Inl (configuration_error (''rest_api source: '' @ py_repr ''start_page'' @ '' must be a positive integer''))
        else if (case strict_num (get_or REST_TIMEOUT_SECONDS config ''timeout_seconds'') of
                   None \<Rightarrow> True | Some t \<Rightarrow> t \<le> 0)
        then Inl (configuration_error (''rest_api source: '' @ py_repr ''timeout_seconds'' @ '' must be a positive number''))
        else if \<not> positive_int (get_or (JInt DEFAULT_MAX_RESPONSE_BYTES) config ''max_response_bytes'')
        then Inl (configuration_error (''rest_api source: '' @ py_repr ''max_response_bytes'' @ '' must be a positive integer''))
        else Inr ()))"

text \<open>\<^verbatim>\<open>_client\<close>: a base URL that is not text is refused by the library's constructor.\<close>

definition source_client :: "policy_env \<Rightarrow> config \<Rightarrow> exn + http_client" where
  "source_client env config =
     (let requested = json_num (get_or REST_TIMEOUT_SECONDS config ''timeout_seconds'');
          timeout = default_timeout\<lparr>read_timeout := resolve_timeout_seconds env requested\<rparr>
      in case field config ''base_url'' of
           JStr u \<Rightarrow> Inr (build_client u (Some timeout) None None)
         | _ \<Rightarrow> Inl (PyExn TypeError ''Invalid type for url''))"

definition source_max_response_bytes :: "policy_env \<Rightarrow> config \<Rightarrow> int" where
  "source_max_response_bytes env config =
     resolve_max_response_bytes env
       (case get_or (JInt DEFAULT_MAX_RESPONSE_BYTES) config ''max_response_bytes'' of
          JInt i \<Rightarrow> Some i | _ \<Rightarrow> None)"

definition resolve_auth_provider :: "'n http_lib \<Rightarrow> config \<Rightarrow> exn + auth_provider option" where
  "resolve_auth_provider lib config =
     (let k = field config ''auth_provider_type''
      in if truthy k then ebind (get_auth_provider lib k) (\<lambda>p. Inr (Some p)) else Inr None)"

definition records_path :: "config \<Rightarrow> json" where
  "records_path config =
     (let p = field config ''records_path''
      in if truthy p then p else get_or (JStr ''results'') config ''records_key'')"

subsection \<open>One request\<close>

definition page_params :: "'n http_lib \<Rightarrow> config \<Rightarrow> int \<Rightarrow> (string \<times> json) list \<Rightarrow> (string \<times> json) list" where
  "page_params lib config page params =
     (let params' = AList.update (str_of_json lib (get_or (JStr ''page'') config ''page_param'')) (JInt page) params
      in case map_of config ''page_size'' of
           None \<Rightarrow> params'
         | Some sz \<Rightarrow>
             AList.update (str_of_json lib (get_or (JStr ''page_size'') config ''page_size_param'')) sz params')"

definition build_page_request ::
  "policy_env \<Rightarrow> 'n http_lib \<Rightarrow> config \<Rightarrow> http_client \<Rightarrow> auth_provider option \<Rightarrow> credential \<Rightarrow> int \<Rightarrow> 'n \<Rightarrow>
   (exn + http_request) \<times> auth_provider option \<times> 'n" where
  "build_page_request env lib config client provider cred page net =
     (case ebind (py_dict (get_or (JObj []) config ''query_params'')) (\<lambda>params.
           ebind (py_dict (get_or (JObj []) config ''headers'')) (\<lambda>headers.
           ebind (config_method config) (\<lambda>method.
           case field config ''path'' of
             JStr path \<Rightarrow>
               hl_build lib client method path (Some (page_params lib config page params)) (JObj headers)
                 (if method = ''POST'' \<and> field config ''json_body'' \<noteq> JNull
                  then Some (field config ''json_body'') else None)
           | _ \<Rightarrow> Inl (PyExn TypeError ''Invalid type for url'')))) of
        Inl e \<Rightarrow> (Inl e, provider, net)
      | Inr request \<Rightarrow>
          (case provider of
             None \<Rightarrow> (Inr request, None, net)
           | Some p \<Rightarrow>
               (case prepare_request env lib p request cred net of
                  (r, p', net') \<Rightarrow> (r, Some p', net'))))"

definition send_page ::
  "policy_env \<Rightarrow> 'n http_lib \<Rightarrow> config \<Rightarrow> http_client \<Rightarrow> http_request \<Rightarrow> 'n \<Rightarrow>
   (exn + http_response \<times> bytes) \<times> 'n" where
  "send_page env lib config client request net =
     (case guarded_send env lib client request (Some (source_max_response_bytes env config)) True net of
        (Inl (PyExn HttpxTimeout msg), net') \<Rightarrow> (Inl (fetch_failed (''timeout calling source: '' @ msg) True), net')
      | (Inl (PyExn HttpxError msg), net') \<Rightarrow> (Inl (fetch_failed (''network error calling source: '' @ msg) True), net')
      | r \<Rightarrow> r)"

definition check_status :: "http_response \<times> bytes \<Rightarrow> exn + http_response \<times> bytes" where
  "check_status rb =
     (let status = resp_status (fst rb); msg = ''source returned HTTP '' @ str_of_int status
      in if status = 429 \<or> (500 \<le> status \<and> status < 600) then Inl (fetch_failed msg True)
         else if status \<ge> 400 then Inl (fetch_failed msg False)
         else Inr rb)"

definition build_and_send ::
  "policy_env \<Rightarrow> 'n http_lib \<Rightarrow> config \<Rightarrow> http_client \<Rightarrow> auth_provider option \<Rightarrow> credential \<Rightarrow> int \<Rightarrow> 'n \<Rightarrow>
   (exn + http_response \<times> bytes) \<times> auth_provider option \<times> 'n" where
  "build_and_send env lib config client provider cred page net =
     (case build_page_request env lib config client provider cred page net of
        (Inl e, provider', net') \<Rightarrow> (Inl e, provider', net')
      | (Inr request, provider', net') \<Rightarrow>
          (case send_page env lib config client request net' of (r, net'') \<Rightarrow> (r, provider', net'')))"

definition send_with_auth_retry ::
  "policy_env \<Rightarrow> 'n http_lib \<Rightarrow> config \<Rightarrow> http_client \<Rightarrow> auth_provider option \<Rightarrow> credential \<Rightarrow> int \<Rightarrow> 'n \<Rightarrow>
   (exn + http_response \<times> bytes) \<times> auth_provider option \<times> 'n" where
  "send_with_auth_retry env lib config client provider cred page net =
     (case build_and_send env lib config client provider cred page net of
        (Inl e, provider', net') \<Rightarrow> (Inl e, provider', net')
      | (Inr rb, provider', net') \<Rightarrow>
          if resp_status (fst rb) \<in> {401, 403} \<and> provider' \<noteq> None
          then (case build_and_send env lib config client (map_option invalidate provider') cred page net' of
                  (Inl e, provider'', net'') \<Rightarrow> (Inl e, provider'', net'')
                | (Inr rb', provider'', net'') \<Rightarrow> (check_status rb', provider'', net''))
          else (check_status rb, provider', net'))"

subsection \<open>Records of a response\<close>

definition parse_json :: "'n http_lib \<Rightarrow> bytes \<Rightarrow> exn + json" where
  "parse_json lib body =
     (case hl_json_loads lib body of
        None \<Rightarrow> Inl (malformed_response_error (''source returned invalid JSON: '' @ hl_json_error lib body))
      | Some data \<Rightarrow> Inr data)"

definition extract_records :: "json \<Rightarrow> json \<Rightarrow> exn + json list" where
  "extract_records data path =
     (case data of
        JList xs \<Rightarrow> Inr xs
      | JObj kvs \<Rightarrow>
          (case path of
             JStr p \<Rightarrow>
               (case get_by_path data p of (value, found) \<Rightarrow>
                  if \<not> found
                  then Inl (malformed_response_error
                         (''response is missing the expected records field '' @ py_repr p))
                  else (case value of
                          JList xs \<Rightarrow> Inr xs
                        | _ \<Rightarrow> Inl (malformed_response_error
                                 (''records field '' @ py_repr p @ '' did not contain a list''))))
           | _ \<Rightarrow> Inl (PyExn AttributeError (type_name path @ '' object has no attribute split'')))
      | v \<Rightarrow> Inl (malformed_response_error
               (''expected a JSON object or array in the response, got '' @ type_name v)))"

text \<open>\<^verbatim>\<open>page_size is not None and len(records) < page_size\<close>\<close>

definition is_last_page :: "config \<Rightarrow> nat \<Rightarrow> exn + bool" where
  "is_last_page config n =
     (case field config ''page_size'' of
        JNull \<Rightarrow> Inr False
      | v \<Rightarrow> (case json_num v of
                None \<Rightarrow> Inl (PyExn TypeError (''< not supported between int and '' @ type_name v))
              | Some sz \<Rightarrow> Inr (of_nat n < sz)))"

definition test_connection ::
  "policy_env \<Rightarrow> 'n http_lib \<Rightarrow> config \<Rightarrow> credential \<Rightarrow> 'n \<Rightarrow> (exn + unit) \<times> 'n" where
  "test_connection env lib config cred net =
     (case ebind (validate_config config) (\<lambda>_. resolve_auth_provider lib config) of
        Inl e \<Rightarrow> (Inl e, net)
      | Inr provider \<Rightarrow>
          (case (case source_client env config of
                   Inl e \<Rightarrow> (Inl e, net)
                 | Inr client \<Rightarrow>
                     (case get_or (JInt 1) config ''start_page'' of
                        JInt page \<Rightarrow>
                          (case send_with_auth_retry env lib config client provider cred page net of
                             (r, _, net') \<Rightarrow> (r, net'))
                      | _ \<Rightarrow> (Inl (PyExn TypeError ''start_page''), net))) of
             (Inl (Domain d), net') \<Rightarrow> (Inl (connection_test_failed (err_message d)), net')
           | (Inl e, net') \<Rightarrow> (Inl e, net')
           | (Inr _, net') \<Rightarrow> (Inr (), net')))"

subsection \<open>The fetch generator\<close>

text \<open>Where the generator is: not started; suspended at the \<^verbatim>\<open>yield\<close> of a page with records, with
  its local variables; suspended at the \<^verbatim>\<open>yield\<close> of the empty terminal page; exhausted.\<close>

datatype fetch_state =
    FetchStart "string option"
  | FetchAtPage http_client "auth_provider option" int nat bool "string option"
      \<comment> \<open>page, pages yielded before this one, last page?, next cursor\<close>
  | FetchAtEmpty
  | FetchDone

text \<open>One turn of the \<^verbatim>\<open>while True\<close> loop, up to its \<^verbatim>\<open>yield\<close>, its \<^verbatim>\<open>break\<close> or an exception.\<close>

definition fetch_page ::
  "policy_env \<Rightarrow> 'n http_lib \<Rightarrow> config \<Rightarrow> credential \<Rightarrow> http_client \<Rightarrow> auth_provider option \<Rightarrow> int \<Rightarrow> nat \<Rightarrow> 'n \<Rightarrow>
   fetch_event \<times> fetch_state \<times> 'n" where
  "fetch_page env lib config cred client provider page pages_yielded net =
     (case send_with_auth_retry env lib config client provider cred page net of
        (Inl e, provider', net') \<Rightarrow> (Raised e, FetchDone, net')
      | (Inr (response, body), provider', net') \<Rightarrow>
          (case ebind (parse_json lib body) (\<lambda>data.
                ebind (extract_records data (records_path config)) (\<lambda>records.
                ebind (if records = [] then Inr True else is_last_page config (length records)) (\<lambda>final.
                  Inr (records, final)))) of
             Inl e \<Rightarrow> (Raised e, FetchDone, net')
           | Inr (records, final) \<Rightarrow>
               let next_cursor = (if final then None else Some (str_of_int (page + 1)));
                   result = \<lparr>fr_records = records, fr_next_cursor = next_cursor, fr_raw_payload = body,
                     fr_content_type = or_default ''application/json'' (header_get (resp_headers response) ''content-type''),
                     fr_cursor_used = Some (str_of_int page),
                     fr_source_path = (case field config ''path'' of JStr p \<Rightarrow> Some p | _ \<Rightarrow> None),
                     fr_http_status = Some (resp_status response)\<rparr>
               in if records = []
                  then (if truthy (get_or (JBool False) config ''retain_empty_terminal_page'')
                        then (Yielded result, FetchAtEmpty, net')
                        else (Stopped, FetchDone, net'))
                  else (Yielded result, FetchAtPage client provider' page pages_yielded final next_cursor, net')))"

definition max_pages :: "config \<Rightarrow> nat" where
  "max_pages config = (case get_or DEFAULT_MAX_PAGES config ''max_pages'' of JInt i \<Rightarrow> nat i | _ \<Rightarrow> 0)"

definition start_page :: "config \<Rightarrow> string option \<Rightarrow> exn + int" where
  "start_page config cursor =
     (if nonempty_opt cursor
      then (case py_int (or_default [] cursor) of
              None \<Rightarrow> Inl (PyExn ValueError (''invalid literal for int() with base 10: '' @
                       py_repr (or_default [] cursor)))
            | Some page \<Rightarrow> Inr page)
      else (case get_or (JInt 1) config ''start_page'' of
              JInt page \<Rightarrow> Inr page
            | _ \<Rightarrow> Inl (PyExn TypeError ''start_page'')))"

fun fetch_next ::
  "policy_env \<Rightarrow> 'n http_lib \<Rightarrow> config \<Rightarrow> credential \<Rightarrow> fetch_state \<Rightarrow> 'n \<Rightarrow>
   fetch_event \<times> fetch_state \<times> 'n" where
  "fetch_next env lib config cred (FetchStart cursor) net =
     (case ebind (validate_config config) (\<lambda>_.
           ebind (start_page config cursor) (\<lambda>page.
           ebind (resolve_auth_provider lib config) (\<lambda>provider.
           ebind (source_client env config) (\<lambda>client. Inr (page, provider, client))))) of
        Inl e \<Rightarrow> (Raised e, FetchDone, net)
      | Inr (page, provider, client) \<Rightarrow> fetch_page env lib config cred client provider page 0 net)"
| "fetch_next env lib config cred (FetchAtPage client provider page yielded final next_cursor) net =
     (if final then (Stopped, FetchDone, net)
      else if yielded + 1 \<ge> max_pages config
      then (Raised (page_limit_exceeded_error
              (''rest_api source reached max_pages='' @ str_of_nat (max_pages config) @
               '' while more data may remain: last successfully processed page='' @ str_of_int page @
               '', next_cursor='' @ (case next_cursor of None \<Rightarrow> ''None'' | Some c \<Rightarrow> py_repr c))), FetchDone, net)
      else fetch_page env lib config cred client provider (page + 1) (yielded + 1) net)"
| "fetch_next env lib config cred FetchAtEmpty net = (Stopped, FetchDone, net)"
| "fetch_next env lib config cred FetchDone net = (Stopped, FetchDone, net)"

subsection \<open>Draining a source\<close>

text \<open>\<open>drain next fuel s net\<close> calls \<^verbatim>\<open>next()\<close> until the source ends: the pages, how it ended
  (\<open>None\<close>: normally) and the network after it; \<open>None\<close> when the fuel runs out first.\<close>

fun drain :: "('s \<Rightarrow> 'n \<Rightarrow> fetch_event \<times> 's \<times> 'n) \<Rightarrow> nat \<Rightarrow> 's \<Rightarrow> 'n \<Rightarrow>
  (fetch_result list \<times> exn option \<times> 'n) option" where
  "drain nxt 0 s net = None"
| "drain nxt (Suc fuel) s net =
     (case nxt s net of
        (Stopped, s', net') \<Rightarrow> Some ([], None, net')
      | (Raised e, s', net') \<Rightarrow> Some ([], Some e, net')
      | (Yielded r, s', net') \<Rightarrow>
          map_option (\<lambda>(rs, ending, net''). (r # rs, ending, net'')) (drain nxt fuel s' net'))"

text \<open>What a consumer of pages relies on: each page uses up some of a budget, and a source that has
  ended stays so.\<close>

locale page_source =
  fixes nxt :: "'s \<Rightarrow> 'n \<Rightarrow> fetch_event \<times> 's \<times> 'n"
    and budget :: "'s \<Rightarrow> nat"
  assumes page_uses_budget: "nxt s net = (Yielded r, s', net') \<Longrightarrow> budget s' < budget s"
    and ended_stays: "nxt s net = (ev, s', net') \<Longrightarrow> \<forall>r. ev \<noteq> Yielded r \<Longrightarrow> nxt s' m = (Stopped, s', m)"
begin

lemma drain_ends: "budget s < fuel \<Longrightarrow> \<exists>rs ending net'. drain nxt fuel s net = Some (rs, ending, net')"
proof (induction fuel arbitrary: s net)
  case (Suc fuel)
  obtain ev s' net' where n: "nxt s net = (ev, s', net')" by (cases "nxt s net")
  show ?case
  proof (cases ev)
    case (Yielded r)
    with n page_uses_budget Suc.prems have "budget s' < fuel" by fastforce
    with Suc.IH [of s' net'] n Yielded show ?thesis by auto
  qed (use n in auto)
qed simp

lemma drain_length: "drain nxt fuel s net = Some (rs, ending, net') \<Longrightarrow> length rs \<le> budget s"
proof (induction fuel arbitrary: s net rs)
  case (Suc fuel)
  obtain ev s1 net1 where n: "nxt s net = (ev, s1, net1)" by (cases "nxt s net")
  show ?case
  proof (cases ev)
    case (Yielded r)
    with n Suc.prems obtain rs' where d: "drain nxt fuel s1 net1 = Some (rs', ending, net')" and "rs = r # rs'"
      by auto
    with Suc.IH [OF d] page_uses_budget [of s net r s1 net1] n Yielded show ?thesis by simp
  qed (use n Suc.prems in auto)
qed simp

lemma drain_more_fuel:
  "drain nxt fuel s net = Some x \<Longrightarrow> fuel \<le> fuel' \<Longrightarrow> drain nxt fuel' s net = Some x"
proof (induction fuel arbitrary: s net x fuel')
  case (Suc fuel)
  then obtain k where k: "fuel' = Suc k" "fuel \<le> k" by (cases fuel') auto
  obtain ev s1 net1 where n: "nxt s net = (ev, s1, net1)" by (cases "nxt s net")
  show ?case
  proof (cases ev)
    case (Yielded r)
    with n Suc.prems obtain y where y: "drain nxt fuel s1 net1 = Some y" by auto
    from Suc.IH [OF this k(2)] Suc.prems(1) n Yielded k y show ?thesis by simp
  qed (use n Suc.prems k in auto)
qed simp

end

subsection \<open>Laws of the REST source\<close>

lemma fetch_page_event:
  assumes "fetch_page env lib config cred client provider page yielded net = (ev, s', net')"
  shows "(s' = FetchDone \<and> (ev = Stopped \<or> (\<exists>e. ev = Raised e))) \<or>
    (\<exists>r. ev = Yielded r \<and> s' = FetchAtEmpty \<and> fr_records r = [] \<and> fr_next_cursor r = None \<and>
       fr_cursor_used r = Some (str_of_int page)) \<or>
    (\<exists>r p' final. ev = Yielded r \<and> s' = FetchAtPage client p' page yielded final (fr_next_cursor r) \<and>
       fr_records r \<noteq> [] \<and> fr_cursor_used r = Some (str_of_int page) \<and>
       is_last_page config (length (fr_records r)) = Inr final \<and>
       fr_next_cursor r = (if final then None else Some (str_of_int (page + 1))))"
  using assms
  by (fastforce simp: fetch_page_def Let_def result_simps split: prod.splits sum.splits if_splits)

fun fetch_budget :: "config \<Rightarrow> fetch_state \<Rightarrow> nat" where
  "fetch_budget config (FetchStart cursor) = Suc (max_pages config)"
| "fetch_budget config (FetchAtPage client provider page yielded final next_cursor) = max_pages config - yielded"
| "fetch_budget config FetchAtEmpty = 0"
| "fetch_budget config FetchDone = 0"

lemma fetch_uses_budget:
  assumes "fetch_next env lib config cred s net = (Yielded r, s', net')"
  shows "fetch_budget config s' < fetch_budget config s"
proof (cases s)
  case (FetchStart cursor)
  with assms obtain page provider client where
    "fetch_page env lib config cred client provider page 0 net = (Yielded r, s', net')"
    by (auto split: sum.splits)
  from fetch_page_event [OF this] FetchStart show ?thesis by auto
next
  case (FetchAtPage client provider page yielded final next_cursor)
  with assms have *: "yielded + 1 < max_pages config"
    "fetch_page env lib config cred client provider (page + 1) (yielded + 1) net = (Yielded r, s', net')"
    by (auto split: if_splits)
  from fetch_page_event [OF *(2)] *(1) FetchAtPage show ?thesis by auto
qed (use assms in auto)

lemma fetch_ended:
  assumes "fetch_next env lib config cred s net = (ev, s', net')" "\<forall>r. ev \<noteq> Yielded r"
  shows "s' = FetchDone"
proof (cases s)
  case (FetchStart cursor)
  show ?thesis
  proof (cases "ebind (validate_config config) (\<lambda>_.
           ebind (start_page config cursor) (\<lambda>page.
           ebind (resolve_auth_provider lib config) (\<lambda>provider.
           ebind (source_client env config) (\<lambda>client. Inr (page, provider, client)))))")
    case (Inr x)
    obtain page provider client where "x = (page, provider, client)" by (cases x)
    with Inr FetchStart assms have "fetch_page env lib config cred client provider page 0 net = (ev, s', net')"
      by simp
    from fetch_page_event [OF this] assms(2) show ?thesis by auto
  qed (use FetchStart assms in auto)
next
  case (FetchAtPage client provider page yielded final next_cursor)
  with assms(1) have "s' = FetchDone \<or>
    fetch_page env lib config cred client provider (page + 1) (yielded + 1) net = (ev, s', net')"
    by (auto split: if_splits)
  with fetch_page_event [of env lib config cred client provider "page + 1" "yielded + 1" net ev s' net'] assms(2)
  show ?thesis by auto
qed (use assms in auto)

interpretation rest: page_source "fetch_next env lib config cred" "fetch_budget config"
  for env lib config cred
proof (unfold_locales, goal_cases)
  case 1
  then show ?case by (rule fetch_uses_budget)
next
  case 2
  then show ?case using fetch_ended by fastforce
qed

text \<open>What a drained fetch looks like. The pages are numbered consecutively, each but the last has
  records and names the next one; and the fetch ends normally only when the source said so: its
  last page was short (or the retained empty one), or it answered the next page with no records.\<close>

fun page_run :: "int \<Rightarrow> fetch_result list \<Rightarrow> bool" where
  "page_run k [] = True"
| "page_run k (r # rs) =
     (fr_cursor_used r = Some (str_of_int k) \<and>
      (rs \<noteq> [] \<longrightarrow> fr_records r \<noteq> [] \<and> fr_next_cursor r \<noteq> None) \<and>
      fr_next_cursor r \<in> {None, Some (str_of_int (k + 1))} \<and>
      page_run (k + 1) rs)"

definition terminal_page :: "config \<Rightarrow> fetch_result \<Rightarrow> bool" where
  "terminal_page config r =
     (fr_next_cursor r = None \<and>
      (fr_records r = [] \<or> is_last_page config (length (fr_records r)) = Inr True))"

definition answered_empty ::
  "policy_env \<Rightarrow> 'n http_lib \<Rightarrow> config \<Rightarrow> credential \<Rightarrow> int \<Rightarrow> 'n \<Rightarrow> bool" where
  "answered_empty env lib config cred page net' =
     (\<exists>client provider provider' net rb data.
        send_with_auth_retry env lib config client provider cred page net = (Inr rb, provider', net') \<and>
        parse_json lib (snd rb) = Inr data \<and> extract_records data (records_path config) = Inr [])"

definition limit_reported :: "exn option \<Rightarrow> bool" where
  "limit_reported ending = (\<exists>e. ending = Some e \<and> raised_class e = Some PageLimitExceededError)"

definition run_ok ::
  "policy_env \<Rightarrow> 'n http_lib \<Rightarrow> config \<Rightarrow> credential \<Rightarrow> int \<Rightarrow> nat \<Rightarrow> fetch_result list \<Rightarrow> exn option \<Rightarrow> 'n \<Rightarrow> bool" where
  "run_ok env lib config cred page yielded rs ending net' =
     (page_run page rs \<and>
      length (filter (\<lambda>r. fr_records r \<noteq> []) rs) + yielded \<le> max_pages config \<and>
      (rs \<noteq> [] \<and> fr_next_cursor (last rs) \<noteq> None \<and> length rs + yielded = max_pages config \<longrightarrow>
         limit_reported ending) \<and>
      (ending = None \<longrightarrow> (rs \<noteq> [] \<and> terminal_page config (last rs)) \<or>
         answered_empty env lib config cred (page + int (length rs)) net'))"

lemma fetch_page_stopped:
  "fetch_page env lib config cred client provider page yielded net = (Stopped, s', net') \<Longrightarrow>
   answered_empty env lib config cred page net'"
  by (fastforce simp: fetch_page_def answered_empty_def Let_def result_simps split: prod.splits sum.splits if_splits)

lemma run_ok_Nil:
  "yielded \<le> max_pages config \<Longrightarrow> (ending = None \<Longrightarrow> answered_empty env lib config cred page net') \<Longrightarrow>
   run_ok env lib config cred page yielded [] ending net'"
  by (simp add: run_ok_def)

lemma run_ok_Cons:
  assumes "run_ok env lib config cred (page + 1) (yielded + 1) rs ending net'"
    and "fr_cursor_used r = Some (str_of_int page)" "fr_records r \<noteq> []"
    and "fr_next_cursor r = Some (str_of_int (page + 1))"
    and "rs = [] \<Longrightarrow> yielded + 1 = max_pages config \<Longrightarrow> limit_reported ending"
  shows "run_ok env lib config cred page yielded (r # rs) ending net'"
  using assms by (auto simp: run_ok_def algebra_simps)

lemma run_ok_terminal:
  assumes "yielded < max_pages config" "fr_cursor_used r = Some (str_of_int page)"
    "terminal_page config r"
  shows "run_ok env lib config cred page yielded [r] None net'"
  using assms by (auto simp: run_ok_def terminal_page_def)

lemma drain_page:
  assumes "yielded < max_pages config"
    and "fetch_page env lib config cred client provider page yielded net = (Yielded r, s1, net1)"
    and "drain (fetch_next env lib config cred) fuel s1 net1 = Some (rs, ending, net')"
  shows "run_ok env lib config cred page yielded (r # rs) ending net'"
  using assms
proof (induction fuel arbitrary: page yielded net provider r s1 net1 rs)
  case (Suc fuel)
  let ?next = "fetch_next env lib config cred"
  from fetch_page_event [OF Suc.prems(2)] consider
      (empty) "s1 = FetchAtEmpty" "fr_records r = []" "fr_next_cursor r = None"
        "fr_cursor_used r = Some (str_of_int page)"
    | (page) p' final where "s1 = FetchAtPage client p' page yielded final (fr_next_cursor r)"
        "fr_records r \<noteq> []" "fr_cursor_used r = Some (str_of_int page)"
        "is_last_page config (length (fr_records r)) = Inr final"
        "fr_next_cursor r = (if final then None else Some (str_of_int (page + 1)))"
    by auto
  then show ?case
  proof cases
    case empty
    with Suc.prems have "rs = []" "ending = None" by auto
    with empty Suc.prems(1) show ?thesis by (auto intro: run_ok_terminal simp: terminal_page_def)
  next
    case page
    show ?thesis
    proof (cases final)
      case True
      with page Suc.prems have "rs = []" "ending = None" by auto
      with page True Suc.prems(1) show ?thesis by (auto intro: run_ok_terminal simp: terminal_page_def)
    next
      case False
      note nc = page(5) [unfolded if_not_P [OF False]]
      show ?thesis
      proof (cases "yielded + 1 < max_pages config")
        case more: True
        obtain ev s2 net2 where f: "fetch_page env lib config cred client p' (page + 1) (yielded + 1) net1 = (ev, s2, net2)"
          by (cases "fetch_page env lib config cred client p' (page + 1) (yielded + 1) net1")
        have n: "?next s1 net1 = (ev, s2, net2)" using page False more f by simp
        have "run_ok env lib config cred (page + 1) (yielded + 1) rs ending net'"
        proof (cases ev)
          case (Yielded r2)
          with n Suc.prems(3) obtain rs2 where d: "drain ?next fuel s2 net2 = Some (rs2, ending, net')"
            and rs: "rs = r2 # rs2" by auto
          show ?thesis unfolding rs
            by (rule Suc.IH [OF more _ d]) (use f Yielded in auto)
        next
          case Stopped
          with n Suc.prems(3) have "rs = []" "ending = None" "net' = net2" by auto
          with fetch_page_stopped f Stopped more show ?thesis by (auto intro!: run_ok_Nil)
        next
          case (Raised e)
          with n Suc.prems(3) have "rs = []" "ending = Some e" by auto
          with more show ?thesis by (auto intro!: run_ok_Nil)
        qed
        then show ?thesis by (rule run_ok_Cons) (use page nc more in auto)
      next
        case limit: False
        have lim: "yielded + 1 = max_pages config" using limit Suc.prems(1) by simp
        with Suc.prems(3) page False have "rs = []" "limit_reported ending"
          by (auto simp: limit_reported_def)
        then have "run_ok env lib config cred (page + 1) (yielded + 1) rs ending net'"
          using lim by (auto intro!: run_ok_Nil simp: limit_reported_def)
        then show ?thesis by (rule run_ok_Cons) (use page nc \<open>limit_reported ending\<close> in auto)
      qed
    qed
  qed
qed simp

lemma max_pages_default [simp]: "max_pages [] = 500"
  by (simp add: max_pages_def get_or_def DEFAULT_MAX_PAGES_def)

lemma validate_config_max_pages: "validate_config config = Inr () \<Longrightarrow> 0 < max_pages config"
proof -
  assume "validate_config config = Inr ()"
  then have "positive_int (get_or DEFAULT_MAX_PAGES config ''max_pages'')"
    by (auto simp: validate_config_def result_simps split: if_splits)
  then show ?thesis by (cases "get_or DEFAULT_MAX_PAGES config ''max_pages''") (auto simp: max_pages_def)
qed

lemma fetch_start_cases:
  assumes "fetch_next env lib config cred (FetchStart cursor) net = (ev, s', net')"
  obtains (bad) e where "ev = Raised e" "s' = FetchDone" "net' = net"
  | (page) page provider client where "validate_config config = Inr ()"
      "start_page config cursor = Inr page" "resolve_auth_provider lib config = Inr provider"
      "source_client env config = Inr client"
      "fetch_page env lib config cred client provider page 0 net = (ev, s', net')"
  using assms by (auto simp: result_simps split: sum.splits)

lemma drain_start:
  assumes "drain (fetch_next env lib config cred) fuel (FetchStart cursor) net = Some (rs, ending, net')"
    and start: "start_page config cursor = Inr start"
  shows "run_ok env lib config cred start 0 rs ending net'"
proof (cases fuel)
  case (Suc f)
  obtain ev s1 net1 where n: "fetch_next env lib config cred (FetchStart cursor) net = (ev, s1, net1)"
    by (cases "fetch_next env lib config cred (FetchStart cursor) net")
  note n' = n [unfolded fetch_next.simps]
  from n show ?thesis
  proof (cases rule: fetch_start_cases)
    case (bad e)
    with assms n Suc have "rs = []" "ending = Some e" by (simp_all del: fetch_next.simps)
    then show ?thesis by (simp add: run_ok_def)
  next
    case (page k provider client)
    then have k: "k = start" using start by simp
    show ?thesis
    proof (cases ev)
      case (Yielded r)
      with n assms(1) Suc obtain rs2 where
        d: "drain (fetch_next env lib config cred) f s1 net1 = Some (rs2, ending, net')" and rs: "rs = r # rs2"
        by (auto simp del: fetch_next.simps)
      show ?thesis unfolding rs k [symmetric]
        by (rule drain_page [OF validate_config_max_pages [OF page(1)] _ d]) (use page(5) Yielded in simp)
    next
      case Stopped
      with n assms(1) Suc have "rs = []" "ending = None" "net' = net1" by (auto simp del: fetch_next.simps)
      with fetch_page_stopped page(5) Stopped k show ?thesis by (auto intro!: run_ok_Nil)
    next
      case (Raised e)
      with n assms(1) Suc have "rs = []" "ending = Some e" by (auto simp del: fetch_next.simps)
      then show ?thesis by (simp add: run_ok_def)
    qed
  qed
qed (use assms in simp)

text \<open>A source that answers every request with two records, of which three would be a full page. The
  network state counts the requests.\<close>

definition records_lib :: "nat http_lib" where
  "records_lib =
     (const_lib example_response)\<lparr>hl_send := (\<lambda>client req n. (Inr example_response, n + 1)),
       hl_json_loads := (\<lambda>b. Some (JList [JInt 1, JInt 2]))\<rparr>"

definition example_config :: config where
  "example_config = [(''base_url'', JStr ''https://api.test''), (''path'', JStr ''/v1''),
     (''max_pages'', JInt 2), (''page_size'', JInt 3)]"

text \<open>C37: Every fetch ends. Whatever the source answers, and for any configuration, the generator
  yields at most \<^verbatim>\<open>max_pages\<close> pages with records, at most one page more (the retained empty
  one), and then ends: fuel of two more than \<^verbatim>\<open>max_pages\<close> is enough.\<close>

theorem fetch_ends:
  "\<exists>rs ending net'. drain (fetch_next env lib config cred) (max_pages config + 2) (FetchStart cursor) net =
      Some (rs, ending, net') \<and> length rs \<le> max_pages config + 1 \<and>
      length (filter (\<lambda>r. fr_records r \<noteq> []) rs) \<le> max_pages config"
proof -
  obtain rs ending net' where d: "drain (fetch_next env lib config cred) (max_pages config + 2)
      (FetchStart cursor) net = Some (rs, ending, net')"
    using rest.drain_ends [where s = "FetchStart cursor" and fuel = "max_pages config + 2"] by fastforce
  have "length (filter (\<lambda>r. fr_records r \<noteq> []) rs) \<le> max_pages config"
  proof (cases "start_page config cursor")
    case (Inl e)
    with d have "rs = []" by (auto simp: numeral_2_eq_2 result_simps split: sum.splits prod.splits)
    then show ?thesis by simp
  next
    case (Inr start)
    from drain_start [OF d this] show ?thesis by (simp add: run_ok_def)
  qed
  with d rest.drain_length [OF d] show ?thesis by auto
qed

text \<open>C11: A fetch never silently truncates. Its pages are consecutive from the cursor; it ends
  normally only when the last page was short or empty, or the source answered the next page
  with no records; and when \<^verbatim>\<open>max_pages\<close> pages came and the last one names a successor, it
  ends with \<^verbatim>\<open>PageLimitExceededError\<close>.\<close>

theorem fetch_never_truncates:
  assumes "drain (fetch_next env lib config cred) fuel (FetchStart cursor) net = Some (rs, ending, net')"
    and "start_page config cursor = Inr start"
  shows "page_run start rs \<and>
    (ending = None \<longrightarrow> (rs \<noteq> [] \<and> terminal_page config (last rs)) \<or>
       answered_empty env lib config cred (start + int (length rs)) net') \<and>
    (rs \<noteq> [] \<and> length rs = max_pages config \<and> fr_next_cursor (last rs) \<noteq> None \<longrightarrow>
       limit_reported ending)"
  using drain_start [OF assms] by (simp add: run_ok_def)

definition example_page :: fetch_result where
  "example_page = \<lparr>fr_records = [JInt 1, JInt 2], fr_next_cursor = None, fr_raw_payload = ''abc'',
     fr_content_type = ''application/json'', fr_cursor_used = Some ''1'', fr_source_path = Some ''/v1'',
     fr_http_status = Some 200\<rparr>"

abbreviation public_env :: policy_env where
  "public_env \<equiv> example_env (IPv4 (octets 93 184 216 34))"

lemma str_of_int_1: "str_of_int 1 = ''1''"
  by code_simp

lemma example_fetch:
  "drain (fetch_next public_env records_lib example_config []) 4 (FetchStart None) 0 = Some ([example_page], None, 1)"
proof -
  obtain client where c: "source_client public_env example_config = Inr client" "cl_base_url client = ''https://api.test''"
    by (simp add: source_client_def example_config_def field_def get_or_def build_client_def Let_def)
  have sent: "send_with_auth_retry public_env records_lib example_config client None [] 1 0 =
    (Inr (example_response, ''abc''), None, 1)"
    using example_public c(2)
    by (simp add: send_with_auth_retry_def build_and_send_def build_page_request_def config_method_def py_upper_def
        upper_char_def
        example_config_def field_def get_or_def records_lib_def const_lib_def send_page_def guarded_send_def
        source_max_response_bytes_def resolve_max_response_bytes_def or_default_def example_env_def
        DEFAULT_MAX_RESPONSE_BYTES_def read_bounded_body_def example_response_def check_status_def Let_def)
  have page: "fetch_page public_env records_lib example_config [] client None 1 0 0 =
    (Yielded example_page, FetchAtPage client None 1 0 True None, 1)"
    using sent
    by (simp add: fetch_page_def parse_json_def records_lib_def extract_records_def is_last_page_def
        example_config_def field_def get_or_def example_page_def header_get_def example_response_def or_default_def
        str_of_int_1)
  have "validate_config example_config = Inr ()" by code_simp
  then have "fetch_next public_env records_lib example_config [] (FetchStart None) 0 =
    (Yielded example_page, FetchAtPage client None 1 0 True None, 1)"
    using page c(1)
    by (simp add: start_page_def nonempty_opt_def resolve_auth_provider_def example_config_def field_def get_or_def)
  then show ?thesis by (simp add: numeral_eq_Suc del: fetch_next.simps(1))
qed

theorem fetch_never_truncates_witness:
  "page_run 1 [example_page] \<and> terminal_page example_config example_page"
proof -
  have "start_page example_config None = Inr 1" by (simp add: start_page_def nonempty_opt_def example_config_def get_or_def)
  moreover have "terminal_page example_config example_page"
    by (simp add: terminal_page_def example_page_def is_last_page_def example_config_def field_def get_or_def)
  ultimately show ?thesis using fetch_never_truncates [OF example_fetch] by simp
qed

subsection \<open>Re-authentication\<close>

lemma build_page_request_counted:
  assumes c: "counts_sends lib sent"
    and b: "build_page_request env lib config client provider cred page net = (r, provider', net')"
  shows "sent net' \<le> sent net + (case provider of None \<Rightarrow> 0 | Some p \<Rightarrow> MAX_MULTI_STEPS) \<and>
    (provider' = None \<longleftrightarrow> provider = None)"
proof -
  have le: "sent n' \<le> sent n + MAX_MULTI_STEPS"
    if "prepare_request env lib p request cred n = (x, p', n')" for p request n x p' n'
    using auth_requests_bound [OF c that] .
  show ?thesis
    using b by (auto simp: build_page_request_def dest!: le split: sum.splits prod.splits option.splits)
qed

lemma send_page_counted:
  assumes "counts_sends lib sent" and "send_page env lib config client request net = (r, net')"
  shows "sent net' \<le> Suc (sent net)"
proof -
  obtain g n where g: "guarded_send env lib client request (Some (source_max_response_bytes env config)) True net = (g, n)"
    by fastforce
  have "net' = n" using assms(2) g
    by (auto simp: send_page_def split: sum.splits exn.splits py_class.splits)
  with guarded_send_counted [OF assms(1) g] show ?thesis by simp
qed

lemma send_page_Inr:
  assumes "send_page env lib config client request net = (Inr (resp, body), net')"
  shows "guarded_send env lib client request (Some (source_max_response_bytes env config)) True net = (Inr (resp, body), net')"
  using assms by (auto simp: send_page_def split: prod.splits sum.splits exn.splits py_class.splits)

lemma build_and_send_counted:
  assumes c: "counts_sends lib sent"
    and b: "build_and_send env lib config client provider cred page net = (r, provider', net')"
  shows "sent net' \<le> sent net + (case provider of None \<Rightarrow> 1 | Some p \<Rightarrow> Suc MAX_MULTI_STEPS) \<and>
    (provider' = None \<longleftrightarrow> provider = None)"
proof -
  obtain q p1 n1 where q: "build_page_request env lib config client provider cred page net = (q, p1, n1)"
    by (cases "build_page_request env lib config client provider cred page net")
  note b1 = build_page_request_counted [OF c q]
  show ?thesis
  proof (cases q)
    case (Inl e)
    with b q b1 show ?thesis by (auto simp: build_and_send_def split: option.splits)
  next
    case (Inr request)
    obtain s n2 where s: "send_page env lib config client request n1 = (s, n2)" by fastforce
    with send_page_counted [OF c s] b q b1 Inr show ?thesis
      by (auto simp: build_and_send_def split: option.splits)
  qed
qed

lemma build_and_send_Inr:
  assumes "build_and_send env lib config client provider cred page net = (Inr (resp, body), provider', net')"
  shows "\<exists>request n. guarded_send env lib client request (Some (source_max_response_bytes env config)) True n =
    (Inr (resp, body), net')"
  using assms by (auto simp: build_and_send_def dest!: send_page_Inr split: prod.splits sum.splits)

lemma check_status_Inr: "check_status rb = Inr rb' \<Longrightarrow> rb' = rb \<and> resp_status (fst rb) < 400"
  by (auto simp: check_status_def Let_def split: if_splits)

text \<open>One page costs a bounded number of requests, however the source answers: without
  authentication one; with it at most two calls to the source, each after at most one
  acquisition. And a response that comes back is a success: its status is below 400, it came
  from a URL that was validated, and it is not a redirect.\<close>

theorem page_requests_bounded:
  assumes "counts_sends lib sent"
    and "send_with_auth_retry env lib config client provider cred page net = (r, provider', net')"
  shows "sent net' \<le> sent net + (case provider of None \<Rightarrow> 1 | Some p \<Rightarrow> 2 * Suc MAX_MULTI_STEPS) \<and>
    (\<forall>resp body. r = Inr (resp, body) \<longrightarrow> resp_status resp < 400 \<and> \<not> resp_is_redirect resp \<and>
       (\<exists>request :: http_request. validate_outbound_url env (req_url request) = Inr ()))"
proof -
  note counted = build_and_send_counted [OF assms(1)]
  obtain a p1 n1 where a: "build_and_send env lib config client provider cred page net = (a, p1, n1)"
    by (cases "build_and_send env lib config client provider cred page net")
  note a1 = counted [OF a]
  obtain b p2 n2 where b: "build_and_send env lib config client (map_option invalidate p1) cred page n1 = (b, p2, n2)"
    by (cases "build_and_send env lib config client (map_option invalidate p1) cred page n1")
  note b1 = counted [OF b]
  have good: "resp_status resp < 400 \<and> \<not> resp_is_redirect resp \<and>
       (\<exists>request :: http_request. validate_outbound_url env (req_url request) = Inr ())"
    if "check_status rb = Inr (resp, body)"
      "build_and_send env lib config client p cred page n = (Inr rb, p', n')" for rb resp body p n p' n'
  proof -
    have rb: "rb = (resp, body)" "resp_status resp < 400" using check_status_Inr [OF that(1)] by auto
    from build_and_send_Inr [OF that(2) [unfolded rb(1)]] obtain request m where
      "guarded_send env lib client request (Some (source_max_response_bytes env config)) True m = (Inr (resp, body), n')"
      by blast
    from guarded_send_ok [OF this] rb(2) show ?thesis by auto
  qed
  show ?thesis
  proof (cases a)
    case (Inl e)
    with assms(2) a a1 show ?thesis by (auto simp: send_with_auth_retry_def split: option.splits)
  next
    case (Inr rb)
    show ?thesis
    proof (cases "resp_status (fst rb) \<in> {401, 403} \<and> p1 \<noteq> None")
      case True
      with a1 obtain p where p: "provider = Some p" by (cases provider) auto
      from True a1 b1 p have "sent n2 \<le> sent net + 2 * Suc MAX_MULTI_STEPS" by (auto split: option.splits)
      moreover have "net' = n2" "\<forall>rb'. b = Inr rb' \<longrightarrow> r = check_status rb'" "\<forall>e. b = Inl e \<longrightarrow> r = Inl e"
        using assms(2) a b Inr True by (auto simp: send_with_auth_retry_def split: sum.splits)
      ultimately show ?thesis using good b p by (cases b) auto
    next
      case False
      with assms(2) a Inr have "r = check_status rb" "net' = n1"
        by (auto simp: send_with_auth_retry_def)
      with good a Inr a1 show ?thesis by (auto split: option.splits)
    qed
  qed
qed

theorem page_requests_bounded_witness:
  "snd (snd (send_with_auth_retry public_env records_lib example_config (build_client [] None None None)
     (Some (MultiStepAuth None)) [] 1 7)) \<le> 7 + 2 * Suc MAX_MULTI_STEPS"
proof -
  have "counts_sends records_lib (\<lambda>n. n)"
    by (simp add: counts_sends_def records_lib_def)
  from page_requests_bounded [OF this, where provider = "Some (MultiStepAuth None)" and net = 7
      and env = public_env and config = example_config and client = "build_client [] None None None"
      and cred = "[]" and page = 1]
  show ?thesis by (auto simp: prod_eq_iff)
qed

subsection \<open>Continuing a capped fetch\<close>

text \<open>A configuration with another \<^verbatim>\<open>max_pages\<close> differs in nothing else.\<close>

definition with_max_pages :: "nat \<Rightarrow> config \<Rightarrow> config" where
  "with_max_pages m config = AList.update ''max_pages'' (JInt (int m)) config"

lemma max_pages_with [simp]: "max_pages (with_max_pages m config) = m"
  by (simp add: with_max_pages_def max_pages_def get_or_def update_conv')

lemma with_max_pages_keys:
  "field (with_max_pages m config) ''page_size'' = field config ''page_size''"
  "field (with_max_pages m config) ''path'' = field config ''path''"
  "field (with_max_pages m config) ''base_url'' = field config ''base_url''"
  "field (with_max_pages m config) ''json_body'' = field config ''json_body''"
  "field (with_max_pages m config) ''records_path'' = field config ''records_path''"
  "field (with_max_pages m config) ''auth_provider_type'' = field config ''auth_provider_type''"
  "map_of (with_max_pages m config) ''page_size'' = map_of config ''page_size''"
  "get_or d (with_max_pages m config) ''page_param'' = get_or d config ''page_param''"
  "get_or d (with_max_pages m config) ''page_size_param'' = get_or d config ''page_size_param''"
  "get_or d (with_max_pages m config) ''records_key'' = get_or d config ''records_key''"
  "get_or d (with_max_pages m config) ''method'' = get_or d config ''method''"
  "get_or d (with_max_pages m config) ''headers'' = get_or d config ''headers''"
  "get_or d (with_max_pages m config) ''query_params'' = get_or d config ''query_params''"
  "get_or d (with_max_pages m config) ''start_page'' = get_or d config ''start_page''"
  "get_or d (with_max_pages m config) ''timeout_seconds'' = get_or d config ''timeout_seconds''"
  "get_or d (with_max_pages m config) ''max_response_bytes'' = get_or d config ''max_response_bytes''"
  "get_or d (with_max_pages m config) ''retain_empty_terminal_page'' = get_or d config ''retain_empty_terminal_page''"
  by (simp_all add: with_max_pages_def get_or_def field_def update_conv')

lemma request_with_max_pages [simp]:
  "config_method (with_max_pages m config) = config_method config"
  "page_params lib (with_max_pages m config) = page_params lib config"
  "source_max_response_bytes env (with_max_pages m config) = source_max_response_bytes env config"
  "records_path (with_max_pages m config) = records_path config"
  "is_last_page (with_max_pages m config) = is_last_page config"
  "resolve_auth_provider lib (with_max_pages m config) = resolve_auth_provider lib config"
  "source_client env (with_max_pages m config) = source_client env config"
  "start_page (with_max_pages m config) = start_page config"
  unfolding config_method_def page_params_def [abs_def] source_max_response_bytes_def records_path_def
      is_last_page_def [abs_def] resolve_auth_provider_def source_client_def start_page_def [abs_def]
      with_max_pages_keys
  by (rule refl)+

lemma send_with_max_pages [simp]:
  "build_page_request env lib (with_max_pages m config) = build_page_request env lib config"
  "send_page env lib (with_max_pages m config) = send_page env lib config"
  unfolding build_page_request_def [abs_def] send_page_def [abs_def] with_max_pages_keys request_with_max_pages
  by (rule refl)+

lemma send_with_auth_retry_with_max_pages [simp]:
  "build_and_send env lib (with_max_pages m config) = build_and_send env lib config"
  "send_with_auth_retry env lib (with_max_pages m config) = send_with_auth_retry env lib config"
  unfolding build_and_send_def [abs_def] send_with_auth_retry_def [abs_def] send_with_max_pages
  by (rule refl)+

lemma fetch_page_with_max_pages [simp]:
  "fetch_page env lib (with_max_pages m config) = fetch_page env lib config"
  unfolding fetch_page_def [abs_def] with_max_pages_keys request_with_max_pages
    send_with_auth_retry_with_max_pages
  by (rule refl)

lemma fetch_start_with_max_pages:
  "0 < m \<Longrightarrow> validate_config config = Inr () \<Longrightarrow>
   fetch_next env lib (with_max_pages m config) cred (FetchStart cursor) net =
   fetch_next env lib config cred (FetchStart cursor) net"
proof -
  assume m: "0 < m" and v: "validate_config config = Inr ()"
  have "validate_config (with_max_pages m config) = Inr ()"
    using v m unfolding validate_config_def with_max_pages_keys request_with_max_pages
    by (auto simp: result_simps with_max_pages_def get_or_def update_conv' split: if_splits)
  with v show ?thesis by (simp split: sum.split prod.split)
qed

text \<open>An authentication that keeps no token is the same provider after every request.\<close>

fun keeps_no_token :: "auth_provider option \<Rightarrow> bool" where
  "keeps_no_token (Some (TokenEndpointAuth cache)) = False"
| "keeps_no_token (Some (MultiStepAuth cache)) = False"
| "keeps_no_token p = True"

lemma keeps_no_token_cases:
  assumes "keeps_no_token q"
  obtains "q = None" | "q = Some ApiKeyAuth" | "q = Some BasicAuth" | "q = Some BearerAuth"
  using assms by (cases q rule: keeps_no_token.cases) auto

lemma send_keeps_no_token:
  assumes "keeps_no_token q" "send_with_auth_retry env lib config client q cred page net = (r, p', n')"
  shows "p' = q"
  using assms(1)
  by (cases rule: keeps_no_token_cases)
    (use assms(2) in \<open>auto simp: send_with_auth_retry_def build_and_send_def build_page_request_def
      split: sum.splits prod.splits if_splits\<close>)

text \<open>With such an authentication a page does not depend on how many pages came before it.\<close>

lemma fetch_page_no_auth:
  assumes keeps: "keeps_no_token q"
    and page: "fetch_page env lib config cred client q page y net = (ev, s', net')"
  shows "(\<exists>final nc. s' = FetchAtPage client q page y final nc \<and>
      fetch_page env lib config cred client q page y2 net = (ev, FetchAtPage client q page y2 final nc, net')) \<or>
    (s' \<in> {FetchAtEmpty, FetchDone} \<and>
      fetch_page env lib config cred client q page y2 net = (ev, s', net'))"
proof -
  obtain r p' n' where sw: "send_with_auth_retry env lib config client q cred page net = (r, p', n')"
    by (cases "send_with_auth_retry env lib config client q cred page net")
  then have p: "p' = q" by (rule send_keeps_no_token [OF keeps])
  show ?thesis
  proof (cases r)
    case (Inr rb)
    obtain response body where rb: "rb = (response, body)" by fastforce
    show ?thesis
    proof (cases "ebind (parse_json lib body) (\<lambda>data.
                ebind (extract_records data (records_path config)) (\<lambda>records.
                ebind (if records = [] then Inr True else is_last_page config (length records)) (\<lambda>final.
                  Inr (records, final))))")
      case (Inr x)
      obtain records final where "x = (records, final)" by fastforce
      with Inr sw p rb \<open>r = Inr rb\<close> page show ?thesis
        by (simp add: fetch_page_def Let_def split: if_splits)
    qed (use sw rb Inr page in \<open>simp add: fetch_page_def\<close>)
  qed (use sw page in \<open>simp add: fetch_page_def\<close>)
qed

lemma continue_within_limit:
  assumes keeps: "keeps_no_token q"
    and "drain (fetch_next env lib config cred) fuel (FetchAtPage client q page y final nc) net =
      Some (rs, None, net')"
    and "y2 + max_pages config \<le> m + y"
  shows "drain (fetch_next env lib (with_max_pages m config) cred) fuel (FetchAtPage client q page y2 final nc) net =
      Some (rs, None, net')"
  using assms(2-)
proof (induction fuel arbitrary: page y y2 final nc net rs)
  case (Suc fuel)
  show ?case
  proof (cases "final \<or> y + 1 \<ge> max_pages config")
    case True
    with Suc.prems show ?thesis by (auto split: if_splits)
  next
    case False
    then have y: "\<not> final" "y + 1 < max_pages config" "y2 + 1 < m" using Suc.prems(2) by auto
    obtain ev s1 net1 where f: "fetch_page env lib config cred client q (page + 1) (y + 1) net = (ev, s1, net1)"
      by (cases "fetch_page env lib config cred client q (page + 1) (y + 1) net")
    from fetch_page_no_auth [OF keeps f, of "y2 + 1"] show ?thesis
    proof (elim disjE exE conjE)
      fix final' nc'
      assume s1: "s1 = FetchAtPage client q (page + 1) (y + 1) final' nc'"
        and f2: "fetch_page env lib config cred client q (page + 1) (y2 + 1) net =
          (ev, FetchAtPage client q (page + 1) (y2 + 1) final' nc', net1)"
      show ?thesis
      proof (cases ev)
        case (Yielded r)
        with Suc.prems y f obtain rs' where rs': "rs = r # rs'"
          "drain (fetch_next env lib config cred) fuel s1 net1 = Some (rs', None, net')" by auto
        from Suc.IH [OF rs'(2) [unfolded s1], of "y2 + 1"] Suc.prems(2)
        show ?thesis using y f2 Yielded rs' by simp
      qed (use Suc.prems y f f2 in auto)
    next
      assume s1: "s1 \<in> {FetchAtEmpty, FetchDone}"
        and f2: "fetch_page env lib config cred client q (page + 1) (y2 + 1) net = (ev, s1, net1)"
      have e: "drain (fetch_next env lib (with_max_pages m config) cred) fuel s1 net1 =
          drain (fetch_next env lib config cred) fuel s1 net1"
        using s1 by (cases fuel) auto
      show ?thesis using Suc.prems(1) y f f2 e by (cases ev) auto
    qed
  qed
qed simp

lemma continue_at_limit:
  assumes keeps: "keeps_no_token q"
    and start: "fetch_next env lib config cred (FetchStart (Some c)) net =
      fetch_page env lib config cred client q page 0 net"
    and ends: "drain (fetch_next env lib config cred) fuel (FetchStart (Some c)) net = Some (rs, None, net')"
    and page: "fetch_page env lib config cred client q page y net = (ev, s1, net1)"
    and "y + max_pages config \<le> m"
  shows "case ev of
      Yielded r \<Rightarrow> (\<exists>rs'. rs = r # rs' \<and>
        drain (fetch_next env lib (with_max_pages m config) cred) (fuel - 1) s1 net1 = Some (rs', None, net'))
    | Stopped \<Rightarrow> rs = [] \<and> net' = net1 | Raised e \<Rightarrow> False"
proof -
  obtain f where f: "fuel = Suc f" using ends by (cases fuel) auto
  from fetch_page_no_auth [OF keeps page, of 0] show ?thesis
  proof (elim disjE exE conjE)
    fix final nc
    assume s1: "s1 = FetchAtPage client q page y final nc"
      and p0: "fetch_page env lib config cred client q page 0 net = (ev, FetchAtPage client q page 0 final nc, net1)"
    show ?thesis
    proof (cases ev)
      case (Yielded r)
      with p0 start ends f obtain rs' where "rs = r # rs'"
        "drain (fetch_next env lib config cred) f (FetchAtPage client q page 0 final nc) net1 = Some (rs', None, net')"
        by (auto simp del: fetch_next.simps)
      with continue_within_limit [OF keeps, of env lib config cred f client page 0 final nc net1 rs' net' y m] assms(5)
      show ?thesis using Yielded f s1 by simp
    qed (use p0 start ends f in \<open>auto simp del: fetch_next.simps\<close>)
  next
    assume s1: "s1 \<in> {FetchAtEmpty, FetchDone}"
      and p0: "fetch_page env lib config cred client q page 0 net = (ev, s1, net1)"
    have e: "drain (fetch_next env lib (with_max_pages m config) cred) f s1 net1 =
        drain (fetch_next env lib config cred) f s1 net1"
      using s1 by (cases f) auto
    show ?thesis using start ends p0 f e by (cases ev) (auto simp del: fetch_next.simps)
  qed
qed

lemma longer_run:
  assumes keeps: "keeps_no_token q"
    and start: "\<And>net. fetch_next env lib config cred (FetchStart (Some c)) net =
      fetch_page env lib config cred client q k 0 net"
    and c: "c = str_of_int k"
    and second: "drain (fetch_next env lib config cred) fuel2 (FetchStart (Some c)) net1 = Some (rs2, None, net2)"
    and m: "2 * max_pages config \<le> m" "0 < max_pages config"
    and first: "drain (fetch_next env lib config cred) fuel (FetchAtPage client q page y final nc) net =
      Some (rs, Some e, net1)"
    and limit: "length rs + y + 1 = max_pages config"
    and nc: "nc = (if final then None else Some (str_of_int (page + 1)))"
    and lastc: "(if rs = [] then nc else fr_next_cursor (last rs)) = Some c"
  shows "drain (fetch_next env lib (with_max_pages m config) cred) (fuel + fuel2)
      (FetchAtPage client q page y final nc) net = Some (rs @ rs2, None, net2)"
  using first limit nc lastc
proof (induction fuel arbitrary: page y final nc net rs)
  case (Suc fuel)
  let ?long = "fetch_next env lib (with_max_pages m config) cred"
  have nf: "\<not> final" using Suc.prems by (auto split: if_splits)
  obtain ev s1 n1 where f: "fetch_page env lib config cred client q (page + 1) (y + 1) net = (ev, s1, n1)"
    by (cases "fetch_page env lib config cred client q (page + 1) (y + 1) net")
  have ym: "y + 1 < m" using Suc.prems(2) m by simp
  show ?case
  proof (cases "y + 1 \<ge> max_pages config")
    case True
    with Suc.prems nf have rs: "rs = []" "net1 = net" "y + 1 = max_pages config" by auto
    with Suc.prems nf c have k: "k = page + 1" by (simp add: str_of_int_inj)
    have "y + 1 + max_pages config \<le> m" using rs m by simp
    from continue_at_limit [OF keeps start second [unfolded rs] f [folded k] this]
    show ?thesis
    proof (cases ev)
      case (Yielded r)
      with continue_at_limit [OF keeps start second [unfolded rs] f [folded k], of m] rs m obtain rs' where
        r: "rs2 = r # rs'" "drain ?long (fuel2 - 1) s1 n1 = Some (rs', None, net2)" by auto
      have "drain ?long (fuel + fuel2) s1 n1 = Some (rs', None, net2)"
        by (rule rest.drain_more_fuel [OF r(2)]) simp
      with f ym nf rs r Yielded show ?thesis by simp
    qed (use f ym nf rs in auto)
  next
    case False
    show ?thesis
    proof (cases ev)
      case (Yielded r)
      with Suc.prems(1) nf False f obtain rs' where rs: "rs = r # rs'"
        and d: "drain (fetch_next env lib config cred) fuel s1 n1 = Some (rs', Some e, net1)" by auto
      from fetch_page_event [OF f] Yielded consider
          (empty) "s1 = FetchAtEmpty"
        | (page) p' fin where "s1 = FetchAtPage client p' (page + 1) (y + 1) fin (fr_next_cursor r)"
            "fr_next_cursor r = (if fin then None else Some (str_of_int (page + 1 + 1)))" by auto
      then show ?thesis
      proof cases
        case empty
        with d show ?thesis by (cases fuel) auto
      next
        case page
        with fetch_page_no_auth [OF keeps f, of 0] have p': "p' = q" by auto
        from Suc.IH [OF d [unfolded page(1) p']] page(2) Suc.prems rs
        have "drain ?long (fuel + fuel2) s1 n1 = Some (rs' @ rs2, None, net2)"
          using page(1) p' by (auto split: if_splits)
        with f ym nf rs Yielded show ?thesis by simp
      qed
    qed (use Suc.prems nf False f in auto)
  qed
qed simp

lemma page_run_last: "page_run k rs \<Longrightarrow> rs \<noteq> [] \<Longrightarrow> \<exists>j. fr_next_cursor (last rs) \<in> {None, Some (str_of_int j)}"
  by (induction rs arbitrary: k) auto

lemma py_int_not_empty: "py_int [] = None"
  by code_simp

lemma start_page_cursor: "start_page config (Some (str_of_int k)) = Inr k"
proof -
  have "str_of_int k \<noteq> []" using py_int_not_empty py_int_str_of_int [of k] by fastforce
  then show ?thesis by (simp add: start_page_def nonempty_opt_def or_default_def)
qed

lemma fetch_continued:
  assumes valid: "validate_config config = Inr ()" "resolve_auth_provider lib config = Inr q" "keeps_no_token q"
    and first: "drain (fetch_next env lib config cred) fuel1 (FetchStart cursor) net = Some (rs1, Some e, net1)"
    and limit: "length rs1 = max_pages config" "fr_next_cursor (last rs1) = Some c"
    and second: "drain (fetch_next env lib config cred) fuel2 (FetchStart (Some c)) net1 = Some (rs2, None, net2)"
    and m: "2 * max_pages config \<le> m"
  shows "drain (fetch_next env lib (with_max_pages m config) cred) (fuel1 + fuel2) (FetchStart cursor) net =
    Some (rs1 @ rs2, None, net2)"
proof -
  let ?long = "fetch_next env lib (with_max_pages m config) cred"
  have mp: "0 < max_pages config" by (rule validate_config_max_pages [OF valid(1)])
  then have ne: "rs1 \<noteq> []" using limit by auto
  obtain f where f: "fuel1 = Suc f" using first by (cases fuel1) auto
  obtain ev s1 n1 where n: "fetch_next env lib config cred (FetchStart cursor) net = (ev, s1, n1)"
    by (cases "fetch_next env lib config cred (FetchStart cursor) net")
  with first f ne obtain r rs where ev: "ev = Yielded r" and rs: "rs1 = r # rs"
    and d: "drain (fetch_next env lib config cred) f s1 n1 = Some (rs, Some e, net1)"
    by (cases ev) (auto simp del: fetch_next.simps)
  from n obtain page client where sc: "source_client env config = Inr client"
    and p: "start_page config cursor = Inr page" "fetch_page env lib config cred client q page 0 net = (ev, s1, n1)"
    using ev valid(2) by (cases rule: fetch_start_cases) auto
  from fetch_page_event [OF p(2)] ev consider
      (empty) "s1 = FetchAtEmpty"
    | (page) p' fin where "s1 = FetchAtPage client p' page 0 fin (fr_next_cursor r)"
        "fr_next_cursor r = (if fin then None else Some (str_of_int (page + 1)))" by auto
  then show ?thesis
  proof cases
    case empty
    with d show ?thesis by (cases f) auto
  next
    case page
    with fetch_page_no_auth [OF valid(3) p(2), of 0] have p': "p' = q" by auto
    have "page_run page rs1" using drain_start [OF first p(1)] by (simp add: run_ok_def)
    then have "\<exists>k. c = str_of_int k" using limit(2) ne page_run_last by fastforce
    then obtain k where k: "c = str_of_int k" by blast
    have start: "fetch_next env lib config cred (FetchStart (Some c)) n =
        fetch_page env lib config cred client q k 0 n" for n
      using valid sc k by (simp add: start_page_cursor)
    have "drain ?long (f + fuel2) s1 n1 = Some (rs @ rs2, None, net2)"
      unfolding page(1) p'
      by (rule longer_run [OF valid(3) start k second m mp d [unfolded page(1) p']])
        (use page(2) rs limit in \<open>auto split: if_splits\<close>)
    moreover have "?long (FetchStart cursor) net = (Yielded r, s1, n1)"
      using m mp n ev by (simp add: fetch_start_with_max_pages [OF _ valid(1)] del: fetch_next.simps)
    ultimately show ?thesis using f rs by simp
  qed
qed

lemma page_run_append:
  assumes "page_run k rs1" "rs1 \<noteq> []" "fr_records (last rs1) \<noteq> []" "fr_next_cursor (last rs1) \<noteq> None"
    and "page_run (k + int (length rs1)) rs2"
  shows "page_run k (rs1 @ rs2)"
  using assms
proof (induction rs1 arbitrary: k)
  case (Cons r rs)
  have sum: "k + (1 + int (length rs)) = k + 1 + int (length rs)" by simp
  show ?case
  proof (cases "rs = []")
    case True
    with Cons.prems show ?thesis by simp
  next
    case False
    with Cons.prems have "page_run (k + 1) (rs @ rs2)" by (intro Cons.IH) (simp_all add: sum)
    with Cons.prems False show ?thesis by simp
  qed
qed simp

lemma page_run_cursor:
  "page_run k rs \<Longrightarrow> rs \<noteq> [] \<Longrightarrow> fr_next_cursor (last rs) = Some c \<Longrightarrow> c = str_of_int (k + int (length rs))"
proof (induction rs arbitrary: k)
  case (Cons r rs)
  show ?case
  proof (cases "rs = []")
    case False
    with Cons.prems Cons.IH [of "k + 1"] show ?thesis by (simp add: algebra_simps)
  qed (use Cons.prems in auto)
qed simp

text \<open>A page that names a successor has records.\<close>

lemma fetch_page_successor:
  "fetch_page env lib config cred client provider page y net = (Yielded r, s', n') \<Longrightarrow>
   fr_next_cursor r \<noteq> None \<Longrightarrow> fr_records r \<noteq> []"
  by (auto simp: fetch_page_def Let_def result_simps split: sum.splits prod.splits if_splits)

lemma drain_successor:
  "drain (fetch_next env lib config cred) fuel g net = Some (rs, ending, net') \<Longrightarrow> rs \<noteq> [] \<Longrightarrow>
   fr_next_cursor (last rs) \<noteq> None \<Longrightarrow> fr_records (last rs) \<noteq> []"
proof (induction fuel arbitrary: g net rs)
  case (Suc fuel)
  obtain ev g1 n1 where f: "fetch_next env lib config cred g net = (ev, g1, n1)"
    by (cases "fetch_next env lib config cred g net")
  with Suc.prems obtain r rs1 where r: "ev = Yielded r" "rs = r # rs1"
    and d: "drain (fetch_next env lib config cred) fuel g1 n1 = Some (rs1, ending, net')"
    by (auto simp del: fetch_next.simps split: fetch_event.splits)
  have event: "fr_next_cursor r \<noteq> None \<Longrightarrow> fr_records r \<noteq> []"
  proof (cases g)
    case (FetchStart cursor)
    with f r show "fr_next_cursor r \<noteq> None \<Longrightarrow> fr_records r \<noteq> []"
      by (auto split: sum.splits prod.splits dest: fetch_page_successor)
  next
    case (FetchAtPage client provider page y final nc)
    with f r show "fr_next_cursor r \<noteq> None \<Longrightarrow> fr_records r \<noteq> []"
      by (auto split: if_splits dest: fetch_page_successor)
  qed (use f r in auto)
  show ?case
  proof (cases "rs1 = []")
    case False
    with Suc.IH [OF d] Suc.prems r show ?thesis by simp
  qed (use Suc.prems r event in simp)
qed simp

lemma continued_pages:
  assumes start: "start_page config cursor = Inr start"
    and first: "drain (fetch_next env lib config cred) fuel1 (FetchStart cursor) net = Some (rs1, Some e, net1)"
    and limit: "rs1 \<noteq> []" "fr_next_cursor (last rs1) = Some c"
    and second: "drain (fetch_next env lib config cred) fuel2 (FetchStart (Some c)) net1 = Some (rs2, None, net2)"
  shows "page_run start (rs1 @ rs2) \<and>
    (rs2 \<noteq> [] \<and> terminal_page config (last rs2) \<or>
     answered_empty env lib config cred (start + int (length (rs1 @ rs2))) net2)"
proof -
  have p1: "page_run start rs1" using drain_start [OF first start] by (simp add: run_ok_def)
  have c: "c = str_of_int (start + int (length rs1))" by (rule page_run_cursor [OF p1 limit])
  have start2: "start_page config (Some c) = Inr (start + int (length rs1))"
    by (simp add: c start_page_cursor)
  note two = drain_start [OF second start2, unfolded run_ok_def]
  have "page_run start (rs1 @ rs2)"
    using page_run_append [OF p1 limit(1) drain_successor [OF first limit(1)]] limit(2) two by simp
  with two show ?thesis by (auto simp: add.assoc)
qed

text \<open>C12: A capped fetch loses nothing. When a fetch stopped at \<^verbatim>\<open>max_pages\<close> pages, then the pages
  of a second fetch, from the cursor of its last page to its normal end, complete it, whatever the
  authentication: together the pages are numbered consecutively from where the first fetch began,
  none missing and none twice, and the last one was short or the source answered the page after
  it with no records. Where the authentication keeps no token between requests (none, API key,
  basic, bearer), the two together are, request for request, one fetch with a larger limit.\<close>

theorem continuation_completes_fetch:
  assumes valid: "validate_config config = Inr ()" "start_page config cursor = Inr start"
    and first: "drain (fetch_next env lib config cred) fuel1 (FetchStart cursor) net = Some (rs1, Some e, net1)"
    and limit: "length rs1 = max_pages config" "fr_next_cursor (last rs1) = Some c"
    and second: "drain (fetch_next env lib config cred) fuel2 (FetchStart (Some c)) net1 = Some (rs2, None, net2)"
    and m: "2 * max_pages config \<le> m"
  shows "page_run start (rs1 @ rs2) \<and>
    (rs2 \<noteq> [] \<and> terminal_page config (last rs2) \<or>
     answered_empty env lib config cred (start + int (length (rs1 @ rs2))) net2) \<and>
    (case resolve_auth_provider lib config of
       Inl e \<Rightarrow> False
     | Inr q \<Rightarrow> keeps_no_token q \<longrightarrow>
         drain (fetch_next env lib (with_max_pages m config) cred) (fuel1 + fuel2) (FetchStart cursor) net =
           Some (rs1 @ rs2, None, net2))"
proof -
  have ne: "rs1 \<noteq> []" using limit(1) validate_config_max_pages [OF valid(1)] by auto
  obtain q where q: "resolve_auth_provider lib config = Inr q"
  proof (cases "resolve_auth_provider lib config")
    case (Inl e')
    with first ne valid show ?thesis by (cases fuel1) auto
  qed
  show ?thesis
    using continued_pages [OF valid(2) first ne limit(2) second]
      fetch_continued [OF valid(1) q _ first limit second m] q by simp
qed

text \<open>A source with one full page of two records and an empty one after it, read by a configuration
  whose limit is one page.\<close>

definition short_lib :: "nat http_lib" where
  "short_lib = records_lib\<lparr>hl_send := (\<lambda>client req n.
       (Inr (if n = 0 then example_response else example_response\<lparr>resp_chunks := []\<rparr>), n + 1)),
     hl_json_loads := (\<lambda>b. Some (JList (if b = [] then [] else [JInt 1, JInt 2])))\<rparr>"

definition one_page_config :: config where
  "one_page_config = [(''base_url'', JStr ''https://api.test''), (''path'', JStr ''/v1''),
     (''max_pages'', JInt 1), (''page_size'', JInt 2)]"

lemma str_of_int_2: "str_of_int 2 = ''2''"
  by code_simp

lemma short_source:
  shows short_first: "drain (fetch_next public_env short_lib one_page_config []) 3 (FetchStart None) 0 =
      Some ([example_page\<lparr>fr_next_cursor := Some ''2''\<rparr>],
        Some (page_limit_exceeded_error (''rest_api source reached max_pages='' @ str_of_nat 1 @
          '' while more data may remain: last successfully processed page='' @ str_of_int 1 @
          '', next_cursor='' @ py_repr ''2'')), 1)"
    and short_second: "drain (fetch_next public_env short_lib one_page_config []) 3 (FetchStart (Some ''2'')) 1 =
      Some ([], None, 2)"
proof -
  obtain client where c: "source_client public_env one_page_config = Inr client" "cl_base_url client = ''https://api.test''"
    by (simp add: source_client_def one_page_config_def field_def get_or_def build_client_def Let_def)
  have sent: "send_with_auth_retry public_env short_lib one_page_config client None [] k n =
    (if n = 0 then (Inr (example_response, ''abc''), None, n + 1)
     else (Inr (example_response\<lparr>resp_chunks := []\<rparr>, []), None, n + 1))" for k n
    using example_public c(2)
    by (simp add: send_with_auth_retry_def build_and_send_def build_page_request_def config_method_def py_upper_def
        upper_char_def short_lib_def
        one_page_config_def field_def get_or_def records_lib_def const_lib_def send_page_def guarded_send_def
        source_max_response_bytes_def resolve_max_response_bytes_def or_default_def example_env_def
        DEFAULT_MAX_RESPONSE_BYTES_def read_bounded_body_def example_response_def check_status_def Let_def)
  have parse: "parse_json short_lib b = Inr (JList (if b = [] then [] else [JInt 1, JInt 2]))" for b
    by (simp add: parse_json_def short_lib_def)
  have keys: "field one_page_config ''page_size'' = JInt 2" "field one_page_config ''path'' = JStr ''/v1''"
    "records_path one_page_config = JStr ''results''"
    "get_or (JBool False) one_page_config ''retain_empty_terminal_page'' = JBool False"
    by (simp_all add: one_page_config_def field_def get_or_def records_path_def)
  have page: "fetch_page public_env short_lib one_page_config [] client None 1 0 0 =
    (Yielded (example_page\<lparr>fr_next_cursor := Some ''2''\<rparr>), FetchAtPage client None 1 0 False (Some ''2''), 1)"
    "fetch_page public_env short_lib one_page_config [] client None 2 0 1 = (Stopped, FetchDone, 2)"
    by (simp_all add: sent keys parse fetch_page_def Let_def extract_records_def
        is_last_page_def example_page_def header_get_def example_response_def or_default_def
        str_of_int_1 str_of_int_2)
  have v: "validate_config one_page_config = Inr ()" by code_simp
  have cur: "start_page one_page_config (Some ''2'') = Inr 2" by code_simp
  have mp: "max_pages one_page_config = 1" by (simp add: max_pages_def one_page_config_def get_or_def)
  have "fetch_next public_env short_lib one_page_config [] (FetchStart None) 0 =
    (Yielded (example_page\<lparr>fr_next_cursor := Some ''2''\<rparr>), FetchAtPage client None 1 0 False (Some ''2''), 1)"
    using page(1) c(1) v
    by (simp add: start_page_def nonempty_opt_def resolve_auth_provider_def one_page_config_def field_def get_or_def)
  then show "drain (fetch_next public_env short_lib one_page_config []) 3 (FetchStart None) 0 =
      Some ([example_page\<lparr>fr_next_cursor := Some ''2''\<rparr>],
        Some (page_limit_exceeded_error (''rest_api source reached max_pages='' @ str_of_nat 1 @
          '' while more data may remain: last successfully processed page='' @ str_of_int 1 @
          '', next_cursor='' @ py_repr ''2'')), 1)"
    by (simp add: numeral_eq_Suc mp del: fetch_next.simps(1))
  have "fetch_next public_env short_lib one_page_config [] (FetchStart (Some ''2'')) 1 = (Stopped, FetchDone, 2)"
    using page(2) c(1) v cur
    by (simp add: resolve_auth_provider_def one_page_config_def field_def get_or_def)
  then show "drain (fetch_next public_env short_lib one_page_config []) 3 (FetchStart (Some ''2'')) 1 =
      Some ([], None, 2)"
    by (simp add: numeral_eq_Suc del: fetch_next.simps(1))
qed

theorem continuation_completes_fetch_witness:
  "drain (fetch_next public_env short_lib (with_max_pages 2 one_page_config) []) 6 (FetchStart None) 0 =
     Some ([example_page\<lparr>fr_next_cursor := Some ''2''\<rparr>], None, 2) \<and>
   page_run 1 [example_page\<lparr>fr_next_cursor := Some ''2''\<rparr>]"
proof -
  have v: "validate_config one_page_config = Inr ()" "start_page one_page_config None = Inr 1" by code_simp+
  have q: "resolve_auth_provider short_lib one_page_config = Inr None"
    by (simp add: resolve_auth_provider_def one_page_config_def field_def get_or_def)
  have mp: "max_pages one_page_config = 1" by (simp add: max_pages_def one_page_config_def get_or_def)
  have "length [example_page\<lparr>fr_next_cursor := Some ''2''\<rparr>] = max_pages one_page_config"
    "fr_next_cursor (last [example_page\<lparr>fr_next_cursor := Some ''2''\<rparr>]) = Some ''2''"
    "2 * max_pages one_page_config \<le> 2"
    by (simp_all add: mp)
  from continuation_completes_fetch [OF v short_first this(1,2) short_second this(3)] q
  show ?thesis by simp
qed

end
