(* ===== verification/SqlServer.thy ===== *)
theory SqlServer
  imports TokenSupport "HOL-Library.Char_ord" "HOL-Library.List_Lexorder"
begin

text \<open>
  \<^verbatim>\<open>apps/connectors/destinations/sqlserver.py\<close> and the destination half of
  \<^verbatim>\<open>apps/connectors/base.py\<close>. SQLAlchemy and the database behind it are the parameter
  \<open>sql_lib\<close>: reading the table's columns, opening a transaction on the database's state, inserting
  rows in it, and committing it. A transaction that is not committed leaves the state as it was.
  The interface the orchestration relies on is the locale \<open>destination\<close>.
\<close>

record destination_mapping =
  dm_table_name :: string
  dm_columns :: "(string \<times> string) list"

record destination_capabilities =
  supports_upsert :: bool
  supports_guided_schema_creation :: bool

definition sqlserver_capabilities :: destination_capabilities where
  "sqlserver_capabilities = \<lparr>supports_upsert = False, supports_guided_schema_creation = False\<rparr>"

text \<open>\<^verbatim>\<open>DestinationConnector.ensure_schema\<close>: the inherited default.\<close>

definition ensure_schema :: "string \<Rightarrow> destination_mapping \<Rightarrow> exn + unit" where
  "ensure_schema cls mapping =
     Inl (PyExn OtherException (cls @ '' does not support guided schema creation''))"

subsection \<open>The database library\<close>

datatype sql_error =
    OperationalError string
  | IntegrityError string
  | NoSuchTableError string
  | SQLAlchemyError string \<comment> \<open>any other class of the hierarchy\<close>
  | NotSQLAlchemy exn

record db_url =
  db_drivername :: string
  db_username :: json
  db_password :: json
  db_host :: json
  db_port :: json
  db_database :: json
  db_query :: "(string \<times> json) list"

record ('d, 't) sql_lib =
  sl_create_engine :: "db_url \<Rightarrow> exn + unit"
  sl_select_1 :: "db_url \<Rightarrow> 'd \<Rightarrow> sql_error + unit"
  sl_columns :: "db_url \<Rightarrow> string \<Rightarrow> string \<Rightarrow> 'd \<Rightarrow> sql_error + string list"
  sl_begin :: "db_url \<Rightarrow> 'd \<Rightarrow> sql_error + 't"
  sl_insert :: "string \<Rightarrow> string \<Rightarrow> row list \<Rightarrow> 't \<Rightarrow> sql_error + 't"
  sl_commit :: "'t \<Rightarrow> 'd \<Rightarrow> sql_error option \<times> 'd"

subsection \<open>Identifiers\<close>

definition identifier_char :: "char \<Rightarrow> bool" where
  "identifier_char c = (is_alpha c \<or> is_digit c \<or> c = CHR ''_'')"

definition identifier_text :: "string \<Rightarrow> bool" where
  "identifier_text s =
     (case s of
        [] \<Rightarrow> False
      | c # cs \<Rightarrow> (is_alpha c \<or> c = CHR ''_'') \<and> list_all identifier_char cs \<and> length cs \<le> 127)"

text \<open>\<^verbatim>\<open>_IDENTIFIER_RE.match\<close>: the pattern's closing dollar sign also matches in front of a
  trailing newline.\<close>

definition identifier_match :: "string \<Rightarrow> bool" where
  "identifier_match s =
     (identifier_text s \<or> (s \<noteq> [] \<and> last s = CHR 0x0A \<and> identifier_text (butlast s)))"

fun repr_value :: "json \<Rightarrow> string" where
  "repr_value (JStr s) = py_repr s"
| "repr_value (JInt i) = str_of_int i"
| "repr_value v = type_name v"

definition validate_sql_identifier :: "json \<Rightarrow> string \<Rightarrow> exn + string" where
  "validate_sql_identifier name label =
     (let bad = Inl (configuration_error (label @ '' '' @ repr_value name @
            '' is not a valid SQL identifier (letters, digits, underscore; must not start with a digit; max 128 chars)''))
      in case name of JStr s \<Rightarrow> if identifier_match s then Inr s else bad | _ \<Rightarrow> bad)"

subsection \<open>Connecting\<close>

definition require :: "(string \<times> json) list \<Rightarrow> string \<Rightarrow> exn + json" where
  "require config k =
     (case map_of config k of None \<Rightarrow> Inl (PyExn KeyError (py_repr k)) | Some v \<Rightarrow> Inr v)"

definition update_query :: "json \<Rightarrow> (string \<times> json) list \<Rightarrow> exn + (string \<times> json) list" where
  "update_query extra query =
     (case extra of
        JObj kvs \<Rightarrow> Inr (dict_merge query kvs)
      | JList [] \<Rightarrow> Inr query
      | v \<Rightarrow> Inl (PyExn TypeError (type_name v @ '' object is not a mapping'')))"

definition build_url :: "(string \<times> json) list \<Rightarrow> credential \<Rightarrow> exn + db_url" where
  "build_url config cred =
     ebind (update_query (get_or (JObj []) config ''extra_odbc_params'')
              [(''driver'', get_or (JStr ''ODBC Driver 18 for SQL Server'') config ''driver'')]) (\<lambda>query.
     ebind (require config ''host'') (\<lambda>host.
     ebind (require config ''database'') (\<lambda>database.
       Inr \<lparr>db_drivername = ''mssql+pyodbc'', db_username = get_or JNull cred ''username'',
            db_password = get_or JNull cred ''password'', db_host = host,
            db_port = get_or (JInt 1433) config ''port'', db_database = database, db_query = query\<rparr>)))"

definition engine :: "('d, 't) sql_lib \<Rightarrow> (string \<times> json) list \<Rightarrow> credential \<Rightarrow> exn + db_url" where
  "engine lib config cred =
     ebind (build_url config cred) (\<lambda>url. ebind (sl_create_engine lib url) (\<lambda>_. Inr url))"

definition test_destination ::
  "('d, 't) sql_lib \<Rightarrow> (string \<times> json) list \<Rightarrow> credential \<Rightarrow> 'd \<Rightarrow> exn + unit" where
  "test_destination lib config cred db =
     ebind (engine lib config cred) (\<lambda>url.
       case sl_select_1 lib url db of
         Inr u \<Rightarrow> Inr ()
       | Inl (OperationalError msg) \<Rightarrow> Inl (connection_test_failed msg)
       | Inl (IntegrityError msg) \<Rightarrow> Inl (connection_test_failed msg)
       | Inl (NoSuchTableError msg) \<Rightarrow> Inl (connection_test_failed msg)
       | Inl (SQLAlchemyError msg) \<Rightarrow> Inl (connection_test_failed msg)
       | Inl (NotSQLAlchemy e) \<Rightarrow> Inl e)"

subsection \<open>Loading\<close>

definition reflect_table ::
  "('d, 't) sql_lib \<Rightarrow> db_url \<Rightarrow> string \<Rightarrow> string \<Rightarrow> 'd \<Rightarrow> sql_error + string list" where
  "reflect_table lib url schema table db =
     (case sl_columns lib url schema table db of
        Inl (NoSuchTableError msg) \<Rightarrow>
          Inl (NotSQLAlchemy (schema_mismatch_error
                 (''destination table '' @ schema @ ''.'' @ table @ '' does not exist'')))
      | r \<Rightarrow> r)"

definition repr_names :: "string list \<Rightarrow> string" where
  "repr_names ns = ''['' @ join_with '', '' (map py_repr (sort (remdups ns))) @ '']''"

definition record_columns :: "row list \<Rightarrow> string list" where
  "record_columns records = remdups (concat (map (map fst) records))"

definition validate_columns :: "string list \<Rightarrow> row list \<Rightarrow> string \<Rightarrow> string \<Rightarrow> exn + unit" where
  "validate_columns known records schema table =
     (let unknown = filter (\<lambda>c. c \<notin> set known) (record_columns records)
      in if unknown \<noteq> []
         then Inl (schema_mismatch_error (''destination table '' @ schema @ ''.'' @ table @
                '' has no column(s) '' @ repr_names unknown @ ''; known columns: '' @ repr_names known))
         else Inr ())"

text \<open>The loop over \<^verbatim>\<open>range(0, len(records), batch_size)\<close>.\<close>

function load_batches ::
  "('d, 't) sql_lib \<Rightarrow> string \<Rightarrow> string \<Rightarrow> nat \<Rightarrow> row list \<Rightarrow> nat \<Rightarrow> 't \<Rightarrow> sql_error + nat \<times> 't" where
  "load_batches lib schema table n records total_loaded tx =
     (if records = [] \<or> n = 0 then Inr (total_loaded, tx)
      else case sl_insert lib schema table (take n records) tx of
             Inl e \<Rightarrow> Inl e
           | Inr tx' \<Rightarrow> load_batches lib schema table n (drop n records)
                          (total_loaded + length (take n records)) tx')"
  by pat_completeness auto
termination
  by (relation "measure (\<lambda>(lib, schema, table, n, records, total_loaded, tx). length records)") auto

declare load_batches.simps [simp del]

text \<open>\<^verbatim>\<open>with engine.begin()\<close>: commit when the body ends, roll back when it raises.\<close>

definition load_transaction ::
  "('d, 't) sql_lib \<Rightarrow> db_url \<Rightarrow> string \<Rightarrow> string \<Rightarrow> nat \<Rightarrow> row list \<Rightarrow> 'd \<Rightarrow> (sql_error + nat) \<times> 'd" where
  "load_transaction lib url schema table n records db =
     (case sl_begin lib url db of
        Inl e \<Rightarrow> (Inl e, db)
      | Inr tx \<Rightarrow>
          (case load_batches lib schema table n records 0 tx of
             Inl e \<Rightarrow> (Inl e, db)
           | Inr (count, tx') \<Rightarrow>
               (case sl_commit lib tx' db of
                  (None, db') \<Rightarrow> (Inr count, db')
                | (Some e, db') \<Rightarrow> (Inl e, db'))))"

fun load_error :: "sql_error \<Rightarrow> exn" where
  "load_error (OperationalError msg) = load_failed (''database connectivity error during load: '' @ msg) True"
| "load_error (IntegrityError msg) = load_failed (''integrity constraint violated during load: '' @ msg) False"
| "load_error (NoSuchTableError msg) = load_failed msg False"
| "load_error (SQLAlchemyError msg) = load_failed msg False"
| "load_error (NotSQLAlchemy e) = e"

definition DEFAULT_BATCH_SIZE :: json where
  "DEFAULT_BATCH_SIZE = JInt 500"

definition batch_size_of :: "(string \<times> json) list \<Rightarrow> exn + nat" where
  "batch_size_of config =
     (let bad = Inl (configuration_error (''sqlserver destination: '' @ py_repr ''batch_size'' @
            '' must be a positive integer''))
      in case get_or DEFAULT_BATCH_SIZE config ''batch_size'' of
           JInt i \<Rightarrow> if i < 1 then bad else Inr (nat i)
         | _ \<Rightarrow> bad)"

text \<open>What is checked before the database is asked anything: schema, table, batch size, engine.\<close>

definition load_target ::
  "('d, 't) sql_lib \<Rightarrow> (string \<times> json) list \<Rightarrow> credential \<Rightarrow> exn + string \<times> string \<times> nat \<times> db_url" where
  "load_target lib config cred =
     ebind (validate_sql_identifier (get_or (JStr ''dbo'') config ''schema_name'') ''schema_name'') (\<lambda>schema.
     ebind (require config ''table_name'') (\<lambda>name.
     ebind (validate_sql_identifier name ''table_name'') (\<lambda>table.
     ebind (batch_size_of config) (\<lambda>n.
     ebind (engine lib config cred) (\<lambda>url. Inr (schema, table, n, url))))))"

definition load ::
  "('d, 't) sql_lib \<Rightarrow> (string \<times> json) list \<Rightarrow> credential \<Rightarrow> string \<Rightarrow> row list \<Rightarrow> 'd \<Rightarrow>
   (exn + nat) \<times> 'd" where
  "load lib config cred mode records db =
     (if mode \<noteq> ''append''
      then (Inl (unsupported_capability
             (''sqlserver destination connector only supports mode='' @ py_repr ''append'' @ '' (got '' @
              py_repr mode @ ''); upsert/CDC are deliberately deferred, see the roadmap'')), db)
      else if records = [] then (Inr 0, db)
      else (case load_target lib config cred of
              Inl e \<Rightarrow> (Inl e, db)
            | Inr (schema, table, n, url) \<Rightarrow>
                (case reflect_table lib url schema table db of
                   Inl e \<Rightarrow> (Inl (load_error e), db)
                 | Inr known \<Rightarrow>
                     (case validate_columns known records schema table of
                        Inl e \<Rightarrow> (Inl e, db)
                      | Inr _ \<Rightarrow>
                          (case load_transaction lib url schema table n records db of
                             (Inl e, db') \<Rightarrow> (Inl (load_error e), db')
                           | (Inr count, db') \<Rightarrow> (Inr count, db'))))))"

subsection \<open>The batches of a load\<close>

function batches :: "nat \<Rightarrow> 'a list \<Rightarrow> 'a list list" where
  "batches n xs = (if xs = [] \<or> n = 0 then [] else take n xs # batches n (drop n xs))"
  by pat_completeness auto
termination by (relation "measure (\<lambda>(n, xs). length xs)") auto

declare batches.simps [simp del]

lemma batches_partition: "0 < n \<Longrightarrow> concat (batches n xs) = xs"
proof (induction n xs rule: batches.induct)
  case (1 n xs)
  then show ?case by (subst batches.simps) auto
qed

lemma batches_size: "ys \<in> set (batches n xs) \<Longrightarrow> ys \<noteq> [] \<and> length ys \<le> n"
proof (induction n xs rule: batches.induct)
  case (1 n xs)
  then show ?case by (subst (asm) (2) batches.simps) (auto split: if_splits)
qed

text \<open>Inserting a list of batches in one transaction.\<close>

fun insert_all :: "('d, 't) sql_lib \<Rightarrow> string \<Rightarrow> string \<Rightarrow> row list list \<Rightarrow> 't \<Rightarrow> sql_error + 't" where
  "insert_all lib schema table [] tx = Inr tx"
| "insert_all lib schema table (b # bs) tx =
     (case sl_insert lib schema table b tx of Inl e \<Rightarrow> Inl e | Inr tx' \<Rightarrow> insert_all lib schema table bs tx')"

lemma load_batches_insert_all:
  "0 < n \<Longrightarrow> load_batches lib schema table n records total_loaded tx =
     (case insert_all lib schema table (batches n records) tx of
        Inl e \<Rightarrow> Inl e | Inr tx' \<Rightarrow> Inr (total_loaded + length records, tx'))"
proof (induction lib schema table n records total_loaded tx rule: load_batches.induct)
  case (1 lib schema table n records total_loaded tx)
  show ?case
  proof (cases "records = []")
    case False
    with "1.prems" have b: "batches n records = take n records # batches n (drop n records)"
      by (subst batches.simps) simp
    show ?thesis using False "1.prems" "1.IH"
      by (subst load_batches.simps) (auto simp: b split: sum.splits)
  qed (simp add: load_batches.simps batches.simps)
qed

lemma validate_sql_identifier_Inr:
  "validate_sql_identifier name label = Inr s \<Longrightarrow> name = JStr s \<and> identifier_match s"
  by (auto simp: validate_sql_identifier_def Let_def split: json.splits if_splits)

lemma batch_size_positive: "batch_size_of config = Inr n \<Longrightarrow> 0 < n"
  by (auto simp: batch_size_of_def Let_def split: json.splits if_splits)

lemma load_target_Inr:
  "load_target lib config cred = Inr (schema, table, n, url) \<Longrightarrow> 0 < n"
  by (auto simp: load_target_def result_simps dest: batch_size_positive)

text \<open>One attempt to commit the records: a transaction begun on the state holds all the batches, and
  its commit, whether it reported an error or not, leaves the given state.\<close>

definition commit_attempt ::
  "('d, 't) sql_lib \<Rightarrow> (string \<times> json) list \<Rightarrow> credential \<Rightarrow> sql_error option \<Rightarrow> row list \<Rightarrow> 'd \<Rightarrow> 'd \<Rightarrow> bool" where
  "commit_attempt lib config cred outcome records db db' =
     (\<exists>schema table n url tx tx'.
        load_target lib config cred = Inr (schema, table, n, url) \<and>
        sl_begin lib url db = Inr tx \<and>
        insert_all lib schema table (batches n records) tx = Inr tx' \<and>
        sl_commit lib tx' db = (outcome, db'))"

lemma load_transaction_cases:
  assumes "load_transaction lib url schema table n records db = (r, db')" "0 < n"
  shows "(\<exists>e. r = Inl e \<and> db' = db) \<or>
    (\<exists>tx tx' outcome. sl_begin lib url db = Inr tx \<and>
       insert_all lib schema table (batches n records) tx = Inr tx' \<and>
       sl_commit lib tx' db = (outcome, db') \<and>
       r = (case outcome of None \<Rightarrow> Inr (length records) | Some e \<Rightarrow> Inl e))"
  using assms
  by (auto simp: load_transaction_def load_batches_insert_all split: sum.splits prod.splits option.splits)

lemma load_Inr:
  assumes "load lib config cred mode records db = (Inr count, db')"
  shows "mode = ''append'' \<and> count = length records \<and>
    (if records = [] then db' = db else commit_attempt lib config cred None records db db')"
proof (cases "records = []")
  case False
  with assms obtain schema table n url known where
      t: "load_target lib config cred = Inr (schema, table, n, url)" and m: "mode = ''append''"
    and l: "load_transaction lib url schema table n records db = (Inr count, db')"
    by (auto simp: load_def split: sum.splits prod.splits if_splits)
  from load_transaction_cases [OF l load_target_Inr [OF t]] t m False show ?thesis
    by (auto simp: commit_attempt_def split: option.splits)
qed (use assms in \<open>auto simp: load_def split: if_splits\<close>)

lemma load_Inl:
  assumes "load lib config cred mode records db = (Inl e, db')"
  shows "db' = db \<or> (\<exists>err. e = load_error err \<and> commit_attempt lib config cred (Some err) records db db')"
proof (rule disjCI)
  assume "\<not> (\<exists>err. e = load_error err \<and> commit_attempt lib config cred (Some err) records db db')"
  show "db' = db"
  proof (rule ccontr)
    assume ne: "db' \<noteq> db"
    with assms obtain schema table n url err where
        t: "load_target lib config cred = Inr (schema, table, n, url)" and e: "e = load_error err"
      and l: "load_transaction lib url schema table n records db = (Inl err, db')"
      by (auto simp: load_def split: sum.splits prod.splits if_splits)
    from load_transaction_cases [OF l load_target_Inr [OF t]] t e ne
      \<open>\<not> (\<exists>err. e = load_error err \<and> commit_attempt lib config cred (Some err) records db db')\<close>
    show False by (auto simp: commit_attempt_def split: option.splits)
  qed
qed

text \<open>What the orchestration relies on. A load either reports the number of the records and has
  applied them, or it reports an error and has applied them at most once.\<close>

locale destination =
  fixes load_rows :: "row list \<Rightarrow> 'd \<Rightarrow> (exn + nat) \<times> 'd"
    and applied :: "row list \<Rightarrow> 'd \<Rightarrow> 'd \<Rightarrow> bool"
  assumes load_ok: "load_rows records db = (Inr count, db') \<Longrightarrow>
      count = length records \<and> (if records = [] then db' = db else applied records db db')"
    and load_failed_once: "load_rows records db = (Inl e, db') \<Longrightarrow> db' = db \<or> applied records db db'"
begin

lemma load_changes_once: "load_rows records db = (r, db') \<Longrightarrow> db' = db \<or> applied records db db'"
  by (cases r) (auto dest: load_ok load_failed_once split: if_splits)

end

interpretation sqlserver: destination "load lib config cred mode"
  "\<lambda>records db db'. \<exists>outcome. commit_attempt lib config cred outcome records db db'" for lib config cred mode
proof (unfold_locales, goal_cases)
  case (1 records db count db')
  from load_Inr [OF 1] show ?case by auto
next
  case (2 records db e db')
  from load_Inl [OF 2] show ?case by auto
qed

text \<open>A database with one table of one column, whose state is the list of its rows.\<close>

definition one_table :: "(row list, row list) sql_lib" where
  "one_table =
     \<lparr>sl_create_engine = (\<lambda>url. Inr ()), sl_select_1 = (\<lambda>url db. Inr ()),
      sl_columns = (\<lambda>url schema table db. Inr [''id'']), sl_begin = (\<lambda>url db. Inr db),
      sl_insert = (\<lambda>schema table rows tx. Inr (tx @ rows)), sl_commit = (\<lambda>tx db. (None, tx))\<rparr>"

definition table_config :: "(string \<times> json) list" where
  "table_config = [(''host'', JStr ''h''), (''database'', JStr ''d''), (''table_name'', JStr ''policies''),
     (''batch_size'', JInt 2)]"

definition three_rows :: "row list" where
  "three_rows = [[(''id'', JInt 1)], [(''id'', JInt 2)], [(''id'', JInt 3)]]"

lemma one_table_load: "load one_table table_config [] ''append'' three_rows [] = (Inr 3, three_rows)"
proof -
  have t: "load_target one_table table_config [] = Inr (''dbo'', ''policies'', 2,
      \<lparr>db_drivername = ''mssql+pyodbc'', db_username = JNull, db_password = JNull, db_host = JStr ''h'',
       db_port = JInt 1433, db_database = JStr ''d'',
       db_query = [(''driver'', JStr ''ODBC Driver 18 for SQL Server'')]\<rparr>)"
    by (simp add: load_target_def validate_sql_identifier_def identifier_match_def identifier_text_def
        identifier_char_def is_alpha_def is_digit_def Let_def require_def batch_size_of_def table_config_def
        get_or_def engine_def build_url_def update_query_def dict_merge_def one_table_def)
  have l: "load_transaction one_table url ''dbo'' ''policies'' 2 three_rows [] = (Inr 3, three_rows)" for url
    by (simp add: load_transaction_def one_table_def three_rows_def load_batches.simps)
  have "reflect_table one_table url ''dbo'' ''policies'' [] = Inr [''id'']" for url
    by (simp add: reflect_table_def one_table_def)
  moreover have "validate_columns [''id''] three_rows ''dbo'' ''policies'' = Inr ()"
    by (simp add: validate_columns_def record_columns_def three_rows_def)
  ultimately show ?thesis using t l by (simp add: load_def three_rows_def)
qed

text \<open>C14: A load is one transaction. It returns the number of the records only when one transaction
  that holds all of them, cut into non-empty batches of at most \<^verbatim>\<open>batch_size\<close> rows in their
  order, was committed; and whenever it fails, the destination is as it was, or that one commit
  had been asked for and the commit itself reported the error.\<close>

theorem load_is_one_transaction:
  assumes "load lib config cred mode records db = (r, db')" and "records \<noteq> []"
  shows "(case r of Inr count \<Rightarrow> count = length records \<and> commit_attempt lib config cred None records db db'
      | Inl e \<Rightarrow> db' = db \<or> (\<exists>err. e = load_error err \<and> commit_attempt lib config cred (Some err) records db db')) \<and>
    (\<forall>schema table n url. load_target lib config cred = Inr (schema, table, n, url) \<longrightarrow>
       concat (batches n records) = records \<and> (\<forall>b \<in> set (batches n records). b \<noteq> [] \<and> length b \<le> n))"
  using assms load_Inr [of lib config cred mode records db _ db'] load_Inl [of lib config cred mode records db _ db']
  by (auto simp: batches_partition dest: load_target_Inr batches_size split: sum.split)

theorem load_is_one_transaction_witness:
  "commit_attempt one_table table_config [] None three_rows [] three_rows"
  using load_is_one_transaction [OF one_table_load] by (simp add: three_rows_def)

text \<open>Nothing is written to a column the table does not have. A load that succeeds found every
  column of every record among the columns it read from the database, in an identifier-safe
  table; otherwise, and for any mode but append, the destination is not touched.\<close>

theorem load_only_known_columns:
  assumes "load lib config cred mode records db = (r, db')" and "db' \<noteq> db"
  shows "mode = ''append'' \<and> (\<exists>schema table n url known.
    load_target lib config cred = Inr (schema, table, n, url) \<and>
    identifier_match schema \<and> identifier_match table \<and>
    sl_columns lib url schema table db = Inr known \<and>
    (\<forall>record \<in> set records. fst ` set record \<subseteq> set known))"
proof -
  from assms obtain schema table n url known where
      t: "load_target lib config cred = Inr (schema, table, n, url)" and m: "mode = ''append''"
    and k: "reflect_table lib url schema table db = Inr known"
    and v: "validate_columns known records schema table = Inr ()"
    by (auto simp: load_def split: sum.splits prod.splits if_splits)
  have "identifier_match schema" "identifier_match table"
    using t by (auto simp: load_target_def result_simps dest: validate_sql_identifier_Inr)
  moreover have "sl_columns lib url schema table db = Inr known"
    using k by (auto simp: reflect_table_def split: sum.splits sql_error.splits)
  moreover have "\<forall>record \<in> set records. fst ` set record \<subseteq> set known"
    using v by (auto simp: validate_columns_def record_columns_def Let_def filter_empty_conv split: if_splits)
  ultimately show ?thesis using t m by blast
qed

theorem load_only_known_columns_witness:
  "fst ` set (concat three_rows) \<subseteq> {''id''}"
proof -
  have ne: "three_rows \<noteq> []" by (simp add: three_rows_def)
  show ?thesis using load_only_known_columns [OF one_table_load ne] by (auto simp: one_table_def)
qed

text \<open>Exactly which names are accepted as SQL identifiers: a letter or underscore followed by at
  most 127 letters, digits and underscores, and, against the stated rule, each of these with a
  newline behind it.\<close>

theorem identifier_exact:
  "validate_sql_identifier (JStr s) label = Inr t \<longleftrightarrow>
     t = s \<and> (\<exists>u. identifier_text u \<and> (s = u \<or> s = u @ [CHR 0x0A]))"
proof -
  have "identifier_match s \<longleftrightarrow> (\<exists>u. identifier_text u \<and> (s = u \<or> s = u @ [CHR 0x0A]))"
    unfolding identifier_match_def by (metis append_butlast_last_id butlast_snoc last_snoc snoc_eq_iff_butlast)
  then show ?thesis by (auto simp: validate_sql_identifier_def Let_def)
qed

end
