(* ===== verification/Models.thy ===== *)
theory Models
  imports SqlServer
begin

text \<open>
  The rows of a tenant's schema: \<^verbatim>\<open>apps/execution/models.py\<close>, \<^verbatim>\<open>apps/pipelines/models.py\<close>,
  \<^verbatim>\<open>apps/connections/models.py\<close>, \<^verbatim>\<open>apps/rawstore/models.py\<close> and
  \<^verbatim>\<open>apps/secrets/models.py\<close>, with the table operations of the ORM that the code uses: lookup by a
  key, \<^verbatim>\<open>save(update_fields=...)\<close> and \<^verbatim>\<open>create\<close>. A row in memory is a value of its own: what
  another worker writes to the table meanwhile does not show in it, and a save writes only the
  fields it names.
\<close>

subsection \<open>Tables\<close>

definition find_row :: "('r \<Rightarrow> 'k) \<Rightarrow> 'k \<Rightarrow> 'r list \<Rightarrow> 'r option" where
  "find_row key k rows = find (\<lambda>r. key r = k) rows"

definition update_row :: "('r \<Rightarrow> 'k) \<Rightarrow> 'k \<Rightarrow> ('r \<Rightarrow> 'r) \<Rightarrow> 'r list \<Rightarrow> 'r list" where
  "update_row key k f rows = map (\<lambda>r. if key r = k then f r else r) rows"

lemma find_row_key: "find_row key k rows = Some r \<Longrightarrow> key r = k \<and> r \<in> set rows"
  by (auto simp: find_row_def find_Some_iff)

lemma find_row_None: "find_row key k rows = None \<longleftrightarrow> k \<notin> key ` set rows"
  by (auto simp: find_row_def find_None_iff)

lemma find_update_row:
  assumes "\<And>r. key (f r) = key r"
  shows "find_row key k' (update_row key k f rows) =
    (if k' = k then map_option f (find_row key k rows) else find_row key k' rows)"
  using assms by (induction rows) (auto simp: find_row_def update_row_def)

lemma find_row_append:
  "find_row key k (rows @ [r]) =
     (case find_row key k rows of Some r' \<Rightarrow> Some r' | None \<Rightarrow> if key r = k then Some r else None)"
  by (induction rows) (auto simp: find_row_def)

lemma update_row_keys [simp]:
  "(\<And>r. key (f r) = key r) \<Longrightarrow> map key (update_row key k f rows) = map key rows"
  by (auto simp: update_row_def)

lemma update_row_length [simp]: "length (update_row key k f rows) = length rows"
  by (simp add: update_row_def)

lemma in_update_row:
  "r' \<in> set (update_row key k f rows) \<longleftrightarrow>
     (\<exists>r \<in> set rows. r' = (if key r = k then f r else r))"
  by (simp only: update_row_def set_map image_iff)

subsection \<open>Execution state\<close>

type_synonym uuid = string
type_synonym timestamp = nat

datatype run_status = PENDING | RUNNING | SUCCEEDED | FAILED

fun status_text :: "run_status \<Rightarrow> string" where
  "status_text PENDING = ''pending''"
| "status_text RUNNING = ''running''"
| "status_text SUCCEEDED = ''succeeded''"
| "status_text FAILED = ''failed''"

text \<open>The life of a run: from pending to running to one of the two terminal states.\<close>

instantiation run_status :: order
begin

fun less_eq_run_status :: "run_status \<Rightarrow> run_status \<Rightarrow> bool" where
  "PENDING \<le> s = True"
| "RUNNING \<le> s = (s \<noteq> PENDING)"
| "SUCCEEDED \<le> s = (s = SUCCEEDED)"
| "FAILED \<le> s = (s = FAILED)"

definition less_run_status :: "run_status \<Rightarrow> run_status \<Rightarrow> bool" where
  "less_run_status s t = (s \<le> t \<and> s \<noteq> t)"

instance
proof
  fix x y z :: run_status
  show "(x < y) = (x \<le> y \<and> \<not> y \<le> x)"
    by (cases x; cases y; simp add: less_run_status_def)
  show "x \<le> x" by (cases x; simp)
  show "x \<le> y \<Longrightarrow> y \<le> z \<Longrightarrow> x \<le> z" by (cases x; cases y; simp)
  show "x \<le> y \<Longrightarrow> y \<le> x \<Longrightarrow> x = y" by (cases x; cases y; simp)
qed

end

definition terminal :: "run_status \<Rightarrow> bool" where
  "terminal s = (s \<in> {SUCCEEDED, FAILED})"

lemma terminal_maximal: "terminal s \<Longrightarrow> s \<le> t \<Longrightarrow> t = s"
  by (auto simp: terminal_def)

lemma terminal_simps [simp]:
  "\<not> terminal PENDING" "\<not> terminal RUNNING" "terminal SUCCEEDED" "terminal FAILED"
  by (simp_all add: terminal_def)

datatype trigger = MANUAL | SCHEDULED

record pipeline_run =
  pr_id :: uuid
  pr_pipeline_id :: uuid
  pr_status :: run_status
  pr_trigger :: trigger
  pr_idempotency_key :: string
  pr_started_at :: "timestamp option"
  pr_finished_at :: "timestamp option"
  pr_continued_from :: "uuid option"
  pr_attempt :: nat
  pr_celery_task_id :: "string option"
  pr_last_successful_cursor :: "string option"
  pr_pages_extracted :: nat
  pr_records_extracted :: nat
  pr_records_loaded :: nat
  pr_raw_payload_count :: nat
  pr_error_category :: "string option"
  pr_error_message :: "string option"
  pr_error_is_retryable :: "bool option"
  pr_updated_at :: timestamp

datatype task_step = EXTRACT_STEP | LOAD_STEP | RUN_STEP

record task_execution =
  te_id :: uuid
  te_run :: uuid
  te_step :: task_step
  te_status :: run_status
  te_attempt :: nat
  te_started_at :: "timestamp option"
  te_finished_at :: "timestamp option"
  te_error_message :: "string option"
  te_updated_at :: timestamp

subsection \<open>Configuration rows\<close>

datatype connection_kind = SOURCE | DESTINATION

record connection =
  cn_id :: uuid
  cn_name :: string
  cn_kind :: connection_kind
  cn_connector_type :: string
  cn_config :: "(string \<times> json) list"

record credential_row =
  cr_connection :: uuid
  cr_auth_provider_type :: string
  cr_secret_ref :: string

record encrypted_secret =
  es_id :: uuid
  es_ciphertext :: bytes

record pipeline =
  pl_id :: uuid
  pl_name :: string
  pl_source_connection :: uuid
  pl_destination_connection :: uuid
  pl_extraction_config :: "(string \<times> json) list"
  pl_destination_mapping :: "(string \<times> string) list"
  pl_strict_mapping :: bool
  pl_schedule_cron :: "string option"
  pl_is_active :: bool

record raw_payload_record =
  rp_id :: uuid
  rp_run :: uuid
  rp_storage_uri :: string
  rp_content_type :: string
  rp_size_bytes :: nat
  rp_checksum :: string
  rp_sequence :: nat
  rp_loaded :: bool
  rp_cursor_used :: "string option"
  rp_next_cursor :: "string option"
  rp_item_count :: nat
  rp_source_path :: string
  rp_http_status :: "int option"
  rp_updated_at :: timestamp

subsection \<open>The tenant's schema\<close>

text \<open>The tables, the clock that \<^verbatim>\<open>timezone.now()\<close> reads, the number of identifiers drawn, the
  rows that other transactions hold locked, and the tasks given to the broker: the schema and
  the run.\<close>

record world =
  w_runs :: "pipeline_run list"
  w_tasks :: "task_execution list"
  w_raw :: "raw_payload_record list"
  w_pipelines :: "pipeline list"
  w_connections :: "connection list"
  w_credentials :: "credential_row list"
  w_secrets :: "encrypted_secret list"
  w_clock :: timestamp
  w_drawn :: nat
  w_locked :: "uuid list"
  w_broker :: "(string \<times> uuid) list"

definition get_run :: "world \<Rightarrow> uuid \<Rightarrow> pipeline_run option" where
  "get_run w i = find_row pr_id i (w_runs w)"

definition get_pipeline :: "world \<Rightarrow> uuid \<Rightarrow> pipeline option" where
  "get_pipeline w i = find_row pl_id i (w_pipelines w)"

definition get_connection :: "world \<Rightarrow> uuid \<Rightarrow> connection option" where
  "get_connection w i = find_row cn_id i (w_connections w)"

text \<open>\<^verbatim>\<open>uuid4()\<close>: the next identifier of the ids.\<close>

definition uuid4 :: "(nat \<Rightarrow> uuid) \<Rightarrow> world \<Rightarrow> uuid \<times> world" where
  "uuid4 ids w = (ids (w_drawn w), w\<lparr>w_drawn := w_drawn w + 1\<rparr>)"

text \<open>\<^verbatim>\<open>save(update_fields=fields)\<close> of a run in memory: the row with its id gets the named fields,
  given as the function that copies them, and a new \<^verbatim>\<open>updated_at\<close>; when the row is gone,
  Django raises \<^verbatim>\<open>DatabaseError\<close>.\<close>

definition save_run :: "(pipeline_run \<Rightarrow> pipeline_run \<Rightarrow> pipeline_run) \<Rightarrow> pipeline_run \<Rightarrow> world \<Rightarrow> exn + world" where
  "save_run copy run w =
     (case get_run w (pr_id run) of
        None \<Rightarrow> Inl (PyExn DatabaseError ''Save with update_fields did not affect any rows.'')
      | Some row \<Rightarrow> Inr (w\<lparr>w_runs := update_row pr_id (pr_id run)
          (\<lambda>row. (copy run row)\<lparr>pr_updated_at := w_clock w\<rparr>) (w_runs w)\<rparr>))"

definition save_task ::
  "(task_execution \<Rightarrow> task_execution \<Rightarrow> task_execution) \<Rightarrow> task_execution \<Rightarrow> world \<Rightarrow> exn + world" where
  "save_task copy te w =
     (case find_row te_id (te_id te) (w_tasks w) of
        None \<Rightarrow> Inl (PyExn DatabaseError ''Save with update_fields did not affect any rows.'')
      | Some row \<Rightarrow> Inr (w\<lparr>w_tasks := update_row te_id (te_id te)
          (\<lambda>row. (copy te row)\<lparr>te_updated_at := w_clock w\<rparr>) (w_tasks w)\<rparr>))"

definition save_raw ::
  "(raw_payload_record \<Rightarrow> raw_payload_record \<Rightarrow> raw_payload_record) \<Rightarrow> raw_payload_record \<Rightarrow> world \<Rightarrow>
   exn + world" where
  "save_raw copy r w =
     (case find_row rp_id (rp_id r) (w_raw w) of
        None \<Rightarrow> Inl (PyExn DatabaseError ''Save with update_fields did not affect any rows.'')
      | Some row \<Rightarrow> Inr (w\<lparr>w_raw := update_row rp_id (rp_id r)
          (\<lambda>row. (copy r row)\<lparr>rp_updated_at := w_clock w\<rparr>) (w_raw w)\<rparr>))"

text \<open>The tables a save leaves alone.\<close>

lemma save_run_frame:
  "save_run copy run w = Inr w' \<Longrightarrow>
   w' = w\<lparr>w_runs := w_runs w'\<rparr> \<and> length (w_runs w') = length (w_runs w)"
  by (auto simp: save_run_def split: option.splits)

lemma save_run_get:
  assumes "save_run copy run w = Inr w'" and "\<And>row. pr_id (copy run row) = pr_id row"
  shows "get_run w' i = (if i = pr_id run
      then map_option (\<lambda>row. (copy run row)\<lparr>pr_updated_at := w_clock w\<rparr>) (get_run w i) else get_run w i)"
  using assms(1)
  by (auto simp: save_run_def get_run_def find_update_row assms(2) split: option.splits)

lemma save_task_frame:
  "save_task copy te w = Inr w' \<Longrightarrow> w' = w\<lparr>w_tasks := w_tasks w'\<rparr>"
  by (auto simp: save_task_def split: option.splits)

lemma save_raw_frame:
  "save_raw copy r w = Inr w' \<Longrightarrow> w' = w\<lparr>w_raw := w_raw w'\<rparr>"
  by (auto simp: save_raw_def split: option.splits)

end
