(* ===== verification/S3Store.thy ===== *)
theory S3Store
  imports Models
begin

text \<open>
  \<^verbatim>\<open>apps/rawstore/backends/s3.py\<close>: the immutable raw payload store. boto3 and the object
  storage behind it are the parameter \<open>s3_lib\<close> on a state of objects; \<open>s3_laws\<close> states what S3
  documents of them. The backend's own state is its cache of tenant identifiers.
\<close>

subsection \<open>The storage client\<close>

datatype s3_error =
    ClientError "string option" "int option" string \<comment> \<open>code, HTTP status, text\<close>
  | OtherS3Error exn

record 's s3_lib =
  s3_put :: "string \<Rightarrow> string \<Rightarrow> bytes \<Rightarrow> string \<Rightarrow> bool \<Rightarrow> 's \<Rightarrow> (s3_error + unit) \<times> 's"
    \<comment> \<open>bucket, key, body, content type, \<open>IfNoneMatch\<close>\<close>
  s3_head :: "string \<Rightarrow> string \<Rightarrow> 's \<Rightarrow> s3_error + int option" \<comment> \<open>\<open>ContentLength\<close>\<close>
  s3_get :: "string \<Rightarrow> string \<Rightarrow> 's \<Rightarrow> s3_error + bytes \<times> string option"
  s3_list_buckets :: "'s \<Rightarrow> s3_error + string list"
  s3_create_bucket :: "string \<Rightarrow> 's \<Rightarrow> (s3_error + unit) \<times> 's"
  sha256 :: "bytes \<Rightarrow> string" \<comment> \<open>hexadecimal\<close>

fun reraise :: "s3_error \<Rightarrow> exn" where
  "reraise (ClientError code status msg) = PyExn OtherException msg"
| "reraise (OtherS3Error e) = e"

record store_env =
  se_bucket :: string
  se_orgs :: "(string \<times> uuid) list" \<comment> \<open>schema name, tenant UUID\<close>
  se_schema :: string \<comment> \<open>of the connection\<close>

type_synonym uuid_cache = "(string \<times> uuid) list"

definition uri_scheme :: string where
  "uri_scheme = ''s3://''"

subsection \<open>Keys and URIs\<close>

definition raw_suffix :: string where
  "raw_suffix = ''.raw''"

definition filename_of :: "string \<Rightarrow> string" where
  "filename_of key = snd (snd (rpartition_char (CHR ''/'') key))"

definition checksum_from_key :: "string \<Rightarrow> string option" where
  "checksum_from_key key =
     (let filename = filename_of key in
      if \<not> ends_with filename raw_suffix then None
      else (let stem = take (length filename - length raw_suffix) filename in
            case partition_char (CHR ''-'') stem of (_, sep, checksum) \<Rightarrow>
              if \<not> sep \<or> length checksum \<noteq> 64 then None else Some checksum))"

definition object_uri :: "store_env \<Rightarrow> string \<Rightarrow> string" where
  "object_uri env key = uri_scheme @ se_bucket env @ ''/'' @ key"

definition parse_uri :: "store_env \<Rightarrow> string \<Rightarrow> exn + string \<times> string" where
  "parse_uri env uri =
     (let bad = Inl (raw_payload_access_denied (''not a valid raw payload URI: '' @ py_repr uri)) in
      if \<not> starts_with uri uri_scheme then bad
      else (case partition_char (CHR ''/'') (drop (length uri_scheme) uri) of (bucket, _, key) \<Rightarrow>
        if bucket = [] \<or> key = [] then bad
        else if bucket \<noteq> se_bucket env
        then Inl (raw_payload_access_denied (''refusing to read from bucket '' @ py_repr bucket @
               ''; only '' @ py_repr (se_bucket env) @ '' is configured''))
        else Inr (bucket, key)))"

subsection \<open>The tenant\<close>

definition tenant_uuid :: "store_env \<Rightarrow> uuid_cache \<Rightarrow> (exn + uuid) \<times> uuid_cache" where
  "tenant_uuid env cache =
     (case map_of cache (se_schema env) of
        Some cached \<Rightarrow> (Inr cached, cache)
      | None \<Rightarrow>
          (case map_of (se_orgs env) (se_schema env) of
             None \<Rightarrow> (Inl (configuration_error (''no Organization found for schema '' @
                       py_repr (se_schema env) @ ''; raw payload storage requires an active tenant schema'')), cache)
           | Some u \<Rightarrow> (Inr u, AList.update (se_schema env) u cache)))"

definition tenant_key :: "uuid \<Rightarrow> string \<Rightarrow> string" where
  "tenant_key tenant key = tenant @ ''/'' @ key"

subsection \<open>Provisioning and existence\<close>

definition ensure_bucket :: "store_env \<Rightarrow> 's s3_lib \<Rightarrow> 's \<Rightarrow> (exn + unit) \<times> 's" where
  "ensure_bucket env lib s =
     (case s3_list_buckets lib s of
        Inl e \<Rightarrow> (Inl (reraise e), s)
      | Inr existing \<Rightarrow>
          if se_bucket env \<notin> set existing
          then (case s3_create_bucket lib (se_bucket env) s of
                  (Inl e, s') \<Rightarrow> (Inl (reraise e), s')
                | (Inr _, s') \<Rightarrow> (Inr (), s'))
          else (Inr (), s))"

definition no_bucket :: "store_env \<Rightarrow> exn" where
  "no_bucket env = configuration_error (''raw payload bucket '' @ py_repr (se_bucket env) @
     '' does not exist; run `manage.py provision_raw_store` before running pipelines'')"

definition not_found_codes :: "string list" where
  "not_found_codes = [''404'', ''NoSuchKey'', ''NotFound'']"

definition object_exists :: "store_env \<Rightarrow> 's s3_lib \<Rightarrow> string \<Rightarrow> 's \<Rightarrow> exn + bool" where
  "object_exists env lib key s =
     (case s3_head lib (se_bucket env) key s of
        Inr _ \<Rightarrow> Inr True
      | Inl (ClientError (Some code) status msg) \<Rightarrow>
          if code \<in> set not_found_codes then Inr False
          else if code = ''NoSuchBucket'' then Inl (no_bucket env)
          else Inl (reraise (ClientError (Some code) status msg))
      | Inl e \<Rightarrow> Inl (reraise e))"

subsection \<open>Writing\<close>

definition put_check_then_write ::
  "store_env \<Rightarrow> 's s3_lib \<Rightarrow> string \<Rightarrow> bytes \<Rightarrow> string \<Rightarrow> 's \<Rightarrow> (exn + bool) \<times> 's" where
  "put_check_then_write env lib key data content_type s =
     (case object_exists env lib key s of
        Inl e \<Rightarrow> (Inl e, s)
      | Inr True \<Rightarrow> (Inr False, s)
      | Inr False \<Rightarrow>
          (case s3_put lib (se_bucket env) key data content_type False s of
             (Inr _, s') \<Rightarrow> (Inr True, s')
           | (Inl (ClientError code status msg), s') \<Rightarrow>
               (Inl (if code = Some ''NoSuchBucket'' then no_bucket env
                     else reraise (ClientError code status msg)), s')
           | (Inl e, s') \<Rightarrow> (Inl (reraise e), s')))"

definition conditional_write_unsupported :: "string option \<Rightarrow> int option \<Rightarrow> bool" where
  "conditional_write_unsupported code status =
     (code \<in> {Some ''NotImplemented'', Some ''XNotImplemented'', Some ''InvalidArgument''} \<or>
      status \<in> {Some 400, Some 501})"

definition put_create_only ::
  "store_env \<Rightarrow> 's s3_lib \<Rightarrow> string \<Rightarrow> bytes \<Rightarrow> string \<Rightarrow> 's \<Rightarrow> (exn + bool) \<times> 's" where
  "put_create_only env lib key data content_type s =
     (case s3_put lib (se_bucket env) key data content_type True s of
        (Inr _, s') \<Rightarrow> (Inr True, s')
      | (Inl (ClientError code status msg), s') \<Rightarrow>
          if code = Some ''PreconditionFailed'' \<or> status = Some 412 then (Inr False, s')
          else if code = Some ''NoSuchBucket'' then (Inl (no_bucket env), s')
          else if conditional_write_unsupported code status
          then put_check_then_write env lib key data content_type s'
          else (Inl (reraise (ClientError code status msg)), s')
      | (Inl e, s') \<Rightarrow> (Inl (reraise e), s'))"

definition verify_existing_object :: "store_env \<Rightarrow> 's s3_lib \<Rightarrow> string \<Rightarrow> bytes \<Rightarrow> 's \<Rightarrow> exn + unit" where
  "verify_existing_object env lib key data s =
     (case s3_head lib (se_bucket env) key s of
        Inl (ClientError code status msg) \<Rightarrow>
          (case code of
             Some c \<Rightarrow>
               if c \<in> set not_found_codes
               then Inl (raw_payload_integrity_error (''raw payload object at '' @ py_repr key @
                      '' vanished between the create-only write and post-write verification''))
               else Inl (reraise (ClientError code status msg))
           | None \<Rightarrow> Inl (reraise (ClientError code status msg)))
      | Inl e \<Rightarrow> Inl (reraise e)
      | Inr None \<Rightarrow> Inr ()
      | Inr (Some existing_size) \<Rightarrow>
          if existing_size \<noteq> int (length data)
          then Inl (raw_payload_integrity_error (''raw payload object at '' @ py_repr key @
                 '' already exists with a different size ('' @ str_of_int existing_size @ '' bytes stored vs '' @
                 str_of_nat (length data) @ '' bytes being written) despite an identical content-addressed '' @
                 ''key -- refusing to treat this as a safe reuse''))
          else Inr ())"

definition store_put ::
  "store_env \<Rightarrow> 's s3_lib \<Rightarrow> string \<Rightarrow> bytes \<Rightarrow> string \<Rightarrow> uuid_cache \<times> 's \<Rightarrow>
   (exn + string) \<times> uuid_cache \<times> 's" where
  "store_put env lib key data content_type st =
     (case st of (cache, s) \<Rightarrow>
      (case tenant_uuid env cache of
         (Inl e, cache') \<Rightarrow> (Inl e, cache', s)
       | (Inr tenant, cache') \<Rightarrow>
           (case put_create_only env lib (tenant_key tenant key) data content_type s of
              (Inl e, s') \<Rightarrow> (Inl e, cache', s')
            | (Inr written, s') \<Rightarrow>
                (ebind (if written then Inr () else verify_existing_object env lib (tenant_key tenant key) data s')
                   (\<lambda>_. Inr (object_uri env (tenant_key tenant key))), cache', s'))))"

subsection \<open>Reading\<close>

definition parse_and_authorize ::
  "store_env \<Rightarrow> string \<Rightarrow> uuid_cache \<Rightarrow> (exn + string \<times> string) \<times> uuid_cache" where
  "parse_and_authorize env uri cache =
     (case parse_uri env uri of
        Inl e \<Rightarrow> (Inl e, cache)
      | Inr (bucket, key) \<Rightarrow>
          (let tenant_prefix = fst (partition_char (CHR ''/'') key) in
           case tenant_uuid env cache of
             (Inl e, cache') \<Rightarrow> (Inl e, cache')
           | (Inr tenant, cache') \<Rightarrow>
               if tenant_prefix \<noteq> tenant
               then (Inl (raw_payload_access_denied
                      ''refusing to read a raw payload belonging to a different tenant''), cache')
               else (Inr (bucket, key), cache')))"

definition store_get ::
  "store_env \<Rightarrow> 's s3_lib \<Rightarrow> string \<Rightarrow> uuid_cache \<times> 's \<Rightarrow> (exn + bytes) \<times> uuid_cache" where
  "store_get env lib uri st =
     (case st of (cache, s) \<Rightarrow>
      (case parse_and_authorize env uri cache of
         (Inl e, cache') \<Rightarrow> (Inl e, cache')
       | (Inr (bucket, key), cache') \<Rightarrow>
           (case s3_get lib bucket key s of
              Inl e \<Rightarrow> (Inl (reraise e), cache')
            | Inr (data, _) \<Rightarrow>
                (case checksum_from_key key of
                   None \<Rightarrow> (Inr data, cache')
                 | Some expected \<Rightarrow>
                     if sha256 lib data \<noteq> expected
                     then (Inl (raw_payload_integrity_error (''raw payload at '' @ py_repr uri @
                            '' failed checksum verification on read (expected '' @ expected @ '', got '' @
                            sha256 lib data @ '') -- this indicates storage-layer corruption or an object '' @
                            ''modified outside this platform, not an application-level mutation (see '' @
                            ''docs/decisions/0007-raw-payload-immutability.md for the application-level vs. '' @
                            ''storage-level boundary)'')), cache')
                     else (Inr data, cache')))))"

text \<open>For the migration only: any key of the bucket.\<close>

definition get_raw_by_key :: "store_env \<Rightarrow> 's s3_lib \<Rightarrow> string \<Rightarrow> 's \<Rightarrow> exn + bytes \<times> string option" where
  "get_raw_by_key env lib key s =
     (case s3_get lib (se_bucket env) key s of Inl e \<Rightarrow> Inl (reraise e) | Inr r \<Rightarrow> Inr r)"

definition key_exists :: "store_env \<Rightarrow> 's s3_lib \<Rightarrow> string \<Rightarrow> 's \<Rightarrow> exn + bool" where
  "key_exists env lib key s = object_exists env lib key s"

subsection \<open>What S3 documents\<close>

text \<open>\<open>obj s bucket key\<close> is the object stored under a key. A write that succeeds stores its body
  and nothing else, a conditional one only where nothing was. A write that raises, by an error
  answer, a timeout or a lost connection, leaves every other object; the object of its key is
  what it was or, when the write went through and only its answer was lost, the body, and for a
  conditional write that is possible only where nothing was. What is read is what is stored.\<close>

definition s3_laws :: "'s s3_lib \<Rightarrow> ('s \<Rightarrow> string \<Rightarrow> string \<Rightarrow> bytes option) \<Rightarrow> bool" where
  "s3_laws lib obj =
     ((\<forall>b k d ct c s s' u. s3_put lib b k d ct c s = (Inr u, s') \<longrightarrow>
         (c \<longrightarrow> obj s b k = None) \<and>
         (\<forall>b' k'. obj s' b' k' = (if b' = b \<and> k' = k then Some d else obj s b' k'))) \<and>
      (\<forall>b k d ct c s s' e. s3_put lib b k d ct c s = (Inl e, s') \<longrightarrow>
         (\<forall>b' k'. obj s' b' k' = obj s b' k' \<or>
            b' = b \<and> k' = k \<and> obj s' b' k' = Some d \<and> (c \<longrightarrow> obj s b k = None))) \<and>
      (\<forall>b k s sz. s3_head lib b k s = Inr sz \<longrightarrow>
         (\<exists>d. obj s b k = Some d \<and> sz \<in> {None, Some (int (length d))})) \<and>
      (\<forall>b k s code status msg. s3_head lib b k s = Inl (ClientError (Some code) status msg) \<longrightarrow>
         code \<in> set not_found_codes \<longrightarrow> obj s b k = None) \<and>
      (\<forall>b k s d ct. s3_get lib b k s = Inr (d, ct) \<longrightarrow> obj s b k = Some d))"

definition s3_serves :: "'s s3_lib \<Rightarrow> ('s \<Rightarrow> string \<Rightarrow> string \<Rightarrow> bytes option) \<Rightarrow> 's \<Rightarrow> bool" where
  "s3_serves lib obj s = (\<forall>b k d. obj s b k = Some d \<longrightarrow> (\<exists>ct. s3_get lib b k s = Inr (d, ct)))"

lemma put_ok:
  "s3_laws lib obj \<Longrightarrow> s3_put lib b k d ct c s = (Inr u, s') \<Longrightarrow>
   (c \<longrightarrow> obj s b k = None) \<and> (\<forall>b' k'. obj s' b' k' = (if b' = b \<and> k' = k then Some d else obj s b' k'))"
  unfolding s3_laws_def by (elim conjE) (metis (no_types))

lemma put_failed:
  "s3_laws lib obj \<Longrightarrow> s3_put lib b k d ct c s = (Inl e, s') \<Longrightarrow>
   obj s' b' k' = obj s b' k' \<or> b' = b \<and> k' = k \<and> obj s' b' k' = Some d \<and> (c \<longrightarrow> obj s b k = None)"
  unfolding s3_laws_def by (elim conjE) (metis (no_types))

lemma head_ok:
  "s3_laws lib obj \<Longrightarrow> s3_head lib b k s = Inr sz \<Longrightarrow>
   \<exists>d. obj s b k = Some d \<and> sz \<in> {None, Some (int (length d))}"
  unfolding s3_laws_def by (elim conjE) (metis (no_types))

lemma head_missing:
  "s3_laws lib obj \<Longrightarrow> s3_head lib b k s = Inl (ClientError (Some code) status msg) \<Longrightarrow>
   code \<in> set not_found_codes \<Longrightarrow> obj s b k = None"
  unfolding s3_laws_def by (elim conjE) (metis (no_types))

lemma get_ok: "s3_laws lib obj \<Longrightarrow> s3_get lib b k s = Inr (d, ct) \<Longrightarrow> obj s b k = Some d"
  unfolding s3_laws_def by (elim conjE) (metis (no_types))

lemma object_exists_iff:
  "s3_laws lib obj \<Longrightarrow> object_exists env lib k s = Inr r \<Longrightarrow> r = (obj s (se_bucket env) k \<noteq> None)"
  by (auto simp: object_exists_def split: sum.splits s3_error.splits option.splits if_splits
      dest: head_ok head_missing)

text \<open>A write leaves every other object, and the object that is there; where nothing was, nothing
  or the data is; and a reported write stored the data where nothing was.\<close>

definition grows ::
  "('s \<Rightarrow> string \<Rightarrow> string \<Rightarrow> bytes option) \<Rightarrow> store_env \<Rightarrow> string \<Rightarrow> bytes \<Rightarrow> bool \<Rightarrow> 's \<Rightarrow> 's \<Rightarrow> bool" where
  "grows obj env key data written s s' =
     ((\<forall>b k. obj s' b k = obj s b k \<or>
         b = se_bucket env \<and> k = key \<and> obj s b k = None \<and> obj s' b k = Some data) \<and>
      (written \<longrightarrow> obj s (se_bucket env) key = None \<and> obj s' (se_bucket env) key = Some data))"

lemma growsI:
  assumes "\<And>b k. obj s' b k = obj s b k \<or> b = se_bucket env \<and> k = key \<and> obj s b k = None \<and> obj s' b k = Some data"
    and "written \<Longrightarrow> obj s (se_bucket env) key = None"
    and "written \<Longrightarrow> obj s' (se_bucket env) key = Some data"
  shows "grows obj env key data written s s'"
  using assms unfolding grows_def by blast

lemma grows_old: "grows obj env key data written s s' \<Longrightarrow> obj s b k = Some d \<Longrightarrow> obj s' b k = Some d"
  unfolding grows_def by (metis option.distinct(1))

lemma grows_new:
  "grows obj env key data written s s' \<Longrightarrow> obj s' b k \<noteq> obj s b k \<Longrightarrow>
   b = se_bucket env \<and> k = key \<and> obj s' b k = Some data"
  unfolding grows_def by metis

lemma grows_written: "grows obj env key data True s s' \<Longrightarrow> obj s' (se_bucket env) key = Some data"
  unfolding grows_def by blast

lemma grows_trans:
  assumes a: "grows obj env key data False s s1" and b: "grows obj env key data written s1 s'"
  shows "grows obj env key data written s s'"
proof (rule growsI)
  fix c k
  show "obj s' c k = obj s c k \<or> c = se_bucket env \<and> k = key \<and> obj s c k = None \<and> obj s' c k = Some data"
    using a b unfolding grows_def by (metis option.distinct(1))
next
  assume w: written
  then have "obj s1 (se_bucket env) key = None" using b unfolding grows_def by blast
  with grows_old [OF a, of "se_bucket env" key] show "obj s (se_bucket env) key = None"
    by (cases "obj s (se_bucket env) key") auto
  show "obj s' (se_bucket env) key = Some data" using b w unfolding grows_def by blast
qed

lemma put_ok_grows:
  assumes "s3_laws lib obj" "s3_put lib (se_bucket env) key data ct c s = (Inr u, s')"
    and "\<not> c \<Longrightarrow> obj s (se_bucket env) key = None"
  shows "grows obj env key data True s s'"
proof (rule growsI)
  note p = put_ok [OF assms(1,2)]
  show none: "obj s (se_bucket env) key = None" using p assms(3) by blast
  show "obj s' (se_bucket env) key = Some data" using p by simp
  show "obj s' b k = obj s b k \<or> b = se_bucket env \<and> k = key \<and> obj s b k = None \<and> obj s' b k = Some data" for b k
    using p none by simp
qed

lemma put_failed_grows:
  assumes "s3_laws lib obj" "s3_put lib (se_bucket env) key data ct c s = (Inl e, s')"
    and "\<not> c \<Longrightarrow> obj s (se_bucket env) key = None"
  shows "grows obj env key data False s s'"
proof (rule growsI)
  show "obj s' b k = obj s b k \<or> b = se_bucket env \<and> k = key \<and> obj s b k = None \<and> obj s' b k = Some data" for b k
    using put_failed [OF assms(1,2), of b k] assms(3) by (cases c) auto
qed simp_all

lemma put_check_then_write_grows:
  assumes laws: "s3_laws lib obj" and p: "put_check_then_write env lib key data ct s = (r, s')"
  shows "grows obj env key data (r = Inr True) s s'"
proof (cases "object_exists env lib key s = Inr False")
  case False
  with p show ?thesis
    by (auto simp: put_check_then_write_def grows_def split: sum.splits bool.splits)
next
  case True
  with object_exists_iff [OF laws True] have none: "obj s (se_bucket env) key = None" by simp
  obtain q s1 where q: "s3_put lib (se_bucket env) key data ct False s = (q, s1)" by fastforce
  show ?thesis
  proof (cases q)
    case (Inr u)
    with p True q put_ok_grows [OF laws q [unfolded Inr] none] show ?thesis
      by (simp add: put_check_then_write_def)
  next
    case (Inl e)
    with p True q have "s' = s1" "r \<noteq> Inr True"
      by (auto simp: put_check_then_write_def split: s3_error.splits)
    with put_failed_grows [OF laws q [unfolded Inl] none] show ?thesis by simp
  qed
qed

lemma put_create_only_grows:
  assumes laws: "s3_laws lib obj" and r: "put_create_only env lib key data ct s = (r, s')"
  shows "grows obj env key data (r = Inr True) s s'"
proof -
  obtain p s1 where p: "s3_put lib (se_bucket env) key data ct True s = (p, s1)" by fastforce
  show ?thesis
  proof (cases p)
    case (Inr u)
    have "grows obj env key data True s s1" by (rule put_ok_grows [OF laws p [unfolded Inr]]) simp
    with r p Inr show ?thesis by (simp add: put_create_only_def)
  next
    case (Inl e)
    have failed: "grows obj env key data False s s1" by (rule put_failed_grows [OF laws p [unfolded Inl]]) simp
    show ?thesis
    proof (cases "put_check_then_write env lib key data ct s1 = (r, s')")
      case True
      from grows_trans [OF failed put_check_then_write_grows [OF laws this]] show ?thesis .
    next
      case False
      with r p Inl have "s' = s1" "r \<noteq> Inr True"
        by (auto simp: put_create_only_def split: s3_error.splits if_splits)
      with failed show ?thesis by simp
    qed
  qed
qed

text \<open>What one \<^verbatim>\<open>put\<close> does.\<close>

lemma store_put_cases:
  assumes laws: "s3_laws lib obj"
    and p: "store_put env lib key data ct (cache, s) = (r, cache', s')"
  shows "(\<exists>e. tenant_uuid env cache = (Inl e, cache') \<and> r = Inl e \<and> s' = s) \<or>
    (\<exists>tenant written. tenant_uuid env cache = (Inr tenant, cache') \<and>
       grows obj env (tenant_key tenant key) data written s s' \<and>
       (\<forall>uri. r = Inr uri \<longrightarrow> uri = object_uri env (tenant_key tenant key) \<and>
          (written \<or> verify_existing_object env lib (tenant_key tenant key) data s' = Inr ())))"
proof (cases "fst (tenant_uuid env cache)")
  case (Inl e)
  with p show ?thesis by (auto simp: store_put_def split: prod.splits)
next
  case (Inr tenant)
  then obtain c1 where t: "tenant_uuid env cache = (Inr tenant, c1)" by (metis prod.collapse)
  obtain w s1 where w: "put_create_only env lib (tenant_key tenant key) data ct s = (w, s1)" by fastforce
  have g: "grows obj env (tenant_key tenant key) data (w = Inr True) s s1"
    by (rule put_create_only_grows [OF laws w])
  have s': "s' = s1" "cache' = c1"
    using p t w by (auto simp: store_put_def split: sum.splits)
  show ?thesis
  proof (rule disjI2, intro exI conjI allI impI)
    show "tenant_uuid env cache = (Inr tenant, cache')" using t s' by simp
    show "grows obj env (tenant_key tenant key) data (w = Inr True) s s'" using g s' by simp
    fix uri assume r: "r = Inr uri"
    show "uri = object_uri env (tenant_key tenant key)"
      using p t w r by (auto simp: store_put_def result_simps split: sum.splits)
    show "w = Inr True \<or> verify_existing_object env lib (tenant_key tenant key) data s' = Inr ()"
      using p t w r s' by (auto simp: store_put_def result_simps split: sum.splits if_splits)
  qed
qed

lemma tenant_uuid_cached:
  "tenant_uuid env cache = (Inr t, cache') \<Longrightarrow> tenant_uuid env cache' = (Inr t, cache')"
  by (auto simp: tenant_uuid_def update_conv' split: option.splits)

lemma verify_existing_length:
  "s3_laws lib obj \<Longrightarrow> verify_existing_object env lib key data s = Inr () \<Longrightarrow>
   \<exists>d. obj s (se_bucket env) key = Some d \<and>
     (s3_head lib (se_bucket env) key s \<noteq> Inr None \<longrightarrow> length d = length data)"
  by (auto simp: verify_existing_object_def split: sum.splits s3_error.splits option.splits if_splits dest: head_ok)

lemma parse_object_uri:
  assumes "se_bucket env \<noteq> []" "CHR ''/'' \<notin> set (se_bucket env)" "key \<noteq> []"
  shows "parse_uri env (object_uri env key) = Inr (se_bucket env, key)"
  using assms by (simp add: parse_uri_def object_uri_def partition_char_append)

lemma parse_uri_Inr: "parse_uri env uri = Inr (b, key) \<Longrightarrow> b = se_bucket env \<and> uri = object_uri env key \<and> key \<noteq> []"
  by (auto simp: parse_uri_def object_uri_def Let_def starts_with_def split: prod.splits if_splits
      dest!: partition_char_parts) (metis append_take_drop_id)

text \<open>An in-memory object storage with conditional writes.\<close>

definition memory_s3 :: "((string \<times> string) \<times> bytes) list s3_lib" where
  "memory_s3 =
     \<lparr>s3_put = (\<lambda>b k d ct c s. if c \<and> map_of s (b, k) \<noteq> None
          then (Inl (ClientError (Some ''PreconditionFailed'') (Some 412) []), s)
          else (Inr (), ((b, k), d) # s)),
      s3_head = (\<lambda>b k s. case map_of s (b, k) of
          None \<Rightarrow> Inl (ClientError (Some ''404'') (Some 404) []) | Some d \<Rightarrow> Inr (Some (int (length d)))),
      s3_get = (\<lambda>b k s. case map_of s (b, k) of
          None \<Rightarrow> Inl (ClientError (Some ''NoSuchKey'') (Some 404) []) | Some d \<Rightarrow> Inr (d, None)),
      s3_list_buckets = (\<lambda>s. Inr [''raw'']),
      s3_create_bucket = (\<lambda>b s. (Inr (), s)),
      sha256 = (\<lambda>d. replicate 64 (CHR ''0''))\<rparr>"

abbreviation memory_obj :: "((string \<times> string) \<times> bytes) list \<Rightarrow> string \<Rightarrow> string \<Rightarrow> bytes option" where
  "memory_obj \<equiv> \<lambda>s b k. map_of s (b, k)"

lemma memory_laws: "s3_laws memory_s3 memory_obj"
  by (auto simp: s3_laws_def memory_s3_def split: option.splits if_splits)

definition example_store :: store_env where
  "example_store = \<lparr>se_bucket = ''raw'', se_orgs = [(''acme'', ''u1'')], se_schema = ''acme''\<rparr>"

text \<open>C15: A stored raw payload is never changed. Whatever a \<^verbatim>\<open>put\<close> does, whether it succeeds,
  fails, or falls back to checking first because the backend has no conditional writes, every
  object there was before it is still there with the same bytes, and the only key at which an
  object may appear is the tenant's own version of the key.\<close>

theorem put_never_overwrites:
  assumes "s3_laws lib obj"
    and "store_put env lib key data ct (cache, s) = (r, cache', s')"
  shows "(\<forall>b k d. obj s b k = Some d \<longrightarrow> obj s' b k = Some d) \<and>
    (\<forall>b k. obj s' b k \<noteq> obj s b k \<longrightarrow> b = se_bucket env \<and> obj s' b k = Some data \<and>
       (\<exists>tenant. tenant_uuid env cache = (Inr tenant, cache') \<and> k = tenant_key tenant key))"
  using store_put_cases [OF assms] by (auto dest: grows_old grows_new)

theorem put_never_overwrites_witness:
  "memory_obj (snd (snd (store_put example_store memory_s3 ''k'' ''new'' []
     ([], [((''raw'', ''u1/k''), ''old'')])))) ''raw'' ''u1/k'' = Some ''old''"
proof -
  let ?p = "store_put example_store memory_s3 ''k'' ''new'' [] ([], [((''raw'', ''u1/k''), ''old'')])"
  have p: "?p = (fst ?p, fst (snd ?p), snd (snd ?p))" by simp
  show ?thesis using put_never_overwrites [OF memory_laws p] by simp
qed

text \<open>C16: What was stored is what is read. When a \<^verbatim>\<open>put\<close> under a key that names no checksum or the
  payload's own succeeds, and nothing was stored under the key in the tenant or, on an identical
  retry, the same bytes were, then \<^verbatim>\<open>get\<close> of the URI that \<^verbatim>\<open>put\<close> returned gives the payload.\<close>

theorem put_then_get:
  assumes "s3_laws lib obj" and "s3_serves lib obj s'"
    and "store_put env lib key data ct (cache, s) = (Inr uri, cache', s')"
    and "tenant_uuid env cache = (Inr tenant, cache')" and "CHR ''/'' \<notin> set tenant"
    and "obj s (se_bucket env) (tenant_key tenant key) \<in> {None, Some data}"
    and "se_bucket env \<noteq> []" and "CHR ''/'' \<notin> set (se_bucket env)"
    and "checksum_from_key (tenant_key tenant key) \<in> {None, Some (sha256 lib data)}"
  shows "store_get env lib uri (cache', s') = (Inr data, cache')"
proof -
  let ?k = "tenant_key tenant key"
  from store_put_cases [OF assms(1,3)] assms(4) obtain written where
    g: "grows obj env ?k data written s s'" and uri: "uri = object_uri env ?k"
    and w: "written \<or> verify_existing_object env lib ?k data s' = Inr ()" by auto
  have "obj s' (se_bucket env) ?k = Some data"
  proof (cases written)
    case True
    with g grows_written show ?thesis by metis
  next
    case False
    with w verify_existing_length [OF assms(1)] obtain d where d: "obj s' (se_bucket env) ?k = Some d" by blast
    with g assms(6) have "d = data"
      unfolding grows_def by (metis insertE option.inject option.distinct(1) singletonD)
    with d show ?thesis by simp
  qed
  with assms(2) obtain ct' where "s3_get lib (se_bucket env) ?k s' = Inr (data, ct')"
    unfolding s3_serves_def by blast
  moreover have "parse_and_authorize env uri cache' = (Inr (se_bucket env, ?k), cache')"
    using assms(5,7,8) tenant_uuid_cached [OF assms(4)]
    by (simp add: parse_and_authorize_def uri parse_object_uri tenant_key_def partition_char_append)
  ultimately show ?thesis using assms(9) by (auto simp: store_get_def)
qed

theorem put_then_get_witness:
  "\<exists>uri cache' s'. store_put example_store memory_s3 ''k'' ''data'' []
       ([], [((''raw'', ''u1/k''), ''data'')]) = (Inr uri, cache', s') \<and>
     store_get example_store memory_s3 uri (cache', s') = (Inr ''data'', cache')"
proof -
  let ?s = "[((''raw'', ''u1/k''), ''data'')]"
  have p: "store_put example_store memory_s3 ''k'' ''data'' [] ([], ?s) =
      (Inr ''s3://raw/u1/k'', [(''acme'', ''u1'')], ?s)"
    by code_simp
  have "store_get example_store memory_s3 ''s3://raw/u1/k'' ([(''acme'', ''u1'')], ?s) =
      (Inr ''data'', [(''acme'', ''u1'')])"
  proof (rule put_then_get [OF memory_laws _ p])
    show "s3_serves memory_s3 memory_obj ?s" by (simp add: s3_serves_def memory_s3_def)
    show "tenant_uuid example_store [] = (Inr ''u1'', [(''acme'', ''u1'')])"
      by (simp add: tenant_uuid_def example_store_def)
    show "checksum_from_key (tenant_key ''u1'' ''k'') \<in> {None, Some (sha256 memory_s3 ''data'')}" by code_simp
    show "map_of ?s (se_bucket example_store, tenant_key ''u1'' ''k'') \<in> {None, Some ''data''}"
      by (simp add: example_store_def tenant_key_def)
  qed (simp_all add: example_store_def)
  with p show ?thesis by blast
qed

subsection \<open>A worker's use of the store\<close>

text \<open>One backend object serves a worker process for all the schemas it enters, with one cache. Its
  calls, each under the organizations and the schema of its moment; an organization keeps its
  identifier.\<close>

datatype store_call = StorePut string bytes string | StoreGet string

fun serve_call :: "'s s3_lib \<Rightarrow> store_env \<times> store_call \<Rightarrow> uuid_cache \<times> 's \<Rightarrow> uuid_cache \<times> 's" where
  "serve_call lib (env, StorePut key data ct) st = snd (store_put env lib key data ct st)"
| "serve_call lib (env, StoreGet uri) st = (snd (store_get env lib uri st), snd st)"

definition store_calls :: "'s s3_lib \<Rightarrow> (store_env \<times> store_call) list \<Rightarrow> uuid_cache \<times> 's \<Rightarrow> uuid_cache \<times> 's" where
  "store_calls lib calls st = fold (serve_call lib) calls st"

definition knows_orgs :: "(string \<times> uuid) list \<Rightarrow> store_env \<Rightarrow> bool" where
  "knows_orgs orgs env = (map_of (se_orgs env) \<subseteq>\<^sub>m map_of orgs)"

text \<open>What the cache holds is true.\<close>

definition cache_true :: "(string \<times> uuid) list \<Rightarrow> uuid_cache \<Rightarrow> bool" where
  "cache_true orgs cache = (map_of cache \<subseteq>\<^sub>m map_of orgs)"

lemma tenant_uuid_true:
  assumes "cache_true orgs cache" "knows_orgs orgs env" "tenant_uuid env cache = (r, cache')"
  shows "cache_true orgs cache' \<and> (\<forall>u. r = Inr u \<longrightarrow> map_of orgs (se_schema env) = Some u)"
proof (cases "map_of cache (se_schema env)")
  case (Some u)
  with assms show ?thesis by (auto simp: tenant_uuid_def cache_true_def map_le_def dom_def)
next
  case none: None
  show ?thesis
  proof (cases "map_of (se_orgs env) (se_schema env)")
    case (Some u)
    then have "map_of orgs (se_schema env) = Some u"
      using assms(2) by (auto simp: knows_orgs_def map_le_def dom_def)
    with assms none Some show ?thesis
      by (auto simp: tenant_uuid_def cache_true_def map_le_def dom_def update_conv' split: if_splits)
  qed (use assms none in \<open>auto simp: tenant_uuid_def\<close>)
qed

lemma store_put_true:
  assumes "cache_true orgs (fst st)" "knows_orgs orgs env"
  shows "cache_true orgs (fst (snd (store_put env lib key data ct st)))"
proof -
  obtain cache s where st: "st = (cache, s)" by fastforce
  obtain r c1 where t: "tenant_uuid env cache = (r, c1)" by fastforce
  have "fst (snd (store_put env lib key data ct st)) = c1"
    by (simp add: store_put_def st t split: sum.split prod.split)
  with tenant_uuid_true [OF _ assms(2) t] assms(1) st show ?thesis by simp
qed

lemma store_get_true:
  assumes "cache_true orgs (fst st)" "knows_orgs orgs env"
  shows "cache_true orgs (snd (store_get env lib uri st))"
proof -
  obtain cache s where st: "st = (cache, s)" by fastforce
  obtain r c1 where t: "tenant_uuid env cache = (r, c1)" by fastforce
  have "snd (store_get env lib uri st) \<in> {cache, c1}"
    by (auto simp: store_get_def parse_and_authorize_def st t Let_def split: sum.splits prod.splits option.splits if_splits)
  with tenant_uuid_true [OF _ assms(2) t] assms(1) st show ?thesis by auto
qed

lemma store_calls_true:
  "cache_true orgs (fst st) \<Longrightarrow> \<forall>(env, call) \<in> set calls. knows_orgs orgs env \<Longrightarrow>
   cache_true orgs (fst (store_calls lib calls st))"
proof (induction calls arbitrary: st)
  case (Cons a calls)
  obtain env call where a: "a = (env, call)" by fastforce
  have "cache_true orgs (fst (serve_call lib a st))"
    using Cons.prems a store_put_true [OF Cons.prems(1)] store_get_true [OF Cons.prems(1)] by (cases call) auto
  with Cons show ?case by (simp add: store_calls_def)
qed (simp add: store_calls_def)

lemma distinct_map_sndD: "distinct (map snd xs) \<Longrightarrow> (a, u) \<in> set xs \<Longrightarrow> (b, u) \<in> set xs \<Longrightarrow> a = b"
  by (induction xs) (auto simp: image_iff)

text \<open>C17: Reading is confined to the tenant, and what is read is intact. Let a worker's store have
  served any calls in any schemas, from the empty cache on. Bytes are returned only for a URI
  in the configured bucket whose key lies under the identifier of the organization whose schema
  is active, and under that of no other organization; and when that key names a checksum, it is
  the checksum of the bytes.\<close>

theorem get_is_isolated:
  assumes "\<forall>(env', call) \<in> set calls. knows_orgs orgs env'" and "knows_orgs orgs env"
    and "distinct (map snd orgs)"
    and "store_get env lib uri (store_calls lib calls ([], s0)) = (Inr data, cache')"
  shows "\<exists>tenant key ct. map_of orgs (se_schema env) = Some tenant \<and> uri = object_uri env key \<and>
    fst (partition_char (CHR ''/'') key) = tenant \<and>
    (\<forall>schema. map_of orgs schema = Some tenant \<longrightarrow> schema = se_schema env) \<and>
    s3_get lib (se_bucket env) key (snd (store_calls lib calls ([], s0))) = Inr (data, ct) \<and>
    (\<forall>c. checksum_from_key key = Some c \<longrightarrow> sha256 lib data = c)"
proof -
  obtain cache s where st: "store_calls lib calls ([], s0) = (cache, s)" by fastforce
  have true: "cache_true orgs cache"
    using store_calls_true [of orgs "([], s0)" calls lib] assms(1) st by (simp add: cache_true_def)
  from assms(4) st obtain b key ct where a: "parse_and_authorize env uri cache = (Inr (b, key), cache')"
    and g: "s3_get lib b key s = Inr (data, ct)" "\<forall>c. checksum_from_key key = Some c \<longrightarrow> sha256 lib data = c"
    by (auto simp: store_get_def split: prod.splits sum.splits option.splits if_splits)
  from a have p: "parse_uri env uri = Inr (b, key)"
    and t: "tenant_uuid env cache = (Inr (fst (partition_char (CHR ''/'') key)), cache')"
    by (auto simp: parse_and_authorize_def Let_def split: sum.splits prod.splits if_splits)
  have org: "map_of orgs (se_schema env) = Some (fst (partition_char (CHR ''/'') key))"
    using tenant_uuid_true [OF true assms(2) t] by simp
  have "schema = se_schema env" if m: "map_of orgs schema = Some (fst (partition_char (CHR ''/'') key))" for schema
    using distinct_map_sndD [OF assms(3) map_of_SomeD [OF m] map_of_SomeD [OF org]] .
  then have only: "\<forall>schema. map_of orgs schema = Some (fst (partition_char (CHR ''/'') key)) \<longrightarrow> schema = se_schema env"
    by blast
  note u = parse_uri_Inr [OF p]
  have bytes: "s3_get lib (se_bucket env) key (snd (store_calls lib calls ([], s0))) = Inr (data, ct)"
    using g(1) u unfolding st by simp
  show ?thesis
    by (rule exI [of _ "fst (partition_char (CHR ''/'') key)"], rule exI [of _ key], rule exI [of _ ct])
      (intro conjI org only bytes g(2) refl u [THEN conjunct2, THEN conjunct1])
qed

theorem get_is_isolated_witness:
  "\<exists>key. ''s3://raw/u1/k'' = object_uri example_store key \<and> fst (partition_char (CHR ''/'') key) = ''u1''"
proof -
  let ?orgs = "[(''acme'', ''u1''), (''globex'', ''u2'')]"
  let ?env = "example_store\<lparr>se_orgs := ?orgs\<rparr>"
  let ?other = "?env\<lparr>se_schema := ''globex''\<rparr>"
  let ?calls = "[(?other, StorePut ''k'' ''other'' []), (?env, StorePut ''k'' ''data'' [])]"
  have "fst (store_get ?env memory_s3 ''s3://raw/u1/k'' (store_calls memory_s3 ?calls ([], []))) = Inr ''data''"
    by code_simp
  then have g: "store_get ?env memory_s3 ''s3://raw/u1/k'' (store_calls memory_s3 ?calls ([], [])) =
      (Inr ''data'', snd (store_get ?env memory_s3 ''s3://raw/u1/k'' (store_calls memory_s3 ?calls ([], []))))"
    by (simp add: prod_eq_iff)
  have "\<forall>(env', call) \<in> set ?calls. knows_orgs ?orgs env'" "knows_orgs ?orgs ?env" "distinct (map snd ?orgs)"
    by (simp_all add: knows_orgs_def)
  from get_is_isolated [OF this g] show ?thesis
    by (auto simp: example_store_def object_uri_def)
qed

text \<open>What the reuse of an existing object verifies. When the conditional write reports that the
  object exists, the put succeeds on the strength of its length alone: an object of other bytes
  and the same length is accepted as the payload, although the backend promises that the
  identity is verified.\<close>

theorem same_length_is_accepted:
  assumes "tenant_uuid env cache = (Inr tenant, cache')"
    and "s3_put lib (se_bucket env) (tenant_key tenant key) data ct True s =
      (Inl (ClientError (Some ''PreconditionFailed'') (Some 412) msg), s)"
    and "s3_head lib (se_bucket env) (tenant_key tenant key) s = Inr (Some (int (length other)))"
    and "length other = length data"
  shows "store_put env lib key data ct (cache, s) = (Inr (object_uri env (tenant_key tenant key)), cache', s)"
  using assms by (simp add: store_put_def put_create_only_def verify_existing_object_def)

theorem same_length_is_accepted_witness:
  "store_put example_store memory_s3 ''k'' ''data'' [] ([], [((''raw'', ''u1/k''), ''evil'')]) =
     (Inr (object_uri example_store (tenant_key ''u1'' ''k'')), [(''acme'', ''u1'')], [((''raw'', ''u1/k''), ''evil'')])"
  by (rule same_length_is_accepted [where other = "''evil''" and msg = "[]"])
    (simp_all add: tenant_uuid_def example_store_def memory_s3_def tenant_key_def)

end
