(* ===== verification/Secrets.thy ===== *)
theory Secrets
  imports AuthProviders Models
begin

text \<open>
  \<^verbatim>\<open>apps/secrets/base.py\<close>, \<^verbatim>\<open>apps/secrets/backends/encrypted_field.py\<close> and the
  \<^verbatim>\<open>Credential\<close> of \<^verbatim>\<open>apps/connections/models.py\<close>: the secret store over Fernet-encrypted rows,
  and the credential payload that goes through it as one JSON text. Fernet and the JSON encoder
  are parameters.
\<close>

subsection \<open>UTF-8\<close>

text \<open>Decoding, for the characters of the model; \<open>None\<close> is the \<^verbatim>\<open>UnicodeDecodeError\<close>.\<close>

fun utf8_decode :: "bytes \<Rightarrow> string option" where
  "utf8_decode [] = Some []"
| "utf8_decode (c # cs) =
     (let n = (of_char c :: nat) in
      if n < 128 then map_option ((#) c) (utf8_decode cs)
      else (case cs of
              [] \<Rightarrow> None
            | d # ds \<Rightarrow>
                let m = (of_char d :: nat) in
                if (n = 194 \<or> n = 195) \<and> 128 \<le> m \<and> m < 192
                then map_option ((#) (char_of ((n - 192) * 64 + (m - 128)))) (utf8_decode ds)
                else None))"

lemma utf8_decode_char: "utf8_decode (utf8_char c @ cs) = map_option ((#) c) (utf8_decode cs)"
proof -
  define n where "n = (of_char c :: nat)"
  have n: "n < 256" using of_char_mod_256 [of c, where 'a = nat] unfolding n_def by (metis mod_less_divisor zero_less_numeral)
  have c: "char_of n = c" unfolding n_def by simp
  show ?thesis
  proof (cases "n < 128")
    case False
    have q: "192 + n div 64 < 256" "128 + n mod 64 < 256" "128 + n mod 64 < 192" using n by auto
    have "n div 64 = 2 \<or> n div 64 = 3" using n False by auto
    then have lead: "192 + n div 64 = 194 \<or> 192 + n div 64 = 195" by auto
    have "(192 + n div 64 - 192) * 64 + (128 + n mod 64 - 128) = n" by simp
    then show ?thesis using False n lead q c
      by (simp add: utf8_char_def Let_def n_def [symmetric] of_char_of)
  qed (simp add: utf8_char_def Let_def n_def [symmetric])
qed

lemma utf8_roundtrip: "utf8_decode (utf8 s) = Some s"
  by (induction s) (simp_all add: utf8_def utf8_decode_char)

subsection \<open>The encrypted store\<close>

record fernet =
  fernet_encrypt :: "nat \<Rightarrow> bytes \<Rightarrow> bytes" \<comment> \<open>the time and the random vector as a number\<close>
  fernet_decrypt :: "bytes \<Rightarrow> bytes option" \<comment> \<open>\<open>None\<close>: \<open>InvalidToken\<close>\<close>

definition secret_store :: "fernet \<Rightarrow> (nat \<Rightarrow> uuid) \<Rightarrow> string \<Rightarrow> world \<Rightarrow> string \<times> world" where
  "secret_store f ids plaintext w =
     (let ciphertext = fernet_encrypt f (w_drawn w) (utf8 plaintext) in
      case uuid4 ids w of (i, w') \<Rightarrow>
        (i, w'\<lparr>w_secrets := w_secrets w' @ [\<lparr>es_id = i, es_ciphertext = ciphertext\<rparr>]\<rparr>))"

text \<open>A reference is the text of the identifier that \<^verbatim>\<open>store\<close> returned; a text that is not the form of a
  UUID, which no row can have, is here one that is not found (Django's own \<^verbatim>\<open>ValidationError\<close> is not
  modelled).\<close>

definition secret_retrieve :: "fernet \<Rightarrow> string \<Rightarrow> world \<Rightarrow> exn + string" where
  "secret_retrieve f secret_ref w =
     (case find_row es_id secret_ref (w_secrets w) of
        None \<Rightarrow> Inl (secret_not_found (''No secret found for ref '' @ py_repr secret_ref))
      | Some record \<Rightarrow>
          (case fernet_decrypt f (es_ciphertext record) of
             None \<Rightarrow> Inl (secret_not_found (''Secret '' @ py_repr secret_ref @ '' could not be decrypted (wrong key?)''))
           | Some plain \<Rightarrow>
               (case utf8_decode plain of
                  None \<Rightarrow> Inl (PyExn ValueError ''UnicodeDecodeError'')
                | Some text \<Rightarrow> Inr text)))"

definition secret_delete :: "string \<Rightarrow> world \<Rightarrow> world" where
  "secret_delete secret_ref w =
     w\<lparr>w_secrets := filter (\<lambda>r. es_id r \<noteq> secret_ref) (w_secrets w)\<rparr>"

subsection \<open>Credentials\<close>

text \<open>A second credential for a connection violates the one-to-one relation.\<close>

definition create_for_connection ::
  "fernet \<Rightarrow> (nat \<Rightarrow> uuid) \<Rightarrow> (json \<Rightarrow> string) \<Rightarrow> uuid \<Rightarrow> string \<Rightarrow> credential \<Rightarrow> world \<Rightarrow>
   (exn + credential_row) \<times> world" where
  "create_for_connection f ids json_dumps conn auth_type payload w =
     (case secret_store f ids (json_dumps (JObj payload)) w of (secret_ref, w') \<Rightarrow>
        let row = \<lparr>cr_connection = conn, cr_auth_provider_type = auth_type, cr_secret_ref = secret_ref\<rparr> in
        if find_row cr_connection conn (w_credentials w') \<noteq> None
        then (Inl (PyExn DatabaseError ''duplicate key value violates unique constraint''), w')
        else (Inr row, w'\<lparr>w_credentials := w_credentials w' @ [row]\<rparr>))"

definition credential_resolve ::
  "fernet \<Rightarrow> (bytes \<Rightarrow> json option) \<Rightarrow> credential_row \<Rightarrow> world \<Rightarrow> exn + json" where
  "credential_resolve f json_loads row w =
     ebind (secret_retrieve f (cr_secret_ref row) w) (\<lambda>raw.
       case json_loads (utf8 raw) of
         None \<Rightarrow> Inl (PyExn ValueError ''credential is not valid JSON'')
       | Some v \<Rightarrow> Inr v)"

subsection \<open>Laws\<close>

definition fernet_law :: "fernet \<Rightarrow> bool" where
  "fernet_law f = (\<forall>r m. fernet_decrypt f (fernet_encrypt f r m) = Some m)"

lemma secret_store_retrieve:
  assumes "fernet_law f" "secret_store f ids plain w = (i, w')"
    and "find_row es_id i (w_secrets w) = None"
  shows "secret_retrieve f i w' = Inr plain"
  using assms
  by (auto simp: secret_store_def uuid4_def secret_retrieve_def find_row_append fernet_law_def utf8_roundtrip Let_def)

text \<open>The secret store interface: what is stored can be retrieved until it is deleted, whatever else
  is stored or deleted meanwhile.\<close>

locale secrets_interface =
  fixes store :: "string \<Rightarrow> 'w \<Rightarrow> string \<times> 'w"
    and retrieve :: "string \<Rightarrow> 'w \<Rightarrow> exn + string"
    and delete :: "string \<Rightarrow> 'w \<Rightarrow> 'w"
  assumes deleted: "\<exists>e. retrieve ref (delete ref w) = Inl e \<and> raised_class e = Some SecretNotFound"
    and delete_other: "ref' \<noteq> ref \<Longrightarrow> retrieve ref' (delete ref w) = retrieve ref' w"
    and store_keeps: "store plain w = (i, w') \<Longrightarrow> retrieve ref w = Inr t \<Longrightarrow> retrieve ref w' = Inr t"
begin

lemma survives:
  "retrieve ref w = Inr t \<Longrightarrow> ref' \<noteq> ref \<Longrightarrow> retrieve ref (delete ref' (snd (store plain w))) = Inr t"
  using delete_other store_keeps by (metis prod.collapse)

end

lemma find_row_filter:
  "find_row key k (filter (\<lambda>r. key r \<noteq> k') rows) = (if k = k' then None else find_row key k rows)"
  by (induction rows) (auto simp: find_row_def)

interpretation encrypted: secrets_interface "secret_store f ids" "secret_retrieve f" secret_delete
  for f ids
proof (unfold_locales, goal_cases)
  case (1 ref w)
  then show ?case by (simp add: secret_retrieve_def secret_delete_def find_row_filter)
next
  case (2 ref' ref w)
  then show ?case by (simp add: secret_retrieve_def secret_delete_def find_row_filter)
next
  case (3 plain w i w' ref t)
  then show ?case
    by (auto simp: secret_store_def uuid4_def secret_retrieve_def find_row_append Let_def split: option.splits)
qed

text \<open>C38: A credential comes back as it was given. The payload stored for a connection resolves to
  itself, also after any other secret was stored and any other was deleted, when Fernet
  decrypts what it encrypted, the JSON encoder is undone by the decoder, and the identifier
  drawn was new.\<close>

theorem credential_roundtrip:
  assumes "fernet_law f" and "json_loads (utf8 (json_dumps (JObj payload))) = Some (JObj payload)"
    and "find_row es_id (ids (w_drawn w)) (w_secrets w) = None"
    and "create_for_connection f ids json_dumps conn auth payload w = (Inr row, w')"
    and "other \<noteq> cr_secret_ref row"
  shows "credential_resolve f json_loads row w' = Inr (JObj payload) \<and>
    credential_resolve f json_loads row (secret_delete other (snd (secret_store f ids plain w'))) = Inr (JObj payload)"
proof -
  obtain i w1 where s: "secret_store f ids (json_dumps (JObj payload)) w = (i, w1)" by fastforce
  have i: "i = ids (w_drawn w)" using s by (auto simp: secret_store_def uuid4_def Let_def)
  have r: "secret_retrieve f i w1 = Inr (json_dumps (JObj payload))"
    by (rule secret_store_retrieve [OF assms(1) s]) (use assms(3) i in simp)
  have row: "cr_secret_ref row = i" "w_secrets w' = w_secrets w1"
    using assms(4) s by (auto simp: create_for_connection_def Let_def split: if_splits)
  have r': "secret_retrieve f i w' = Inr (json_dumps (JObj payload))"
    using r row by (simp add: secret_retrieve_def)
  have "secret_retrieve f i (secret_delete other (snd (secret_store f ids plain w'))) = Inr (json_dumps (JObj payload))"
    by (rule encrypted.survives [OF r']) (use assms(5) row in simp)
  with r' row assms(2) show ?thesis by (simp add: credential_resolve_def)
qed

text \<open>A cipher that writes its number in front, for example's sake.\<close>

definition toy_fernet :: fernet where
  "toy_fernet = \<lparr>fernet_encrypt = (\<lambda>r m. str_of_nat r @ '':'' @ m),
     fernet_decrypt = (\<lambda>c. case partition_char (CHR '':'') c of (_, found, m) \<Rightarrow> if found then Some m else None)\<rparr>"

lemma toy_fernet_law: "fernet_law toy_fernet"
proof -
  have "CHR '':'' \<notin> set (str_of_nat r)" for r
    by (rule str_of_nat_not_in) (simp add: is_digit_def Let_def)
  then show ?thesis by (simp add: fernet_law_def toy_fernet_def partition_char_append)
qed

definition empty_world :: world where
  "empty_world = \<lparr>w_runs = [], w_tasks = [], w_raw = [], w_pipelines = [], w_connections = [],
     w_credentials = [], w_secrets = [], w_clock = 0, w_drawn = 0, w_locked = [], w_broker = []\<rparr>"

theorem credential_roundtrip_witness:
  "\<exists>row w'. create_for_connection toy_fernet str_of_nat (\<lambda>v. ''x'') ''c'' ''bearer'' [(''token'', JStr ''t'')]
       empty_world = (Inr row, w') \<and>
     credential_resolve toy_fernet (\<lambda>b. Some (JObj [(''token'', JStr ''t'')])) row w' =
       Inr (JObj [(''token'', JStr ''t'')])"
proof -
  let ?c = "create_for_connection toy_fernet str_of_nat (\<lambda>v. ''x'') ''c'' ''bearer'' [(''token'', JStr ''t'')] empty_world"
  obtain row w' where c: "?c = (Inr row, w')" and row: "cr_secret_ref row = str_of_nat 0"
    by (simp add: create_for_connection_def secret_store_def uuid4_def Let_def empty_world_def find_row_def)
  have "str_of_nat 0 \<noteq> ''other''" by code_simp
  with credential_roundtrip [OF toy_fernet_law _ _ c, where other = "''other''"
      and json_loads = "\<lambda>b. Some (JObj [(''token'', JStr ''t'')])" and plain = "[]"] c row
  show ?thesis by (auto simp: empty_world_def find_row_def)
qed

end
