(* ===== verification/Claims.thy ===== *)
theory Claims
  imports Models
begin

text \<open>
  \<^verbatim>\<open>apps/execution/claims.py\<close>: the claiming of a run and the only transitions of its status. A
  run in memory is passed in and returned; each operation says what it did to the row.
\<close>

subsection \<open>Claiming\<close>

text \<open>\<^verbatim>\<open>SELECT ... FOR UPDATE SKIP LOCKED\<close> over the run joined with its pipeline and the pipeline's
  two connections. The query names no \<^verbatim>\<open>of=\<close>, so it locks the row of every table it joins, and
  skips the run when another transaction holds any of them; the joins are inner ones.\<close>

definition joined_rows :: "world \<Rightarrow> pipeline_run \<Rightarrow> uuid list option" where
  "joined_rows w run =
     (case get_pipeline w (pr_pipeline_id run) of
        None \<Rightarrow> None
      | Some p \<Rightarrow>
          (case get_connection w (pl_source_connection p) of
             None \<Rightarrow> None
           | Some source \<Rightarrow>
               (case get_connection w (pl_destination_connection p) of
                  None \<Rightarrow> None
                | Some target \<Rightarrow> Some [pr_id run, pl_id p, cn_id source, cn_id target])))"

definition select_for_update :: "uuid \<Rightarrow> world \<Rightarrow> pipeline_run option" where
  "select_for_update run_id w =
     (case get_run w run_id of
        None \<Rightarrow> None
      | Some run \<Rightarrow>
          (case joined_rows w run of
             None \<Rightarrow> None
           | Some rows \<Rightarrow> if list_all (\<lambda>i. i \<notin> set (w_locked w)) rows then Some run else None))"

text \<open>The rows that a claim needs are there and held by nobody.\<close>

definition unlocked :: "uuid \<Rightarrow> world \<Rightarrow> bool" where
  "unlocked i w =
     (case get_run w i of
        None \<Rightarrow> False
      | Some run \<Rightarrow>
          (case joined_rows w run of None \<Rightarrow> False | Some rows \<Rightarrow> list_all (\<lambda>i. i \<notin> set (w_locked w)) rows))"

definition copy_claim :: "pipeline_run \<Rightarrow> pipeline_run \<Rightarrow> pipeline_run" where
  "copy_claim run row = row\<lparr>pr_status := pr_status run, pr_started_at := pr_started_at run,
     pr_celery_task_id := pr_celery_task_id run, pr_attempt := pr_attempt run\<rparr>"

definition claim_run :: "uuid \<Rightarrow> string option \<Rightarrow> world \<Rightarrow> (exn + pipeline_run) \<times> world" where
  "claim_run run_id celery_task_id w =
     (case select_for_update run_id w of
        None \<Rightarrow> (Inl (run_claim_rejected (''pipeline run '' @ run_id @
                   '' was not found, or is currently locked by another claim'')), w)
      | Some run \<Rightarrow>
          if terminal (pr_status run)
          then (Inl (run_claim_rejected (''pipeline run '' @ run_id @ '' is already '' @
                 status_text (pr_status run))), w)
          else if pr_status run = RUNNING \<and> pr_celery_task_id run \<noteq> celery_task_id
          then (Inl (run_claim_rejected (''pipeline run '' @ run_id @
                 '' is already being executed (owning task '' @ repr_opt (pr_celery_task_id run) @ '')'')), w)
          else (let run1 = (if pr_status run = PENDING
                            then run\<lparr>pr_started_at := Some (or_default (w_clock w) (pr_started_at run))\<rparr>
                            else run);
                    run2 = run1\<lparr>pr_status := RUNNING, pr_celery_task_id := celery_task_id,
                                pr_attempt := pr_attempt run1 + 1\<rparr>
                in case save_run copy_claim run2 w of
                     Inl e \<Rightarrow> (Inl e, w)
                   | Inr w' \<Rightarrow> (Inr run2, w')))"

subsection \<open>Finishing\<close>

definition copy_finish :: "pipeline_run \<Rightarrow> pipeline_run \<Rightarrow> pipeline_run" where
  "copy_finish run row = row\<lparr>pr_status := pr_status run, pr_finished_at := pr_finished_at run,
     pr_error_category := pr_error_category run, pr_error_message := pr_error_message run,
     pr_error_is_retryable := pr_error_is_retryable run\<rparr>"

definition copy_error :: "pipeline_run \<Rightarrow> pipeline_run \<Rightarrow> pipeline_run" where
  "copy_error run row = row\<lparr>pr_error_category := pr_error_category run,
     pr_error_message := pr_error_message run, pr_error_is_retryable := pr_error_is_retryable run\<rparr>"

text \<open>What an operation that saves returns: the outcome, the run in memory and the world.\<close>

definition saved ::
  "(pipeline_run \<Rightarrow> pipeline_run \<Rightarrow> pipeline_run) \<Rightarrow> pipeline_run \<Rightarrow> world \<Rightarrow> (exn + unit) \<times> pipeline_run \<times> world" where
  "saved copy run w = (case save_run copy run w of Inl e \<Rightarrow> (Inl e, run, w) | Inr w' \<Rightarrow> (Inr (), run, w'))"

definition mark_run_succeeded :: "pipeline_run \<Rightarrow> world \<Rightarrow> (exn + unit) \<times> pipeline_run \<times> world" where
  "mark_run_succeeded run w =
     (if pr_status run \<noteq> RUNNING
      then (Inl (invalid_run_transition (''cannot mark run '' @ pr_id run @ '' succeeded from status '' @
             status_text (pr_status run))), run, w)
      else saved copy_finish
             (run\<lparr>pr_status := SUCCEEDED, pr_finished_at := Some (w_clock w), pr_error_category := None,
                 pr_error_message := None, pr_error_is_retryable := None\<rparr>) w)"

definition mark_run_failed ::
  "string \<Rightarrow> string \<Rightarrow> bool \<Rightarrow> pipeline_run \<Rightarrow> world \<Rightarrow> (exn + unit) \<times> pipeline_run \<times> world" where
  "mark_run_failed category message retryable run w =
     (if pr_status run \<noteq> RUNNING
      then (Inl (invalid_run_transition (''cannot mark run '' @ pr_id run @ '' failed from status '' @
             status_text (pr_status run))), run, w)
      else saved copy_finish
             (run\<lparr>pr_status := FAILED, pr_finished_at := Some (w_clock w), pr_error_category := Some category,
                 pr_error_message := Some message, pr_error_is_retryable := Some retryable\<rparr>) w)"

definition record_pending_retry ::
  "string \<Rightarrow> string \<Rightarrow> bool \<Rightarrow> pipeline_run \<Rightarrow> world \<Rightarrow> (exn + unit) \<times> pipeline_run \<times> world" where
  "record_pending_retry category message retryable run w =
     saved copy_error
       (run\<lparr>pr_error_category := Some category, pr_error_message := Some message,
           pr_error_is_retryable := Some retryable\<rparr>) w"

subsection \<open>Laws\<close>

lemma copy_ids [simp]:
  "pr_id (copy_claim run row) = pr_id row" "pr_id (copy_finish run row) = pr_id row"
  "pr_id (copy_error run row) = pr_id row"
  by (simp_all add: copy_claim_def copy_finish_def copy_error_def)

lemma get_run_id: "get_run w i = Some r \<Longrightarrow> pr_id r = i"
  by (auto simp: get_run_def dest: find_row_key)

lemma select_for_update_unlocked: "select_for_update i w = (if unlocked i w then get_run w i else None)"
  by (auto simp: select_for_update_def unlocked_def split: option.split)

lemma unlocked_iff:
  "unlocked i w \<longleftrightarrow> (\<exists>run rows. get_run w i = Some run \<and> joined_rows w run = Some rows \<and>
     set rows \<inter> set (w_locked w) = {})"
  by (auto simp: unlocked_def list_all_iff split: option.splits)

text \<open>All that a claim of a run depends on besides the run's row.\<close>

abbreviation join_state :: "world \<Rightarrow> uuid list \<times> pipeline list \<times> connection list" where
  "join_state w \<equiv> (w_locked w, w_pipelines w, w_connections w)"

lemma unlocked_frame:
  assumes "join_state w' = join_state w"
    and "map_option pr_pipeline_id (get_run w' i) = map_option pr_pipeline_id (get_run w i)"
  shows "unlocked i w' = unlocked i w"
proof (cases "get_run w i")
  case (Some r)
  with assms(2) obtain r' where r': "get_run w' i = Some r'" "pr_pipeline_id r' = pr_pipeline_id r" by auto
  have "get_connection w' = get_connection w" using assms(1) by (simp add: get_connection_def fun_eq_iff)
  then have "joined_rows w' r' = joined_rows w r"
    using assms(1) r' get_run_id [OF Some] get_run_id [OF r'(1)]
    by (auto simp: joined_rows_def get_pipeline_def split: option.split)
  moreover have "w_locked w' = w_locked w" using assms(1) by simp
  ultimately show ?thesis using r' Some by (auto simp: unlocked_def split: option.split)
qed (use assms(2) in \<open>simp add: unlocked_def\<close>)

lemma unlocked_nobody: "unlocked i w \<Longrightarrow> unlocked i (w\<lparr>w_locked := []\<rparr>)"
  by (auto simp: unlocked_def joined_rows_def get_run_def get_pipeline_def get_connection_def
      split: option.splits)

text \<open>Exactly when a claim succeeds, and what it leaves.\<close>

definition claimable :: "string option \<Rightarrow> pipeline_run \<Rightarrow> bool" where
  "claimable task run = (pr_status run = PENDING \<or> pr_status run = RUNNING \<and> pr_celery_task_id run = task)"

lemma claimable_not_terminal: "claimable task run \<Longrightarrow> \<not> terminal (pr_status run)"
  by (auto simp: claimable_def)

definition claimed :: "string option \<Rightarrow> timestamp \<Rightarrow> pipeline_run \<Rightarrow> pipeline_run" where
  "claimed task now row =
     (let run1 = (if pr_status row = PENDING
                  then row\<lparr>pr_started_at := Some (or_default now (pr_started_at row))\<rparr> else row)
      in run1\<lparr>pr_status := RUNNING, pr_celery_task_id := task, pr_attempt := pr_attempt run1 + 1\<rparr>)"

lemma claimed_fields [simp]:
  "pr_id (claimed task now row) = pr_id row" "pr_status (claimed task now row) = RUNNING"
  "pr_celery_task_id (claimed task now row) = task" "pr_attempt (claimed task now row) = pr_attempt row + 1"
  by (simp_all add: claimed_def Let_def)

lemma claim_run_ok:
  assumes "unlocked run_id w" "get_run w run_id = Some row" "claimable task row"
  shows "\<exists>w'. claim_run run_id task w = (Inr (claimed task (w_clock w) row), w') \<and>
    w' = w\<lparr>w_runs := w_runs w'\<rparr> \<and> length (w_runs w') = length (w_runs w) \<and>
    get_run w' run_id = Some ((claimed task (w_clock w) row)\<lparr>pr_updated_at := w_clock w\<rparr>) \<and>
    (\<forall>i. i \<noteq> run_id \<longrightarrow> get_run w' i = get_run w i)"
proof -
  let ?r = "claimed task (w_clock w) row"
  have id: "pr_id row = run_id" using get_run_id [OF assms(2)] .
  obtain w' where s: "save_run copy_claim ?r w = Inr w'"
    using assms(2) id by (simp add: save_run_def)
  have "claim_run run_id task w = (Inr ?r, w')"
    using assms id s claimable_not_terminal [OF assms(3)]
    by (cases "pr_status row")
      (auto simp: claim_run_def select_for_update_unlocked Let_def claimable_def claimed_def)
  moreover have "copy_claim ?r row = ?r"
    by (cases row) (simp add: copy_claim_def claimed_def Let_def)
  ultimately show ?thesis
    using save_run_frame [OF s] save_run_get [OF s] assms(2) id by auto
qed

lemma claim_run_rejected_iff:
  assumes "\<not> unlocked run_id w \<or> get_run w run_id = None \<or>
    (\<exists>row. get_run w run_id = Some row \<and> \<not> claimable task row)"
  shows "\<exists>e. claim_run run_id task w = (Inl e, w) \<and> raised_class e = Some RunClaimRejected"
proof (cases "select_for_update run_id w")
  case None
  then show ?thesis by (simp add: claim_run_def)
next
  case (Some row)
  then have "get_run w run_id = Some row" "unlocked run_id w"
    by (auto simp: select_for_update_unlocked split: if_splits)
  with assms have "\<not> claimable task row" by auto
  then show ?thesis using Some
    by (cases "pr_status row") (auto simp: claim_run_def claimable_def)
qed

lemma claim_run_Inr:
  assumes "claim_run run_id task w = (Inr run, w')"
  shows "\<exists>row. unlocked run_id w \<and> get_run w run_id = Some row \<and> claimable task row \<and>
    run = claimed task (w_clock w) row \<and> w' = w\<lparr>w_runs := w_runs w'\<rparr> \<and>
    length (w_runs w') = length (w_runs w) \<and>
    get_run w' run_id = Some (run\<lparr>pr_updated_at := w_clock w\<rparr>) \<and>
    (\<forall>i. i \<noteq> run_id \<longrightarrow> get_run w' i = get_run w i)"
proof -
  obtain row where row: "unlocked run_id w" "get_run w run_id = Some row" "claimable task row"
    using claim_run_rejected_iff [of run_id w task] assms by (cases "get_run w run_id") auto
  from claim_run_ok [OF this] assms show ?thesis using row by auto
qed

lemma claim_run_Inl: "claim_run run_id task w = (Inl e, w') \<Longrightarrow> w' = w \<and> raised_class e = Some RunClaimRejected"
proof -
  assume c: "claim_run run_id task w = (Inl e, w')"
  show ?thesis
  proof (cases "unlocked run_id w \<and> (\<exists>row. get_run w run_id = Some row \<and> claimable task row)")
    case True
    with claim_run_ok c show ?thesis by fastforce
  next
    case False
    then have "\<not> unlocked run_id w \<or> get_run w run_id = None \<or>
        (\<exists>row. get_run w run_id = Some row \<and> \<not> claimable task row)" by (cases "get_run w run_id") auto
    from claim_run_rejected_iff [OF this] c show ?thesis by auto
  qed
qed

text \<open>The contract of a claim: whoever claimed a run owns it, and everyone else is turned away.\<close>

locale run_claims =
  fixes claim :: "uuid \<Rightarrow> string option \<Rightarrow> 'w \<Rightarrow> (exn + 'r) \<times> 'w"
    and owner :: "'w \<Rightarrow> uuid \<Rightarrow> string option option"
    and finished :: "'w \<Rightarrow> uuid \<Rightarrow> bool"
  assumes claim_owns: "claim i t w = (Inr r, w') \<Longrightarrow> owner w' i = Some t \<and> \<not> finished w' i"
    and claim_owned: "owner w i = Some t \<Longrightarrow> t' \<noteq> t \<Longrightarrow> \<exists>e. claim i t' w = (Inl e, w)"
    and claim_finished: "finished w i \<Longrightarrow> \<exists>e. claim i t w = (Inl e, w)"
    and claim_other: "claim i t w = (x, w') \<Longrightarrow> j \<noteq> i \<Longrightarrow> owner w' j = owner w j \<and> finished w' j = finished w j"
    and claim_refused: "claim i t w = (Inl e, w') \<Longrightarrow> w' = w"
begin

lemma others_cannot_take:
  assumes "owner w i = Some t" and "\<forall>(j, t') \<in> set attempts. j = i \<longrightarrow> t' \<noteq> t"
  shows "owner (fold (\<lambda>(j, t') w. snd (claim j t' w)) attempts w) i = Some t"
  using assms
proof (induction attempts arbitrary: w)
  case (Cons a attempts)
  obtain j t' where a: "a = (j, t')" by fastforce
  have "owner (snd (claim j t' w)) i = Some t"
  proof (cases "j = i")
    case True
    with Cons.prems a have "t' \<noteq> t" by auto
    from claim_owned [OF Cons.prems(1) this] Cons.prems(1) True show ?thesis by auto
  next
    case False
    with claim_other [of j t' w "fst (claim j t' w)" "snd (claim j t' w)" i] Cons.prems(1) show ?thesis by simp
  qed
  with Cons.IH [of "snd (claim j t' w)"] Cons.prems(2) a show ?case by auto
qed simp

lemma finished_stays:
  assumes "finished w i"
  shows "finished (fold (\<lambda>(j, t') w. snd (claim j t' w)) attempts w) i"
  using assms
proof (induction attempts arbitrary: w)
  case (Cons a attempts)
  obtain j t' where a: "a = (j, t')" by fastforce
  have "finished (snd (claim j t' w)) i"
  proof (cases "j = i")
    case True
    with claim_finished [OF Cons.prems, of t'] Cons.prems show ?thesis by auto
  next
    case False
    with claim_other [of j t' w "fst (claim j t' w)" "snd (claim j t' w)" i] Cons.prems show ?thesis by simp
  qed
  with Cons.IH a show ?case by auto
qed simp

end

definition run_owner :: "world \<Rightarrow> uuid \<Rightarrow> string option option" where
  "run_owner w i = (case get_run w i of
     Some r \<Rightarrow> if pr_status r = RUNNING then Some (pr_celery_task_id r) else None | None \<Rightarrow> None)"

definition run_finished :: "world \<Rightarrow> uuid \<Rightarrow> bool" where
  "run_finished w i = (\<exists>r. get_run w i = Some r \<and> terminal (pr_status r))"

interpretation claims: run_claims claim_run run_owner run_finished
proof (unfold_locales, goal_cases)
  case (1 i t w r w')
  from claim_run_Inr [OF 1] show ?case by (auto simp: run_owner_def run_finished_def)
next
  case (2 w i t t')
  then have "\<exists>row. get_run w i = Some row \<and> \<not> claimable t' row"
    by (auto simp: run_owner_def claimable_def split: option.splits if_splits)
  with claim_run_rejected_iff [of i w t'] show ?case by auto
next
  case (3 w i t)
  then have "\<exists>row. get_run w i = Some row \<and> \<not> claimable t row"
    by (auto simp: run_finished_def dest: claimable_not_terminal)
  with claim_run_rejected_iff [of i w t] show ?case by auto
next
  case (4 i t w r w' j)
  then show ?case
    by (cases r) (auto simp: run_owner_def run_finished_def dest!: claim_run_Inr claim_run_Inl)
next
  case (5 i t w e w')
  then show ?case by (simp add: claim_run_Inl)
qed

text \<open>C13: Exactly which claims succeed and what they change. A run is claimed when its row, its
  pipeline's row and the rows of the pipeline's two connections are there and none of the four is
  locked by another transaction, and it is pending or already running under the same task; then
  its row becomes running, owned by the task, one attempt later, with the start time kept once
  set, and no other row changes. Every other claim is rejected and changes nothing.\<close>

theorem claim_run_exact:
  "case claim_run i t w of
     (Inr run, w') \<Rightarrow>
       (\<exists>row rows. get_run w i = Some row \<and> joined_rows w row = Some rows \<and> set rows \<inter> set (w_locked w) = {} \<and>
          claimable t row \<and> run = claimed t (w_clock w) row \<and> w' = w\<lparr>w_runs := w_runs w'\<rparr> \<and>
          (\<forall>j. get_run w' j = (if j = i then Some (run\<lparr>pr_updated_at := w_clock w\<rparr>) else get_run w j)))
   | (Inl e, w') \<Rightarrow> w' = w \<and> raised_class e = Some RunClaimRejected \<and>
       (case get_run w i of
          None \<Rightarrow> True
        | Some row \<Rightarrow> (case joined_rows w row of
            None \<Rightarrow> True
          | Some rows \<Rightarrow> \<not> (claimable t row \<and> set rows \<inter> set (w_locked w) = {})))"
proof (cases "claim_run i t w")
  case (Pair r w')
  show ?thesis
  proof (cases r)
    case (Inr run)
    from claim_run_Inr [OF Pair [unfolded Inr]] show ?thesis
      using Pair Inr unlocked_iff [of i w] by auto
  next
    case (Inl e)
    have "\<not> (\<exists>row. unlocked i w \<and> get_run w i = Some row \<and> claimable t row)"
      using claim_run_ok [of i w _ t] Pair Inl by fastforce
    then have "case get_run w i of None \<Rightarrow> True | Some row \<Rightarrow> (case joined_rows w row of None \<Rightarrow> True
        | Some rows \<Rightarrow> \<not> (claimable t row \<and> set rows \<inter> set (w_locked w) = {}))"
      unfolding unlocked_iff by (auto split: option.split)
    with claim_run_Inl [OF Pair [unfolded Inl]] show ?thesis using Pair Inl by simp
  qed
qed

text \<open>A claimed run stays with its owner. After a claim by one task, no sequence of claims by
  other tasks, of this or of any other run, takes it away; and a finished run can never be
  claimed again.\<close>

theorem claim_is_exclusive:
  assumes "claim_run i t w = (Inr run, w')"
    and "\<forall>(j, t') \<in> set attempts. j = i \<longrightarrow> t' \<noteq> t"
    and "run_finished w k"
  shows "run_owner (fold (\<lambda>(j, t') w. snd (claim_run j t' w)) attempts w') i = Some t \<and>
    run_finished (fold (\<lambda>(j, t') w. snd (claim_run j t' w)) attempts w') k"
proof -
  have "k \<noteq> i" using assms(1,3) claims.claim_finished [of w k t] by auto
  with claims.claim_other [OF assms(1)] assms(3) have "run_finished w' k" by simp
  with claims.finished_stays claims.others_cannot_take [OF _ assms(2)] claims.claim_owns [OF assms(1)]
  show ?thesis by blast
qed

definition example_run :: pipeline_run where
  "example_run = \<lparr>pr_id = ''r1'', pr_pipeline_id = ''p1'', pr_status = PENDING, pr_trigger = MANUAL,
     pr_idempotency_key = ''k1'', pr_started_at = None, pr_finished_at = None, pr_continued_from = None,
     pr_attempt = 0, pr_celery_task_id = None, pr_last_successful_cursor = None, pr_pages_extracted = 0,
     pr_records_extracted = 0, pr_records_loaded = 0, pr_raw_payload_count = 0, pr_error_category = None,
     pr_error_message = None, pr_error_is_retryable = None, pr_updated_at = 0\<rparr>"

definition example_pipeline :: pipeline where
  "example_pipeline = \<lparr>pl_id = ''p1'', pl_name = ''p'', pl_source_connection = ''c1'',
     pl_destination_connection = ''c2'', pl_extraction_config = [], pl_destination_mapping = [(''id'', ''a'')],
     pl_strict_mapping = True, pl_schedule_cron = None, pl_is_active = True\<rparr>"

definition example_connections :: "connection list" where
  "example_connections = [\<lparr>cn_id = ''c1'', cn_name = ''s'', cn_kind = SOURCE, cn_connector_type = ''rest_api'',
                           cn_config = []\<rparr>,
                         \<lparr>cn_id = ''c2'', cn_name = ''d'', cn_kind = DESTINATION, cn_connector_type = ''sqlserver'',
                           cn_config = []\<rparr>]"

definition example_world :: world where
  "example_world = \<lparr>w_runs = [example_run, example_run\<lparr>pr_id := ''r2'', pr_status := SUCCEEDED\<rparr>], w_tasks = [],
     w_raw = [], w_pipelines = [example_pipeline], w_connections = example_connections, w_credentials = [], w_secrets = [], w_clock = 7,
     w_drawn = 0, w_locked = [], w_broker = []\<rparr>"

lemma example_rows:
  "get_run example_world ''r1'' = Some example_run"
  "get_run example_world ''r2'' = Some (example_run\<lparr>pr_id := ''r2'', pr_status := SUCCEEDED\<rparr>)"
  by (simp_all add: get_run_def find_row_def example_world_def example_run_def)

lemma example_unlocked: "unlocked ''r1'' example_world" "unlocked ''r2'' example_world"
  by code_simp+

theorem claim_is_exclusive_witness:
  "\<exists>run w'. claim_run ''r1'' (Some ''t1'') example_world = (Inr run, w') \<and>
     run_owner (snd (claim_run ''r1'' (Some ''t2'') w')) ''r1'' = Some (Some ''t1'') \<and>
     run_finished (snd (claim_run ''r1'' (Some ''t2'') w')) ''r2''"
proof -
  obtain w' where c: "claim_run ''r1'' (Some ''t1'') example_world =
      (Inr (claimed (Some ''t1'') (w_clock example_world) example_run), w')"
    using claim_run_ok [OF example_unlocked(1) example_rows(1), of "Some ''t1''"]
    by (auto simp: claimable_def example_run_def)
  moreover have "run_finished example_world ''r2''" by (simp add: run_finished_def example_rows)
  ultimately show ?thesis
    using claim_is_exclusive [OF c, where attempts = "[(''r1'', Some ''t2'')]" and k = "''r2''"] by auto
qed

end
