(* ===== verification/Redaction.thy ===== *)
theory Redaction
  imports Prelude
begin

text \<open>
  \<^verbatim>\<open>apps/core/redaction.py\<close>: the redaction of secrets in error text and its
  truncation. Regular expressions are modelled with the backtracking order of Python's
  \<^verbatim>\<open>re\<close>: an expression maps a text to the remainders of its matches, the preferred
  match first.
\<close>

subsection \<open>Regular expressions over a prefix of the text\<close>

datatype rx =
    Cls "char \<Rightarrow> bool"
  | Star "char \<Rightarrow> bool"
  | Eps
  | Sq rx rx
  | Alt rx rx

fun star_ends :: "(char \<Rightarrow> bool) \<Rightarrow> string \<Rightarrow> string list" where
  "star_ends p [] = [[]]"
| "star_ends p (c # cs) = (if p c then star_ends p cs @ [c # cs] else [c # cs])"

fun rx_ends :: "rx \<Rightarrow> string \<Rightarrow> string list" where
  "rx_ends (Cls p) s = (case s of [] \<Rightarrow> [] | c # cs \<Rightarrow> if p c then [cs] else [])"
| "rx_ends (Star p) s = star_ends p s"
| "rx_ends Eps s = [s]"
| "rx_ends (Sq a b) s = concat (map (rx_ends b) (rx_ends a s))"
| "rx_ends (Alt a b) s = rx_ends a s @ rx_ends b s"

definition Plus :: "(char \<Rightarrow> bool) \<Rightarrow> rx" where
  "Plus p = Sq (Cls p) (Star p)"

definition Opt :: "rx \<Rightarrow> rx" where
  "Opt r = Alt r Eps"

text \<open>Literal text under \<^verbatim>\<open>(?i)\<close>, given in lower case.\<close>

fun Lit :: "string \<Rightarrow> rx" where
  "Lit [] = Eps"
| "Lit (c # cs) = Sq (Cls (\<lambda>x. lower_char x = c)) (Lit cs)"

definition OneOf :: "string \<Rightarrow> rx" where
  "OneOf cs = Cls (\<lambda>x. x \<in> set cs)"

text \<open>A pattern with one group at its start: the text of the group and what follows the match.\<close>

definition group_match :: "rx \<times> rx \<Rightarrow> string \<Rightarrow> (string \<times> string) option" where
  "group_match pat s =
     (case concat (map (\<lambda>g. map (\<lambda>t. (take (length s - length g) s, t)) (rx_ends (snd pat) g))
                       (rx_ends (fst pat) s)) of
        [] \<Rightarrow> None
      | m # ms \<Rightarrow> Some m)"

text \<open>\<^verbatim>\<open>pattern.sub\<close> with the replacement \<^verbatim>\<open>\1[redacted]\<close>: the leftmost match is
  replaced and the scan goes on behind it.\<close>

function redact_sub :: "rx \<times> rx \<Rightarrow> string \<Rightarrow> string" where
  "redact_sub pat [] = []"
| "redact_sub pat (c # cs) =
     (case group_match pat (c # cs) of
        None \<Rightarrow> c # redact_sub pat cs
      | Some (g, t) \<Rightarrow>
          if length t < length (c # cs) then g @ ''[redacted]'' @ redact_sub pat t
          else c # redact_sub pat cs)"
  by pat_completeness auto
termination
  by (relation "measure (\<lambda>(pat, s). length s)") auto

subsection \<open>The three patterns and the pass\<close>

definition not_space :: "char \<Rightarrow> bool" where
  "not_space c = (\<not> is_space c)"

definition authorization_pattern :: "rx \<times> rx" where
  "authorization_pattern =
     (Sq (Lit ''authorization'') (Sq (Star is_space) (Sq (OneOf '':='') (Star is_space))),
      Sq (Opt (Sq (Lit ''bearer'') (Plus is_space))) (Plus not_space))"

definition bearer_pattern :: "rx \<times> rx" where
  "bearer_pattern = (Sq (Lit ''bearer'') (Plus is_space), Plus not_space)"

definition keyword_pattern :: "rx \<times> rx" where
  "keyword_pattern =
     (Sq (Alt (Sq (Lit ''api'') (Sq (Opt (OneOf ''_-'')) (Lit ''key'')))
          (Alt (Lit ''password'') (Alt (Lit ''secret'') (Lit ''token''))))
      (Sq (Star is_space) (Sq (Opt (OneOf [CHR 0x22, CHR 0x27])) (Sq (Star is_space)
      (Sq (OneOf '':='') (Sq (Star is_space) (Opt (OneOf [CHR 0x22, CHR 0x27]))))))),
      Plus not_space)"

definition redact_patterns :: "(rx \<times> rx) list" where
  "redact_patterns = [authorization_pattern, bearer_pattern, keyword_pattern]"

definition MAX_ERROR_MESSAGE_LENGTH :: nat where
  "MAX_ERROR_MESSAGE_LENGTH = 1000"

definition sanitize_error_message :: "string \<Rightarrow> string" where
  "sanitize_error_message message =
     (let redacted = foldl (\<lambda>text pat. redact_sub pat text) message redact_patterns
      in if MAX_ERROR_MESSAGE_LENGTH < length redacted
         then take MAX_ERROR_MESSAGE_LENGTH redacted @ ''... [truncated]''
         else redacted)"

subsection \<open>Bounds\<close>

text \<open>A sanitized message is never longer than the limit and the truncation marker, whatever
  the upstream library put into its exception text.\<close>

theorem sanitize_error_message_bounded: "length (sanitize_error_message message) \<le> 1015"
  by (simp add: sanitize_error_message_def Let_def MAX_ERROR_MESSAGE_LENGTH_def)

subsection \<open>What a match removes\<close>

lemma rx_ends_Lit:
  "rx_ends (Lit w) s = (if starts_with (py_lower s) w then [drop (length w) s] else [])"
proof (induction w arbitrary: s)
  case (Cons c cs)
  then show ?case
    by (cases s) (auto simp: starts_with_def py_lower_def)
qed (simp add: starts_with_def)

declare Lit.simps [simp del]

lemma hd_star_ends:
  "list_all p tok \<Longrightarrow> rest = [] \<or> \<not> p (hd rest) \<Longrightarrow> \<exists>more. star_ends p (tok @ rest) = rest # more"
proof (induction tok)
  case Nil
  then show ?case by (cases rest) auto
qed auto

lemma group_match_quiet:
  "rx_ends (fst pat) s = [] \<Longrightarrow> group_match pat s = None"
  by (simp add: group_match_def)

text \<open>A text in which a word, in any case, does not occur.\<close>

fun occurs :: "string \<Rightarrow> string \<Rightarrow> bool" where
  "occurs w [] = (w = [])"
| "occurs w (c # cs) = (starts_with (py_lower (c # cs)) w \<or> occurs w cs)"

lemma redact_sub_skip:
  assumes "\<And>i. i < length pre \<Longrightarrow> group_match pat (drop i pre @ s) = None"
  shows "redact_sub pat (pre @ s) = pre @ redact_sub pat s"
  using assms
proof (induction pre)
  case (Cons c pre)
  have "group_match pat (c # pre @ s) = None" using Cons.prems [of 0] by simp
  moreover have "redact_sub pat (pre @ s) = pre @ redact_sub pat s"
  proof (rule Cons.IH)
    fix i
    assume "i < length pre"
    then show "group_match pat (drop i pre @ s) = None" using Cons.prems [of "Suc i"] by simp
  qed
  ultimately show ?case by simp
qed simp

text \<open>The word \<^verbatim>\<open>authorization\<close> has no proper border, so it cannot start inside a text
  that does not contain it and end in a text that starts with it.\<close>

definition auth_word :: string where
  "auth_word = ''authorization''"

lemma auth_word_no_border: "0 < k \<Longrightarrow> k < 13 \<Longrightarrow> take (13 - k) auth_word \<noteq> drop k auth_word"
proof -
  have "list_all (\<lambda>k. take (13 - k) auth_word \<noteq> drop k auth_word) [1..<13]"
    unfolding auth_word_def by code_simp
  then show "0 < k \<Longrightarrow> k < 13 \<Longrightarrow> take (13 - k) auth_word \<noteq> drop k auth_word"
    by (simp add: list_all_iff)
qed

lemma occurs_suffix: "\<not> occurs w s \<Longrightarrow> \<not> starts_with (py_lower (drop i s)) w"
proof (induction w s arbitrary: i rule: occurs.induct)
  case (1 w)
  then show ?case by (simp add: starts_with_def py_lower_def)
next
  case (2 w c cs)
  then show ?case by (cases i) auto
qed

lemma auth_word_not_inside:
  assumes pre: "\<not> occurs auth_word pre" and i: "i < length pre"
    and s: "starts_with (py_lower s) auth_word"
  shows "\<not> starts_with (py_lower (drop i pre @ s)) auth_word"
proof
  assume a: "starts_with (py_lower (drop i pre @ s)) auth_word"
  let ?k = "length pre - i"
  let ?p = "py_lower (drop i pre)"
  have len: "length ?p = ?k" "length auth_word = 13" by (simp_all add: py_lower_def auth_word_def)
  obtain r where r: "py_lower s = auth_word @ r" using s starts_withE by blast
  have eq: "take 13 (?p @ auth_word @ r) = auth_word"
    using a r len by (simp add: starts_with_def)
  show False
  proof (cases "?k < 13")
    case True
    have "?p @ take (13 - ?k) (auth_word @ r) = auth_word"
      using eq True len by simp
    then have "drop ?k auth_word = take (13 - ?k) auth_word"
      using True len by (metis append_eq_conv_conj diff_le_self le_refl take_append diff_is_0_eq take_0 append_Nil2 )
    with auth_word_no_border [of ?k] True i show False by simp
  next
    case False
    then have "starts_with ?p auth_word"
      using eq len by (simp add: starts_with_def)
    with occurs_suffix [OF pre] show False by blast
  qed
qed

text \<open>A secret: a run of characters without white space, up to white space or the end.\<close>

definition token_before :: "string \<Rightarrow> string \<Rightarrow> bool" where
  "token_before tok rest = (tok \<noteq> [] \<and> list_all not_space tok \<and> (rest = [] \<or> is_space (hd rest)))"

lemma Plus_not_space_hd:
  "token_before tok rest \<Longrightarrow> \<exists>more. rx_ends (Plus not_space) (tok @ rest) = rest # more"
  using hd_star_ends [of not_space "tl tok" rest]
  by (cases tok) (auto simp: token_before_def Plus_def not_space_def)

lemma is_space_blank: "is_space (CHR '' '')" "\<not> is_space (CHR '':'')" "\<not> is_space (CHR ''B'')"
  by (simp_all add: is_space_def Let_def)

lemma Lit_hit: "py_lower p = w \<Longrightarrow> rx_ends (Lit w) (p @ s) = [s]"
  by (auto simp: rx_ends_Lit starts_with_def py_lower_def)

lemma Lit_authorization:
  "rx_ends (Lit ''authorization'') (''Authorization: Bearer '' @ s) = ['': Bearer '' @ s]"
  using Lit_hit [of "''Authorization''" "''authorization''" "'': Bearer '' @ s"]
  by (simp add: py_lower_def) code_simp

lemma Lit_bearer: "rx_ends (Lit ''bearer'') (''Bearer '' @ s) = ['' '' @ s]"
  using Lit_hit [of "''Bearer''" "''bearer''" "'' '' @ s"]
  by (simp add: py_lower_def) code_simp

lemma authorization_hit:
  assumes "token_before tok rest"
  shows "group_match authorization_pattern (''Authorization: Bearer '' @ tok @ rest) =
         Some (''Authorization: '', rest)"
proof -
  let ?s = "''Authorization: Bearer '' @ tok @ rest"
  obtain more where more: "rx_ends (Plus not_space) (tok @ rest) = rest # more"
    using Plus_not_space_hd [OF assms] by blast
  obtain c tok' where tok: "tok = c # tok'" and c: "\<not> is_space c"
    using assms by (cases tok) (auto simp: token_before_def not_space_def)
  have g: "rx_ends (fst authorization_pattern) ?s =
           [''Bearer '' @ tok @ rest, '' Bearer '' @ tok @ rest]"
    using Lit_authorization [of "tok @ rest"] is_space_blank
    by (simp add: authorization_pattern_def OneOf_def)
  have "\<exists>ys. rx_ends (Opt (Sq (Lit ''bearer'') (Plus is_space))) (''Bearer '' @ tok @ rest) =
          (tok @ rest) # ys"
    using Lit_bearer [of "tok @ rest"] is_space_blank tok c
    by (simp add: Opt_def Plus_def)
  then obtain ys where "rx_ends (snd authorization_pattern) (''Bearer '' @ tok @ rest) = rest # ys"
    using more by (auto simp: authorization_pattern_def)
  then show ?thesis
    using g by (simp add: group_match_def)
qed

lemma redact_authorization:
  assumes "\<not> occurs auth_word pre" "token_before tok rest"
  shows "redact_sub authorization_pattern (pre @ ''Authorization: Bearer '' @ tok @ rest) =
         pre @ ''Authorization: [redacted]'' @ redact_sub authorization_pattern rest"
proof -
  let ?s = "''Authorization: Bearer '' @ tok @ rest"
  have "starts_with (py_lower ?s) auth_word"
    using Lit_authorization [of "tok @ rest"]
    by (auto simp: rx_ends_Lit auth_word_def split: if_splits)
  then have "redact_sub authorization_pattern (pre @ ?s) = pre @ redact_sub authorization_pattern ?s"
    using auth_word_not_inside [OF assms(1)]
    by (intro redact_sub_skip group_match_quiet)
       (auto simp: authorization_pattern_def rx_ends_Lit auth_word_def)
  also have "redact_sub authorization_pattern ?s =
      ''Authorization: [redacted]'' @ redact_sub authorization_pattern rest"
    using authorization_hit [OF assms(2)] by simp
  finally show ?thesis .
qed

text \<open>A bearer token in an \<^verbatim>\<open>Authorization\<close> header echoed by an upstream library does
  not influence what is stored: two messages that differ only in the token, at the first
  \<^verbatim>\<open>authorization\<close> in the text, have the same sanitized form.\<close>

theorem bearer_token_not_leaked:
  assumes "\<not> occurs auth_word pre" "token_before tok rest" "token_before tok' rest"
  shows "sanitize_error_message (pre @ ''Authorization: Bearer '' @ tok @ rest) =
         sanitize_error_message (pre @ ''Authorization: Bearer '' @ tok' @ rest)"
  using redact_authorization [OF assms(1,2)] redact_authorization [OF assms(1,3)]
  by (simp add: sanitize_error_message_def redact_patterns_def)

theorem bearer_token_not_leaked_witness:
  "sanitize_error_message (''HTTP 500, sent '' @ ''Authorization: Bearer '' @ ''s3cr3t'' @ '' to host'') =
   sanitize_error_message (''HTTP 500, sent '' @ ''Authorization: Bearer '' @ ''other'' @ '' to host'')"
  by (rule bearer_token_not_leaked) code_simp+

text \<open>The same pass does not cover the other scheme the platform sends: of a Basic
  \<^verbatim>\<open>Authorization\<close> header only the scheme word is redacted, and the encoded
  user name and password stay in the stored message.\<close>

theorem basic_credentials_survive_redaction:
  "sanitize_error_message ''Authorization: Basic dXNlcjpwYXNz'' =
   ''Authorization: [redacted] dXNlcjpwYXNz''"
  by code_simp

end
