(* ===== verification/Orchestration.thy ===== *)
theory Orchestration
  imports RestApi S3Store Secrets Claims Redaction
begin

text \<open>
  \<^verbatim>\<open>apps/execution/orchestration.py\<close>, \<^verbatim>\<open>apps/rawstore/service.py\<close> and
  \<^verbatim>\<open>apps/connectors/registry.py\<close>: the execution of a claimed run, page by page. The state is
  the tenant's schema together with the network, the destination databases, the object storage
  and the raw store's cache; what is not the platform's code is collected in \<open>platform\<close>.
\<close>

subsection \<open>Platform and state\<close>

record ('n, 'd, 't, 's) platform =
  pf_policy :: policy_env
  pf_http :: "'n http_lib"
  pf_sql :: "('d, 't) sql_lib"
  pf_s3 :: "'s s3_lib"
  pf_store :: store_env
  pf_fernet :: fernet
  pf_ids :: "nat \<Rightarrow> uuid"

record ('n, 'd, 's) system =
  sy_world :: world
  sy_net :: 'n
  sy_dest :: 'd
  sy_objects :: 's
  sy_cache :: uuid_cache

subsection \<open>Storing a raw payload\<close>

definition storage_key :: "uuid \<Rightarrow> uuid \<Rightarrow> nat \<Rightarrow> string \<Rightarrow> string" where
  "storage_key pipeline run sequence checksum =
     pipeline @ ''/'' @ run @ ''/'' @ pad6 sequence @ ''-'' @ checksum @ ''.raw''"

definition find_raw :: "uuid \<Rightarrow> nat \<Rightarrow> string \<Rightarrow> world \<Rightarrow> raw_payload_record option" where
  "find_raw run sequence checksum w =
     find (\<lambda>r. rp_run r = run \<and> rp_sequence r = sequence \<and> rp_checksum r = checksum) (w_raw w)"

text \<open>\<^verbatim>\<open>get_or_create\<close> by (run, sequence, checksum); a row of a run that is gone violates the
  foreign key.\<close>

definition get_or_create_raw ::
  "(nat \<Rightarrow> uuid) \<Rightarrow> raw_payload_record \<Rightarrow> world \<Rightarrow> (exn + raw_payload_record) \<times> world" where
  "get_or_create_raw ids new w =
     (case find_raw (rp_run new) (rp_sequence new) (rp_checksum new) w of
        Some record \<Rightarrow> (Inr record, w)
      | None \<Rightarrow>
          if get_run w (rp_run new) = None
          then (Inl (PyExn DatabaseError ''insert or update violates foreign key constraint''), w)
          else (case uuid4 ids w of (i, w') \<Rightarrow>
                  let record = new\<lparr>rp_id := i, rp_updated_at := w_clock w\<rparr>
                  in (Inr record, w'\<lparr>w_raw := w_raw w' @ [record]\<rparr>)))"

definition store_raw_payload ::
  "('n, 'd, 't, 's) platform \<Rightarrow> pipeline_run \<Rightarrow> nat \<Rightarrow> fetch_result \<Rightarrow> ('n, 'd, 's) system \<Rightarrow>
   (exn + raw_payload_record) \<times> ('n, 'd, 's) system" where
  "store_raw_payload pf run sequence page sy =
     (let data = fr_raw_payload page;
          checksum = sha256 (pf_s3 pf) data;
          key = storage_key (pr_pipeline_id run) (pr_id run) sequence checksum
      in case store_put (pf_store pf) (pf_s3 pf) key data (fr_content_type page) (sy_cache sy, sy_objects sy) of
           (Inl e, cache', s') \<Rightarrow> (Inl e, sy\<lparr>sy_cache := cache', sy_objects := s'\<rparr>)
         | (Inr uri, cache', s') \<Rightarrow>
             (case get_or_create_raw (pf_ids pf)
                     \<lparr>rp_id = [], rp_run = pr_id run, rp_storage_uri = uri, rp_content_type = fr_content_type page,
                      rp_size_bytes = length data, rp_checksum = checksum, rp_sequence = sequence, rp_loaded = False,
                      rp_cursor_used = fr_cursor_used page, rp_next_cursor = fr_next_cursor page,
                      rp_item_count = length (fr_records page),
                      rp_source_path = or_default [] (fr_source_path page),
                      rp_http_status = fr_http_status page, rp_updated_at = 0\<rparr> (sy_world sy) of
                (r, w') \<Rightarrow> (r, sy\<lparr>sy_world := w', sy_cache := cache', sy_objects := s'\<rparr>)))"

subsection \<open>One page\<close>

text \<open>What stays fixed while a run executes.\<close>

record load_context =
  lc_config :: config
  lc_source_credential :: credential
  lc_dest_config :: "(string \<times> json) list"
  lc_dest_credential :: credential
  lc_mapping :: "(string \<times> string) list"
  lc_strict :: bool

definition copy_loaded :: "raw_payload_record \<Rightarrow> raw_payload_record \<Rightarrow> raw_payload_record" where
  "copy_loaded r row = row\<lparr>rp_loaded := rp_loaded r\<rparr>"

definition copy_progress :: "pipeline_run \<Rightarrow> pipeline_run \<Rightarrow> pipeline_run" where
  "copy_progress run row = row\<lparr>pr_pages_extracted := pr_pages_extracted run,
     pr_records_extracted := pr_records_extracted run, pr_records_loaded := pr_records_loaded run,
     pr_raw_payload_count := pr_raw_payload_count run,
     pr_last_successful_cursor := pr_last_successful_cursor run\<rparr>"

text \<open>\<^verbatim>\<open>page.next_cursor or page.cursor_used\<close>\<close>

definition resume_cursor :: "fetch_result \<Rightarrow> string option" where
  "resume_cursor page = (if nonempty_opt (fr_next_cursor page) then fr_next_cursor page else fr_cursor_used page)"

definition advance :: "nat \<Rightarrow> fetch_result \<Rightarrow> nat \<Rightarrow> pipeline_run \<Rightarrow> pipeline_run" where
  "advance sequence page loaded_count run =
     run\<lparr>pr_pages_extracted := sequence,
         pr_records_extracted := pr_records_extracted run + length (fr_records page),
         pr_records_loaded := pr_records_loaded run + loaded_count,
         pr_raw_payload_count := pr_raw_payload_count run + 1,
         pr_last_successful_cursor := resume_cursor page\<rparr>"

text \<open>The body of the \<^verbatim>\<open>for page in source.fetch(...)\<close> loop.\<close>

definition process_page ::
  "('n, 'd, 't, 's) platform \<Rightarrow> load_context \<Rightarrow> nat \<Rightarrow> fetch_result \<Rightarrow> pipeline_run \<Rightarrow>
   ('n, 'd, 's) system \<Rightarrow> (exn + unit) \<times> pipeline_run \<times> ('n, 'd, 's) system" where
  "process_page pf c sequence page run sy =
     (case store_raw_payload pf run sequence page sy of
        (Inl e, sy1) \<Rightarrow> (Inl e, run, sy1)
      | (Inr raw, sy1) \<Rightarrow>
          (case map_records (lc_strict c) (lc_mapping c) (fr_records page) of
             Inl e \<Rightarrow> (Inl e, run, sy1)
           | Inr rows \<Rightarrow>
               (case load (pf_sql pf) (lc_dest_config c) (lc_dest_credential c) ''append'' rows (sy_dest sy1) of
                  (Inl e, d') \<Rightarrow> (Inl e, run, sy1\<lparr>sy_dest := d'\<rparr>)
                | (Inr loaded_count, d') \<Rightarrow>
                    let sy2 = sy1\<lparr>sy_dest := d'\<rparr> in
                    (case save_raw copy_loaded (raw\<lparr>rp_loaded := True\<rparr>) (sy_world sy2) of
                       Inl e \<Rightarrow> (Inl e, run, sy2)
                     | Inr w2 \<Rightarrow>
                         let run' = advance sequence page loaded_count run in
                         (case save_run copy_progress run' w2 of
                            Inl e \<Rightarrow> (Inl e, run', sy2\<lparr>sy_world := w2\<rparr>)
                          | Inr w3 \<Rightarrow> (Inr (), run', sy2\<lparr>sy_world := w3\<rparr>))))))"

subsection \<open>The loop\<close>

text \<open>\<^verbatim>\<open>_extract_and_load\<close> from a state of the source's generator on. It ends because the source
  does: each page uses up some of the generator's budget.\<close>

function extract_loop ::
  "('n, 'd, 't, 's) platform \<Rightarrow> load_context \<Rightarrow> fetch_state \<Rightarrow> nat \<Rightarrow> pipeline_run \<Rightarrow>
   ('n, 'd, 's) system \<Rightarrow> (exn + unit) \<times> pipeline_run \<times> ('n, 'd, 's) system" where
  "extract_loop pf c g sequence run sy =
     (case fetch_next (pf_policy pf) (pf_http pf) (lc_config c) (lc_source_credential c) g (sy_net sy) of
        (Stopped, g', net') \<Rightarrow> (Inr (), run, sy\<lparr>sy_net := net'\<rparr>)
      | (Raised e, g', net') \<Rightarrow> (Inl e, run, sy\<lparr>sy_net := net'\<rparr>)
      | (Yielded page, g', net') \<Rightarrow>
          (case process_page pf c (sequence + 1) page run (sy\<lparr>sy_net := net'\<rparr>) of
             (Inl e, run', sy') \<Rightarrow> (Inl e, run', sy')
           | (Inr _, run', sy') \<Rightarrow> extract_loop pf c g' (sequence + 1) run' sy'))"
  by pat_completeness auto
termination
  by (relation "measure (\<lambda>(pf, c, g, sequence, run, sy). fetch_budget (lc_config c) g)")
    (auto dest!: sym [of _ "fetch_next _ _ _ _ _ _"] dest: fetch_uses_budget simp del: fetch_next.simps)

declare extract_loop.simps [simp del]

definition extract_and_load ::
  "('n, 'd, 't, 's) platform \<Rightarrow> load_context \<Rightarrow> pipeline_run \<Rightarrow> ('n, 'd, 's) system \<Rightarrow>
   (exn + unit) \<times> pipeline_run \<times> ('n, 'd, 's) system" where
  "extract_and_load pf c run sy =
     extract_loop pf c (FetchStart (pr_last_successful_cursor run)) (pr_pages_extracted run) run sy"

subsection \<open>Executing a run\<close>

text \<open>The connector registries: one source, one destination.\<close>

definition available_source_types :: "string list" where
  "available_source_types = [''rest_api'']"

definition available_destination_types :: "string list" where
  "available_destination_types = [''sqlserver'']"

definition get_connector :: "string list \<Rightarrow> string \<Rightarrow> exn + unit" where
  "get_connector registry type_key =
     (if type_key \<in> set registry then Inr () else Inl (PyExn KeyError (py_repr type_key)))"

text \<open>\<^verbatim>\<open>_resolve_credential\<close>: a connection without a credential has the empty one; a payload is
  an object, as \<^verbatim>\<open>create_for_connection\<close> stores nothing else.\<close>

definition resolve_credential ::
  "('n, 'd, 't, 's) platform \<Rightarrow> uuid \<Rightarrow> world \<Rightarrow> exn + credential" where
  "resolve_credential pf conn w =
     (case find_row cr_connection conn (w_credentials w) of
        None \<Rightarrow> Inr []
      | Some row \<Rightarrow>
          ebind (credential_resolve (pf_fernet pf) (hl_json_loads (pf_http pf)) row w) (\<lambda>v.
            case v of JObj kvs \<Rightarrow> Inr kvs
            | _ \<Rightarrow> Inl (PyExn AttributeError (type_name v @ '' object has no attribute get''))))"

definition load_context_of ::
  "('n, 'd, 't, 's) platform \<Rightarrow> pipeline_run \<Rightarrow> world \<Rightarrow> exn + load_context" where
  "load_context_of pf run w =
     (case get_pipeline w (pr_pipeline_id run) of
        None \<Rightarrow> Inl (PyExn OtherException ''pipeline'')
      | Some pl \<Rightarrow>
          (case (get_connection w (pl_source_connection pl), get_connection w (pl_destination_connection pl)) of
             (Some source, Some dest) \<Rightarrow>
               if pl_destination_mapping pl = []
               then Inl (mapping_error (''pipeline '' @ pl_id pl @ '' has no destination_mapping configured''))
               else ebind (get_connector available_source_types (cn_connector_type source)) (\<lambda>_.
                    ebind (get_connector available_destination_types (cn_connector_type dest)) (\<lambda>_.
                    ebind (resolve_credential pf (cn_id source) w) (\<lambda>source_credential.
                    ebind (resolve_credential pf (cn_id dest) w) (\<lambda>dest_credential.
                      Inr \<lparr>lc_config = dict_merge (cn_config source) (pl_extraction_config pl),
                           lc_source_credential = source_credential, lc_dest_config = cn_config dest,
                           lc_dest_credential = dest_credential, lc_mapping = pl_destination_mapping pl,
                           lc_strict = pl_strict_mapping pl\<rparr>))))
           | _ \<Rightarrow> Inl (PyExn OtherException ''connection'')))"

definition execute ::
  "('n, 'd, 't, 's) platform \<Rightarrow> pipeline_run \<Rightarrow> ('n, 'd, 's) system \<Rightarrow>
   (exn + unit) \<times> pipeline_run \<times> ('n, 'd, 's) system" where
  "execute pf run sy =
     (case load_context_of pf run (sy_world sy) of
        Inl e \<Rightarrow> (Inl e, run, sy)
      | Inr c \<Rightarrow> extract_and_load pf c run sy)"

subsection \<open>Recording the outcome\<close>

definition copy_task_finished :: "task_execution \<Rightarrow> task_execution \<Rightarrow> task_execution" where
  "copy_task_finished te row = row\<lparr>te_status := te_status te, te_finished_at := te_finished_at te\<rparr>"

definition copy_task_error :: "task_execution \<Rightarrow> task_execution \<Rightarrow> task_execution" where
  "copy_task_error te row = row\<lparr>te_status := te_status te, te_error_message := te_error_message te\<rparr>"

definition copy_task_failed :: "task_execution \<Rightarrow> task_execution \<Rightarrow> task_execution" where
  "copy_task_failed te row = row\<lparr>te_status := te_status te, te_error_message := te_error_message te,
     te_finished_at := te_finished_at te\<rparr>"

definition record_success ::
  "pipeline_run \<Rightarrow> task_execution \<Rightarrow> ('n, 'd, 's) system \<Rightarrow> (exn + unit) \<times> ('n, 'd, 's) system" where
  "record_success run te sy =
     (case mark_run_succeeded run (sy_world sy) of
        (Inl e, run', w) \<Rightarrow> (Inl e, sy\<lparr>sy_world := w\<rparr>)
      | (Inr _, run', w) \<Rightarrow>
          (case save_task copy_task_finished
                  (te\<lparr>te_status := SUCCEEDED, te_finished_at := Some (w_clock (sy_world sy))\<rparr>) w of
             Inl e \<Rightarrow> (Inl e, sy\<lparr>sy_world := w\<rparr>)
           | Inr w' \<Rightarrow> (Inr (), sy\<lparr>sy_world := w'\<rparr>)))"

definition record_failure ::
  "pipeline_run \<Rightarrow> task_execution \<Rightarrow> dl_error \<Rightarrow> bool \<Rightarrow> ('n, 'd, 's) system \<Rightarrow>
   (exn + unit) \<times> ('n, 'd, 's) system" where
  "record_failure run te err is_final_attempt sy =
     (let message = sanitize_error_message (err_message err);
          should_finalize = (is_final_attempt \<or> \<not> err_retryable err)
      in case (if should_finalize
               then mark_run_failed (err_category err) message (err_retryable err) run (sy_world sy)
               else record_pending_retry (err_category err) message (err_retryable err) run (sy_world sy)) of
           (Inl e, run', w) \<Rightarrow> (Inl e, sy\<lparr>sy_world := w\<rparr>)
         | (Inr _, run', w) \<Rightarrow>
             (case (if should_finalize
                    then save_task copy_task_failed (te\<lparr>te_status := FAILED, te_error_message := Some message,
                           te_finished_at := Some (w_clock w)\<rparr>) w
                    else save_task copy_task_error (te\<lparr>te_status := RUNNING, te_error_message := Some message\<rparr>) w) of
                Inl e \<Rightarrow> (Inl e, sy\<lparr>sy_world := w\<rparr>)
              | Inr w' \<Rightarrow> (Inr (), sy\<lparr>sy_world := w'\<rparr>)))"

definition unexpected_error :: "string \<Rightarrow> dl_error" where
  "unexpected_error msg = mk_error DataLakeError msg False (Some ''UnexpectedError'')"

text \<open>The error under which a failure is recorded and re-raised.\<close>

fun recorded_error :: "exn \<Rightarrow> dl_error" where
  "recorded_error (Domain d) = d"
| "recorded_error (PyExn c msg) = unexpected_error msg"

definition create_task_execution ::
  "(nat \<Rightarrow> uuid) \<Rightarrow> pipeline_run \<Rightarrow> world \<Rightarrow> task_execution \<times> world" where
  "create_task_execution ids run w =
     (case uuid4 ids w of (i, w') \<Rightarrow>
        let te = \<lparr>te_id = i, te_run = pr_id run, te_step = RUN_STEP, te_status = RUNNING,
                  te_attempt = pr_attempt run, te_started_at = Some (w_clock w), te_finished_at = None,
                  te_error_message = None, te_updated_at = w_clock w\<rparr>
        in (te, w'\<lparr>w_tasks := w_tasks w' @ [te]\<rparr>))"

definition run_pipeline ::
  "('n, 'd, 't, 's) platform \<Rightarrow> uuid \<Rightarrow> string option \<Rightarrow> bool \<Rightarrow> ('n, 'd, 's) system \<Rightarrow>
   (exn + unit) \<times> ('n, 'd, 's) system" where
  "run_pipeline pf run_id celery_task_id is_final_attempt sy =
     (case claim_run run_id celery_task_id (sy_world sy) of
        (Inl e, w) \<Rightarrow> (Inl e, sy\<lparr>sy_world := w\<rparr>)
      | (Inr run, w) \<Rightarrow>
          (case create_task_execution (pf_ids pf) run w of (te, w1) \<Rightarrow>
            (case execute pf run (sy\<lparr>sy_world := w1\<rparr>) of
               (Inr _, run', sy') \<Rightarrow> record_success run' te sy'
             | (Inl e, run', sy') \<Rightarrow>
                 (case record_failure run' te (recorded_error e) is_final_attempt sy' of
                    (Inl e2, sy'') \<Rightarrow> (Inl e2, sy'')
                  | (Inr _, sy'') \<Rightarrow> (Inl (Domain (recorded_error e)), sy'')))))"

subsection \<open>What one page does\<close>

lemma copy_progress_id [simp]: "pr_id (copy_progress run row) = pr_id row"
  by (simp add: copy_progress_def)

lemma advance_simps [simp]:
  "pr_id (advance n page k run) = pr_id run" "pr_status (advance n page k run) = pr_status run"
  "pr_pages_extracted (advance n page k run) = n"
  "pr_celery_task_id (advance n page k run) = pr_celery_task_id run"
  "pr_records_extracted (advance n page k run) = pr_records_extracted run + length (fr_records page)"
  "pr_records_loaded (advance n page k run) = pr_records_loaded run + k"
  "pr_raw_payload_count (advance n page k run) = pr_raw_payload_count run + 1"
  "pr_last_successful_cursor (advance n page k run) = resume_cursor page"
  "pr_pipeline_id (advance n page k run) = pr_pipeline_id run"
  by (simp_all add: advance_def)

lemma find_raw_in: "find_raw run n k w = Some r \<Longrightarrow> r \<in> set (w_raw w) \<and> rp_run r = run \<and> rp_sequence r = n \<and> rp_checksum r = k"
  by (auto simp: find_raw_def find_Some_iff)

text \<open>A run's row is all a step of the loop needs to save; the runs' table is only written by it.\<close>

text \<open>Raw payload rows are never removed, and a version marked as loaded stays so.\<close>

definition raws_kept :: "world \<Rightarrow> world \<Rightarrow> bool" where
  "raws_kept w w' = (\<forall>r \<in> set (w_raw w). \<exists>r' \<in> set (w_raw w'). rp_run r' = rp_run r \<and>
     rp_sequence r' = rp_sequence r \<and> rp_checksum r' = rp_checksum r \<and> (rp_loaded r \<longrightarrow> rp_loaded r'))"

lemma raws_kept_refl: "w_raw w' = w_raw w \<Longrightarrow> raws_kept w w'"
  by (auto simp: raws_kept_def)

lemma raws_kept_append: "w_raw w' = w_raw w @ rs \<Longrightarrow> raws_kept w w'"
  by (auto simp: raws_kept_def)

lemma raws_kept_trans:
  assumes "raws_kept w w1" "raws_kept w1 w2"
  shows "raws_kept w w2"
  unfolding raws_kept_def
proof
  fix r assume "r \<in> set (w_raw w)"
  with assms(1) obtain r1 where r1: "r1 \<in> set (w_raw w1)" "rp_run r1 = rp_run r"
      "rp_sequence r1 = rp_sequence r" "rp_checksum r1 = rp_checksum r" "rp_loaded r \<longrightarrow> rp_loaded r1"
    unfolding raws_kept_def by metis
  with assms(2) obtain r2 where r2: "r2 \<in> set (w_raw w2)" "rp_run r2 = rp_run r1"
      "rp_sequence r2 = rp_sequence r1" "rp_checksum r2 = rp_checksum r1" "rp_loaded r1 \<longrightarrow> rp_loaded r2"
    unfolding raws_kept_def by metis
  show "\<exists>r' \<in> set (w_raw w2). rp_run r' = rp_run r \<and> rp_sequence r' = rp_sequence r \<and>
      rp_checksum r' = rp_checksum r \<and> (rp_loaded r \<longrightarrow> rp_loaded r')"
    using r1 r2 by (intro bexI [OF _ r2(1)]) simp
qed

definition raw_frame :: "world \<Rightarrow> world \<Rightarrow> bool" where
  "raw_frame w w' = (w_runs w' = w_runs w \<and> w_clock w' = w_clock w \<and> w_tasks w' = w_tasks w \<and>
     join_state w' = join_state w \<and> raws_kept w w')"

lemma get_or_create_raw_frame:
  assumes "get_or_create_raw ids new w = (r, w')"
  shows "raw_frame w w' \<and> (\<forall>raw. r = Inr raw \<longrightarrow> raw \<in> set (w_raw w') \<and> rp_run raw = rp_run new \<and>
      rp_sequence raw = rp_sequence new \<and> rp_checksum raw = rp_checksum new) \<and>
    (\<forall>e. r = Inl e \<longrightarrow> get_run w (rp_run new) = None)"
  using assms
  by (auto simp: get_or_create_raw_def raw_frame_def uuid4_def Let_def split: option.splits if_splits
      dest: find_raw_in intro: raws_kept_refl raws_kept_append)

text \<open>The part of the state that storing a payload leaves alone.\<close>

definition store_frame :: "('n, 'd, 's) system \<Rightarrow> ('n, 'd, 's) system \<Rightarrow> bool" where
  "store_frame sy sy' = (sy_net sy' = sy_net sy \<and> sy_dest sy' = sy_dest sy \<and> raw_frame (sy_world sy) (sy_world sy'))"

lemma store_raw_payload_frame:
  assumes "store_raw_payload pf run n page sy = (r, sy')"
  shows "store_frame sy sy' \<and>
    (\<forall>raw. r = Inr raw \<longrightarrow> raw \<in> set (w_raw (sy_world sy')) \<and> rp_run raw = pr_id run \<and>
       rp_sequence raw = n \<and> rp_checksum raw = sha256 (pf_s3 pf) (fr_raw_payload page))"
proof -
  let ?k = "sha256 (pf_s3 pf) (fr_raw_payload page)"
  obtain u c o' where p: "store_put (pf_store pf) (pf_s3 pf) (storage_key (pr_pipeline_id run) (pr_id run) n ?k)
      (fr_raw_payload page) (fr_content_type page) (sy_cache sy, sy_objects sy) = (u, c, o')"
    by (metis prod_cases3)
  show ?thesis
  proof (cases u)
    case (Inl e)
    with assms p show ?thesis
      by (auto simp: store_raw_payload_def Let_def store_frame_def raw_frame_def intro: raws_kept_refl)
  next
    case (Inr uri)
    let ?new = "\<lparr>rp_id = [], rp_run = pr_id run, rp_storage_uri = uri, rp_content_type = fr_content_type page,
                      rp_size_bytes = length (fr_raw_payload page), rp_checksum = ?k, rp_sequence = n, rp_loaded = False,
                      rp_cursor_used = fr_cursor_used page, rp_next_cursor = fr_next_cursor page,
                      rp_item_count = length (fr_records page),
                      rp_source_path = or_default [] (fr_source_path page),
                      rp_http_status = fr_http_status page, rp_updated_at = 0\<rparr>"
    obtain w' where g: "get_or_create_raw (pf_ids pf) ?new (sy_world sy) = (r, w')"
      and sy': "sy' = sy\<lparr>sy_world := w', sy_cache := c, sy_objects := o'\<rparr>"
      using assms p Inr by (auto simp: store_raw_payload_def Let_def split: prod.splits)
    from get_or_create_raw_frame [OF g] show ?thesis
      by (simp add: sy' store_frame_def)
  qed
qed

text \<open>Pages delivered to a destination: each non-empty mapped page was committed, in order.\<close>

fun delivered ::
  "('n, 'd, 't, 's) platform \<Rightarrow> load_context \<Rightarrow> fetch_result list \<Rightarrow> 'd \<Rightarrow> 'd \<Rightarrow> bool" where
  "delivered pf c [] d d' = (d' = d)"
| "delivered pf c (page # pages) d d' =
     (\<exists>rows d1. map_records (lc_strict c) (lc_mapping c) (fr_records page) = Inr rows \<and>
        (if rows = [] then d1 = d
         else commit_attempt (pf_sql pf) (lc_dest_config c) (lc_dest_credential c) None rows d d1) \<and>
        delivered pf c pages d1 d')"

text \<open>A failed page reached the destination at most by one commit that itself reported an error.\<close>

definition disturbed ::
  "('n, 'd, 't, 's) platform \<Rightarrow> load_context \<Rightarrow> fetch_result \<Rightarrow> 'd \<Rightarrow> 'd \<Rightarrow> bool" where
  "disturbed pf c page d d' =
     (d' = d \<or> (\<exists>rows err. map_records (lc_strict c) (lc_mapping c) (fr_records page) = Inr rows \<and>
        commit_attempt (pf_sql pf) (lc_dest_config c) (lc_dest_credential c) (Some err) rows d d'))"

definition page_recorded ::
  "('n, 'd, 't, 's) platform \<Rightarrow> uuid \<Rightarrow> nat \<Rightarrow> fetch_result \<Rightarrow> world \<Rightarrow> bool" where
  "page_recorded pf run n page w =
     (\<exists>raw \<in> set (w_raw w). rp_run raw = run \<and> rp_sequence raw = n \<and>
        rp_checksum raw = sha256 (pf_s3 pf) (fr_raw_payload page) \<and> rp_loaded raw)"

lemma save_raw_ok:
  assumes "raw \<in> set (w_raw w)"
  shows "\<exists>w'. save_raw copy_loaded (raw\<lparr>rp_loaded := True\<rparr>) w = Inr w' \<and> raw_frame w w' \<and>
    (\<exists>raw' \<in> set (w_raw w'). rp_run raw' = rp_run raw \<and> rp_sequence raw' = rp_sequence raw \<and>
       rp_checksum raw' = rp_checksum raw \<and> rp_loaded raw')"
proof -
  have "find_row rp_id (rp_id raw) (w_raw w) \<noteq> None"
    using assms by (auto simp: find_row_None)
  then obtain w' where s: "save_raw copy_loaded (raw\<lparr>rp_loaded := True\<rparr>) w = Inr w'"
    and raws: "w_raw w' = update_row rp_id (rp_id raw)
      (\<lambda>row. (copy_loaded (raw\<lparr>rp_loaded := True\<rparr>) row)\<lparr>rp_updated_at := w_clock w\<rparr>) (w_raw w)"
    by (auto simp: save_raw_def)
  let ?f = "\<lambda>r. if rp_id r = rp_id raw
      then (copy_loaded (raw\<lparr>rp_loaded := True\<rparr>) r)\<lparr>rp_updated_at := w_clock w\<rparr> else r"
  have in': "?f r \<in> set (w_raw w')" if "r \<in> set (w_raw w)" for r
    using that by (auto simp: raws update_row_def)
  have kept: "raws_kept w w'"
    unfolding raws_kept_def
  proof
    fix r assume "r \<in> set (w_raw w)"
    from in' [OF this] show "\<exists>r' \<in> set (w_raw w'). rp_run r' = rp_run r \<and> rp_sequence r' = rp_sequence r \<and>
       rp_checksum r' = rp_checksum r \<and> (rp_loaded r \<longrightarrow> rp_loaded r')"
      by (rule rev_bexI) (simp add: copy_loaded_def)
  qed
  have "raw_frame w w'" using s kept by (auto simp: save_raw_def raw_frame_def split: option.splits)
  moreover have "\<exists>raw' \<in> set (w_raw w'). rp_run raw' = rp_run raw \<and> rp_sequence raw' = rp_sequence raw \<and>
       rp_checksum raw' = rp_checksum raw \<and> rp_loaded raw'"
    using in' [OF assms] by (rule rev_bexI) (simp add: copy_loaded_def)
  ultimately show ?thesis using s by blast
qed

lemma save_progress_ok:
  assumes "get_run w (pr_id run) = Some row"
  shows "\<exists>w'. save_run copy_progress run w = Inr w' \<and>
    get_run w' (pr_id run) = Some ((copy_progress run row)\<lparr>pr_updated_at := w_clock w\<rparr>) \<and>
    (\<forall>i. i \<noteq> pr_id run \<longrightarrow> get_run w' i = get_run w i) \<and>
    w_clock w' = w_clock w \<and> w_tasks w' = w_tasks w \<and> join_state w' = join_state w \<and> w_raw w' = w_raw w"
proof -
  obtain w' where s: "save_run copy_progress run w = Inr w'"
    using assms by (simp add: save_run_def)
  moreover have "w_clock w' = w_clock w \<and> w_tasks w' = w_tasks w \<and> join_state w' = join_state w \<and> w_raw w' = w_raw w"
    using s by (auto simp: save_run_def split: option.splits)
  ultimately show ?thesis using save_run_get [OF s] assms by auto
qed

lemma raw_frame_get: "raw_frame w w' \<Longrightarrow> get_run w' i = get_run w i"
  by (simp add: raw_frame_def get_run_def)

lemma load_ok_count:
  "load lib config cred mode rows db = (Inr k, db') \<Longrightarrow> k = length rows"
  by (drule load_Inr) simp

text \<open>A page that is processed: the run moves on, its row with it, and the destination got the page.\<close>

lemma process_page_ok:
  assumes p: "process_page pf c n page run sy = (Inr u, run', sy')"
    and row: "get_run (sy_world sy) (pr_id run) = Some row"
  shows "run' = advance n page (length (fr_records page)) run \<and>
    get_run (sy_world sy') (pr_id run) =
      Some ((copy_progress run' row)\<lparr>pr_updated_at := w_clock (sy_world sy)\<rparr>) \<and>
    (\<forall>i. i \<noteq> pr_id run \<longrightarrow> get_run (sy_world sy') i = get_run (sy_world sy) i) \<and>
    w_clock (sy_world sy') = w_clock (sy_world sy) \<and> w_tasks (sy_world sy') = w_tasks (sy_world sy) \<and>
    join_state (sy_world sy') = join_state (sy_world sy) \<and> sy_net sy' = sy_net sy \<and>
    delivered pf c [page] (sy_dest sy) (sy_dest sy') \<and>
    page_recorded pf (pr_id run) n page (sy_world sy') \<and> raws_kept (sy_world sy) (sy_world sy')"
proof -
  obtain r1 sy1 where st: "store_raw_payload pf run n page sy = (r1, sy1)" by fastforce
  with p obtain raw where raw: "r1 = Inr raw" by (cases r1) (auto simp: process_page_def)
  note frame = store_raw_payload_frame [OF st, unfolded raw store_frame_def, simplified]
  from p st raw obtain rows where rows: "map_records (lc_strict c) (lc_mapping c) (fr_records page) = Inr rows"
    by (auto simp: process_page_def split: sum.splits)
  obtain lr d' where ld: "load (pf_sql pf) (lc_dest_config c) (lc_dest_credential c) ''append'' rows (sy_dest sy1) = (lr, d')"
    by fastforce
  with p st raw rows obtain k where k: "lr = Inr k" by (cases lr) (auto simp: process_page_def)
  have kn: "k = length (fr_records page)"
    using load_ok_count [OF ld [unfolded k]] map_records_length [OF rows] by simp
  have del: "delivered pf c [page] (sy_dest sy) d'"
    using load_Inr [OF ld [unfolded k]] rows frame by auto
  obtain w2 where w2: "save_raw copy_loaded (raw\<lparr>rp_loaded := True\<rparr>) (sy_world sy1) = Inr w2"
      "raw_frame (sy_world sy1) w2" "page_recorded pf (pr_id run) n page w2"
    using save_raw_ok [of raw "sy_world sy1"] frame by (auto simp: page_recorded_def)
  let ?run' = "advance n page k run"
  have "get_run w2 (pr_id ?run') = Some row"
    using w2(2) frame row by (simp add: raw_frame_def get_run_def)
  from save_progress_ok [OF this] obtain w3 where w3: "save_run copy_progress ?run' w2 = Inr w3"
      "get_run w3 (pr_id run) = Some ((copy_progress ?run' row)\<lparr>pr_updated_at := w_clock w2\<rparr>)"
      "\<forall>i. i \<noteq> pr_id run \<longrightarrow> get_run w3 i = get_run w2 i"
      "w_clock w3 = w_clock w2" "w_tasks w3 = w_tasks w2" "join_state w3 = join_state w2" "w_raw w3 = w_raw w2"
    by auto
  have res: "run' = ?run'" "sy' = sy1\<lparr>sy_dest := d', sy_world := w3\<rparr>"
    using p st raw rows ld k w2 w3 by (auto simp: process_page_def Let_def)
  have "page_recorded pf (pr_id run) n page w3" using w2(3) w3(7) by (simp add: page_recorded_def)
  moreover have "raws_kept (sy_world sy) w3"
    using raws_kept_trans [OF raws_kept_trans, of "sy_world sy" "sy_world sy1" w2 w3] frame w2(2) w3(7)
    by (simp add: raw_frame_def raws_kept_refl)
  ultimately show ?thesis using res kn del w2(2) w3 frame
    by (auto simp: raw_frame_def get_run_def)
qed

text \<open>A page that fails: the run stays where it was.\<close>

lemma process_page_error:
  assumes p: "process_page pf c n page run sy = (Inl e, run', sy')"
    and row: "get_run (sy_world sy) (pr_id run) = Some row"
  shows "run' = run \<and> raw_frame (sy_world sy) (sy_world sy') \<and> sy_net sy' = sy_net sy \<and>
    disturbed pf c page (sy_dest sy) (sy_dest sy')"
proof -
  obtain r1 sy1 where st: "store_raw_payload pf run n page sy = (r1, sy1)" by fastforce
  note frame = store_raw_payload_frame [OF st, unfolded store_frame_def]
  show ?thesis
  proof (cases r1)
    case (Inl e1)
    with p st frame show ?thesis by (auto simp: process_page_def disturbed_def)
  next
    case raw: (Inr raw)
    show ?thesis
    proof (cases "map_records (lc_strict c) (lc_mapping c) (fr_records page)")
      case (Inl e1)
      with p st raw frame show ?thesis by (auto simp: process_page_def disturbed_def)
    next
      case rows: (Inr rows)
      obtain lr d' where ld: "load (pf_sql pf) (lc_dest_config c) (lc_dest_credential c) ''append'' rows (sy_dest sy1) = (lr, d')"
        by fastforce
      show ?thesis
      proof (cases lr)
        case (Inl e1)
        with p st raw rows ld have "run' = run" "sy' = sy1\<lparr>sy_dest := d'\<rparr>" by (auto simp: process_page_def)
        moreover have "disturbed pf c page (sy_dest sy) d'"
          using load_Inl [OF ld [unfolded Inl]] frame rows by (auto simp: disturbed_def)
        ultimately show ?thesis using frame by simp
      next
        case (Inr k)
        obtain w2 where w2: "save_raw copy_loaded (raw\<lparr>rp_loaded := True\<rparr>) (sy_world sy1) = Inr w2"
          "raw_frame (sy_world sy1) w2"
          using save_raw_ok [of raw "sy_world sy1"] frame raw by auto
        have "get_run w2 (pr_id (advance n page k run)) = Some row"
    using w2(2) frame row by (simp add: raw_frame_def get_run_def)
        from save_progress_ok [OF this] p st raw rows ld Inr w2 show ?thesis
          by (auto simp: process_page_def Let_def)
      qed
    qed
  qed
qed

subsection \<open>What the loop does\<close>

text \<open>The abstract account of a run: its progress after a list of pages.\<close>

fun progressed :: "nat \<Rightarrow> fetch_result list \<Rightarrow> pipeline_run \<Rightarrow> pipeline_run" where
  "progressed n [] run = run"
| "progressed n (page # pages) run =
     progressed (n + 1) pages (advance (n + 1) page (length (fr_records page)) run)"

lemma progressed_fields:
  "pr_id (progressed n pages run) = pr_id run \<and> pr_status (progressed n pages run) = pr_status run \<and>
   pr_records_extracted (progressed n pages run) =
     pr_records_extracted run + sum_list (map (\<lambda>p. length (fr_records p)) pages) \<and>
   pr_records_loaded (progressed n pages run) =
     pr_records_loaded run + sum_list (map (\<lambda>p. length (fr_records p)) pages) \<and>
   pr_raw_payload_count (progressed n pages run) = pr_raw_payload_count run + length pages \<and>
   (pages \<noteq> [] \<longrightarrow> pr_pages_extracted (progressed n pages run) = n + length pages \<and>
      pr_last_successful_cursor (progressed n pages run) = resume_cursor (last pages))"
  by (induction n pages run rule: progressed.induct) auto

lemma progressed_pages:
  "n = pr_pages_extracted run \<Longrightarrow> pr_pages_extracted (progressed n pages run) = n + length pages"
  using progressed_fields [of n pages run] by (cases pages) auto

lemma delivered_append:
  "delivered pf c (ps @ qs) d d' \<longleftrightarrow> (\<exists>d1. delivered pf c ps d d1 \<and> delivered pf c qs d1 d')"
  by (induction ps arbitrary: d) auto

text \<open>An error that the processing of a page can raise.\<close>

definition page_error ::
  "('n, 'd, 't, 's) platform \<Rightarrow> load_context \<Rightarrow> fetch_result \<Rightarrow> exn \<Rightarrow> bool" where
  "page_error pf c page e = (\<exists>n run sy run' sy'. process_page pf c n page run sy = (Inl e, run', sy'))"

text \<open>How far the loop came through the pages that the source would deliver.\<close>

definition loop_outcome ::
  "('n, 'd, 't, 's) platform \<Rightarrow> load_context \<Rightarrow> fetch_result list \<Rightarrow> fetch_result list \<Rightarrow> exn option \<Rightarrow>
   exn + unit \<Rightarrow> 'd \<Rightarrow> 'd \<Rightarrow> bool" where
  "loop_outcome pf c pages rs ending r d d' =
     (case r of
        Inr _ \<Rightarrow> rs = pages \<and> ending = None \<and> delivered pf c pages d d'
      | Inl e \<Rightarrow> (\<exists>d1. delivered pf c pages d d1 \<and>
          (rs = pages \<and> ending = Some e \<and> d' = d1 \<or>
           (\<exists>page rest. rs = pages @ page # rest \<and> disturbed pf c page d1 d' \<and> page_error pf c page e))))"

lemma loop_outcome_Cons:
  "delivered pf c [page] d d1 \<Longrightarrow> loop_outcome pf c pages rs ending r d1 d' \<Longrightarrow>
   loop_outcome pf c (page # pages) (page # rs) ending r d d'"
proof (cases r)
  case (Inl e)
  assume d: "delivered pf c [page] d d1" and o: "loop_outcome pf c pages rs ending r d1 d'"
  from o Inl obtain d2 where d2: "delivered pf c pages d1 d2"
    "rs = pages \<and> ending = Some e \<and> d' = d2 \<or> (\<exists>page rest. rs = pages @ page # rest \<and> disturbed pf c page d2 d' \<and> page_error pf c page e)"
    by (auto simp: loop_outcome_def)
  have "delivered pf c ([page] @ pages) d d2" unfolding delivered_append using d d2(1) by blast
  then have "delivered pf c (page # pages) d d2" by simp
  with d2(2) Inl show ?thesis by (auto simp: loop_outcome_def simp del: delivered.simps)
next
  case (Inr u)
  assume d: "delivered pf c [page] d d1" and o: "loop_outcome pf c pages rs ending r d1 d'"
  with Inr have "delivered pf c ([page] @ pages) d d'"
    unfolding delivered_append by (auto simp: loop_outcome_def simp del: delivered.simps)
  then have "delivered pf c (page # pages) d d'" by simp
  with o Inr show ?thesis by (simp add: loop_outcome_def del: delivered.simps)
qed

definition row_after :: "fetch_result list \<Rightarrow> pipeline_run \<Rightarrow> timestamp \<Rightarrow> pipeline_run \<Rightarrow> pipeline_run" where
  "row_after pages run now row =
     (if pages = [] then row else (copy_progress run row)\<lparr>pr_updated_at := now\<rparr>)"

lemma copy_progress_twice:
  "copy_progress run ((copy_progress run1 row)\<lparr>pr_updated_at := t\<rparr>)\<lparr>pr_updated_at := t\<rparr> =
   copy_progress run row\<lparr>pr_updated_at := t\<rparr>"
  by (cases row) (simp add: copy_progress_def)

lemma row_after_Cons:
  "row_after pages (progressed (Suc n) pages run1) t ((copy_progress run1 row)\<lparr>pr_updated_at := t\<rparr>) =
   row_after (page # pages) (progressed (Suc n) pages run1) t row"
  by (auto simp: row_after_def copy_progress_twice)

lemma page_recorded_kept:
  "page_recorded pf i n page w \<Longrightarrow> raws_kept w w' \<Longrightarrow> page_recorded pf i n page w'"
  unfolding page_recorded_def raws_kept_def by metis

definition world_frame :: "uuid \<Rightarrow> world \<Rightarrow> world \<Rightarrow> bool" where
  "world_frame i w w' = (w_clock w' = w_clock w \<and> w_tasks w' = w_tasks w \<and> join_state w' = join_state w \<and>
     raws_kept w w' \<and> (\<forall>j. j \<noteq> i \<longrightarrow> get_run w' j = get_run w j))"

lemma world_frame_trans: "world_frame i w w1 \<Longrightarrow> world_frame i w1 w2 \<Longrightarrow> world_frame i w w2"
  by (auto simp: world_frame_def intro: raws_kept_trans)

lemma world_frame_refl [simp]: "world_frame i w w"
  by (simp add: world_frame_def raws_kept_refl)

lemma raw_frame_world: "raw_frame w w' \<Longrightarrow> world_frame i w w'"
  by (auto simp: raw_frame_def world_frame_def get_run_def)

lemma extract_loop_spec:
  assumes "extract_loop pf c g n run sy = (r, run', sy')"
    and "get_run (sy_world sy) (pr_id run) = Some row"
  shows "\<exists>pages rs ending net'.
    drain (fetch_next (pf_policy pf) (pf_http pf) (lc_config c) (lc_source_credential c))
      (Suc (fetch_budget (lc_config c) g)) g (sy_net sy) = Some (rs, ending, net') \<and>
    loop_outcome pf c pages rs ending r (sy_dest sy) (sy_dest sy') \<and>
    (rs = pages \<longrightarrow> net' = sy_net sy') \<and>
    run' = progressed n pages run \<and>
    get_run (sy_world sy') (pr_id run) = Some (row_after pages run' (w_clock (sy_world sy)) row) \<and>
    (\<forall>k < length pages. page_recorded pf (pr_id run) (n + k + 1) (pages ! k) (sy_world sy')) \<and>
    world_frame (pr_id run) (sy_world sy) (sy_world sy')"
  using assms
proof (induction pf c g n run sy arbitrary: row rule: extract_loop.induct)
  case (1 pf c g n run sy)
  let ?nxt = "fetch_next (pf_policy pf) (pf_http pf) (lc_config c) (lc_source_credential c)"
  obtain ev g1 net1 where f: "?nxt g (sy_net sy) = (ev, g1, net1)" by (cases "?nxt g (sy_net sy)")
  show ?case
  proof (cases ev)
    case Stopped
    with "1.prems" f have "r = Inr ()" "run' = run" "sy' = sy\<lparr>sy_net := net1\<rparr>"
      by (auto simp: extract_loop.simps [of pf c g n run sy])
    with f Stopped "1.prems"(2) show ?thesis
      by (intro exI [of _ "[]"] exI [of _ None] exI [of _ net1])
        (simp add: loop_outcome_def row_after_def del: fetch_next.simps)
  next
    case (Raised e)
    with "1.prems" f have "r = Inl e" "run' = run" "sy' = sy\<lparr>sy_net := net1\<rparr>"
      by (auto simp: extract_loop.simps [of pf c g n run sy])
    with f Raised "1.prems"(2) show ?thesis
      by (intro exI [of _ "[]"] exI [of _ "Some e"] exI [of _ net1])
        (simp add: loop_outcome_def row_after_def del: fetch_next.simps)
  next
    case (Yielded page)
    have b: "fetch_budget (lc_config c) g1 < fetch_budget (lc_config c) g"
      by (rule rest.page_uses_budget) (use f Yielded in simp)
    obtain rs1 ending net' where d: "drain ?nxt (Suc (fetch_budget (lc_config c) g1)) g1 net1 = Some (rs1, ending, net')"
      using rest.drain_ends [OF lessI [of "fetch_budget (lc_config c) g1"], where env = "pf_policy pf"
          and lib = "pf_http pf" and cred = "lc_source_credential c" and net = net1] by blast
    have drain: "drain ?nxt (Suc (fetch_budget (lc_config c) g)) g (sy_net sy) = Some (page # rs1, ending, net')"
      using rest.drain_more_fuel [OF d, of "fetch_budget (lc_config c) g"] b f Yielded
      by (simp del: fetch_next.simps)
    obtain pr run1 sy1 where p: "process_page pf c (n + 1) page run (sy\<lparr>sy_net := net1\<rparr>) = (pr, run1, sy1)"
      by (cases "process_page pf c (n + 1) page run (sy\<lparr>sy_net := net1\<rparr>)")
    have row: "get_run (sy_world (sy\<lparr>sy_net := net1\<rparr>)) (pr_id run) = Some row" using "1.prems"(2) by simp
    show ?thesis
    proof (cases pr)
      case (Inl e)
      with "1.prems"(1) f Yielded p have res: "r = Inl e" "run' = run1" "sy' = sy1"
        by (auto simp: extract_loop.simps [of pf c g n run sy])
      note err = process_page_error [OF p [unfolded Inl] row]
      have pe: "page_error pf c page e" using p [unfolded Inl] unfolding page_error_def by blast
      have o: "loop_outcome pf c [] (page # rs1) ending r (sy_dest sy) (sy_dest sy')"
        using err res pe by (auto simp: loop_outcome_def)
      show ?thesis
        using drain o err res raw_frame_world [of "sy_world sy" "sy_world sy'"] "1.prems"(2)
        by (intro exI [of _ "[]"] exI [of _ "page # rs1"] exI [of _ ending] exI [of _ net'])
          (auto simp: row_after_def raw_frame_def get_run_def simp del: fetch_next.simps drain.simps)
    next
      case (Inr u)
      note ok = process_page_ok [OF p [unfolded Inr] row]
      from "1.prems"(1) f Yielded p Inr have l: "extract_loop pf c g1 (n + 1) run1 sy1 = (r, run', sy')"
        by (simp add: extract_loop.simps [of pf c g n run sy])
      have id1: "pr_id run1 = pr_id run" using ok by simp
      have row1: "get_run (sy_world sy1) (pr_id run1) =
          Some ((copy_progress run1 row)\<lparr>pr_updated_at := w_clock (sy_world sy)\<rparr>)" using ok id1 by simp
      from "1.IH" [OF f [symmetric] Yielded refl p [symmetric] Inr refl l row1] ok d
      obtain pages where IH:
          "loop_outcome pf c pages rs1 ending r (sy_dest sy1) (sy_dest sy')"
          "rs1 = pages \<longrightarrow> net' = sy_net sy'" "run' = progressed (n + 1) pages run1"
          "get_run (sy_world sy') (pr_id run) = Some (row_after pages run' (w_clock (sy_world sy1))
             ((copy_progress run1 row)\<lparr>pr_updated_at := w_clock (sy_world sy)\<rparr>))"
          "\<forall>k < length pages. page_recorded pf (pr_id run) (n + 1 + k + 1) (pages ! k) (sy_world sy')"
          "world_frame (pr_id run) (sy_world sy1) (sy_world sy')"
        by (simp add: id1 del: fetch_next.simps drain.simps) blast
      have o: "loop_outcome pf c (page # pages) (page # rs1) ending r (sy_dest sy) (sy_dest sy')"
        by (rule loop_outcome_Cons [OF _ IH(1)]) (use ok in simp)
      have fr: "world_frame (pr_id run) (sy_world sy) (sy_world sy')"
        using world_frame_trans [OF _ IH(6)] ok by (simp add: world_frame_def)
      have run': "run' = progressed n (page # pages) run" using IH(3) ok by simp
      have row': "get_run (sy_world sy') (pr_id run) = Some (row_after (page # pages) run' (w_clock (sy_world sy)) row)"
        using IH(3,4) ok row_after_Cons [of pages n run1 "w_clock (sy_world sy)" row page] by simp
      have rec: "page_recorded pf (pr_id run) (n + k + 1) ((page # pages) ! k) (sy_world sy')"
        if "k < length (page # pages)" for k
      proof (cases k)
        case 0
        have "page_recorded pf (pr_id run) (n + 1) page (sy_world sy1)" using ok by simp
        with page_recorded_kept [OF this] IH(6) 0 show ?thesis by (simp add: world_frame_def)
      next
        case (Suc j)
        with IH(5) that show ?thesis by simp
      qed
      show ?thesis using drain o IH(2) run' row' rec fr by blast
    qed
  qed
qed

subsection \<open>What a run does\<close>

declare drain.simps [simp del] fetch_next.simps [simp del]

lemma create_task_execution_props:
  assumes "create_task_execution ids run w = (te, w1)"
  shows "find_row te_id (te_id te) (w_tasks w1) \<noteq> None \<and> w_runs w1 = w_runs w \<and> w_clock w1 = w_clock w \<and>
    w_raw w1 = w_raw w \<and> join_state w1 = join_state w \<and> w_pipelines w1 = w_pipelines w \<and>
    w_connections w1 = w_connections w \<and> w_credentials w1 = w_credentials w \<and> w_secrets w1 = w_secrets w"
  using assms
  by (auto simp: create_task_execution_def uuid4_def Let_def find_row_append split: option.splits)

lemma saved_ok:
  assumes "get_run w (pr_id run) = Some row" and "\<And>row. pr_id (copy run row) = pr_id row"
  shows "\<exists>w'. saved copy run w = (Inr (), run, w') \<and>
    get_run w' (pr_id run) = Some ((copy run row)\<lparr>pr_updated_at := w_clock w\<rparr>) \<and>
    world_frame (pr_id run) w w'"
proof -
  obtain w' where s: "save_run copy run w = Inr w'"
    using assms(1) by (simp add: save_run_def)
  have "world_frame (pr_id run) w w'"
    using s save_run_get [OF s assms(2)]
    by (auto simp: world_frame_def save_run_def intro: raws_kept_refl split: option.splits)
  with save_run_get [OF s assms(2)] assms(1) s show ?thesis by (simp add: saved_def)
qed

lemma save_task_ok:
  assumes "find_row te_id (te_id te) (w_tasks w) \<noteq> None"
  shows "\<exists>w'. save_task copy te w = Inr w' \<and> w' = w\<lparr>w_tasks := w_tasks w'\<rparr>"
proof -
  obtain w' where s: "save_task copy te w = Inr w'" using assms by (auto simp: save_task_def)
  with save_task_frame [OF s] show ?thesis by blast
qed

definition succeeded :: "timestamp \<Rightarrow> pipeline_run \<Rightarrow> pipeline_run" where
  "succeeded now run = run\<lparr>pr_status := SUCCEEDED, pr_finished_at := Some now, pr_error_category := None,
     pr_error_message := None, pr_error_is_retryable := None\<rparr>"

definition failed :: "bool \<Rightarrow> dl_error \<Rightarrow> timestamp \<Rightarrow> pipeline_run \<Rightarrow> pipeline_run" where
  "failed finalize err now run =
     (let run' = run\<lparr>pr_error_category := Some (err_category err),
                    pr_error_message := Some (sanitize_error_message (err_message err)),
                    pr_error_is_retryable := Some (err_retryable err)\<rparr>
      in if finalize then run'\<lparr>pr_status := FAILED, pr_finished_at := Some now\<rparr> else run')"

lemma record_success_ok:
  assumes "pr_status run = RUNNING" "get_run (sy_world sy) (pr_id run) = Some row"
    and "find_row te_id (te_id te) (w_tasks (sy_world sy)) \<noteq> None"
  shows "\<exists>w. record_success run te sy = (Inr (), sy\<lparr>sy_world := w\<rparr>) \<and>
    get_run w (pr_id run) = Some ((succeeded (w_clock (sy_world sy)) row)\<lparr>pr_updated_at := w_clock (sy_world sy)\<rparr>) \<and>
    raws_kept (sy_world sy) w \<and> (\<forall>j. j \<noteq> pr_id run \<longrightarrow> get_run w j = get_run (sy_world sy) j) \<and>
    w_clock w = w_clock (sy_world sy) \<and> join_state w = join_state (sy_world sy)"
proof -
  let ?w = "sy_world sy"
  let ?run = "run\<lparr>pr_status := SUCCEEDED, pr_finished_at := Some (w_clock ?w), pr_error_category := None,
                 pr_error_message := None, pr_error_is_retryable := None\<rparr>"
  have "get_run ?w (pr_id ?run) = Some row" using assms(2) by simp
  from saved_ok [OF this, where copy = copy_finish] obtain w1 where w1:
    "mark_run_succeeded run ?w = (Inr (), ?run, w1)"
    "get_run w1 (pr_id run) = Some ((copy_finish ?run row)\<lparr>pr_updated_at := w_clock ?w\<rparr>)"
    "world_frame (pr_id run) ?w w1"
    using assms(1) by (auto simp: mark_run_succeeded_def)
  let ?te = "te\<lparr>te_status := SUCCEEDED, te_finished_at := Some (w_clock ?w)\<rparr>"
  have "find_row te_id (te_id ?te) (w_tasks w1) \<noteq> None" using assms(3) w1(3) by (simp add: world_frame_def)
  from save_task_ok [OF this, of copy_task_finished] obtain w2 where w2:
    "save_task copy_task_finished ?te w1 = Inr w2" "w2 = w1\<lparr>w_tasks := w_tasks w2\<rparr>" by blast
  have same: "w_runs w2 = w_runs w1" "w_raw w2 = w_raw w1" "w_clock w2 = w_clock w1" "join_state w2 = join_state w1"
    by (subst w2(2), simp)+
  have "copy_finish ?run row = succeeded (w_clock ?w) row"
    by (cases row) (simp add: copy_finish_def succeeded_def)
  moreover have "raws_kept ?w w2"
    using w1(3) raws_kept_trans [of ?w w1 w2] same by (simp add: world_frame_def raws_kept_refl)
  ultimately show ?thesis using w1 w2(1) same
    by (auto simp: record_success_def world_frame_def get_run_def)
qed

lemma record_failure_ok:
  assumes "pr_status run = RUNNING" "get_run (sy_world sy) (pr_id run) = Some row"
    and "find_row te_id (te_id te) (w_tasks (sy_world sy)) \<noteq> None"
  shows "\<exists>w. record_failure run te err final sy = (Inr (), sy\<lparr>sy_world := w\<rparr>) \<and>
    get_run w (pr_id run) = Some ((failed (final \<or> \<not> err_retryable err) err (w_clock (sy_world sy)) row)
      \<lparr>pr_updated_at := w_clock (sy_world sy)\<rparr>) \<and>
    raws_kept (sy_world sy) w \<and> (\<forall>j. j \<noteq> pr_id run \<longrightarrow> get_run w j = get_run (sy_world sy) j) \<and>
    w_clock w = w_clock (sy_world sy) \<and> join_state w = join_state (sy_world sy)"
proof -
  let ?w = "sy_world sy"
  let ?m = "sanitize_error_message (err_message err)"
  let ?fin = "final \<or> \<not> err_retryable err"
  let ?mark = "if ?fin then mark_run_failed (err_category err) ?m (err_retryable err) run ?w
               else record_pending_retry (err_category err) ?m (err_retryable err) run ?w"
  have "\<exists>run' w1. ?mark = (Inr (), run', w1) \<and>
    get_run w1 (pr_id run) = Some ((failed ?fin err (w_clock ?w) row)\<lparr>pr_updated_at := w_clock ?w\<rparr>) \<and>
    world_frame (pr_id run) ?w w1"
  proof (cases ?fin)
    case True
    let ?run = "run\<lparr>pr_status := FAILED, pr_finished_at := Some (w_clock ?w), pr_error_category := Some (err_category err),
                 pr_error_message := Some ?m, pr_error_is_retryable := Some (err_retryable err)\<rparr>"
    have "get_run ?w (pr_id ?run) = Some row" using assms(2) by simp
    moreover have "copy_finish ?run row = failed True err (w_clock ?w) row"
      by (cases row) (simp add: copy_finish_def failed_def Let_def)
    ultimately show ?thesis using saved_ok [of ?w ?run row copy_finish] True assms(1)
      by (auto simp: mark_run_failed_def)
  next
    case False
    let ?run = "run\<lparr>pr_error_category := Some (err_category err),
                 pr_error_message := Some ?m, pr_error_is_retryable := Some (err_retryable err)\<rparr>"
    have "get_run ?w (pr_id ?run) = Some row" using assms(2) by simp
    moreover have "copy_error ?run row = failed False err (w_clock ?w) row"
      by (cases row) (simp add: copy_error_def failed_def Let_def)
    ultimately show ?thesis using saved_ok [of ?w ?run row copy_error] False assms(1)
      by (auto simp: record_pending_retry_def)
  qed
  then obtain run' w1 where w1: "?mark = (Inr (), run', w1)"
    "get_run w1 (pr_id run) = Some ((failed ?fin err (w_clock ?w) row)\<lparr>pr_updated_at := w_clock ?w\<rparr>)"
    "world_frame (pr_id run) ?w w1" by blast
  let ?save = "if ?fin then save_task copy_task_failed (te\<lparr>te_status := FAILED, te_error_message := Some ?m,
                           te_finished_at := Some (w_clock w1)\<rparr>) w1
                    else save_task copy_task_error (te\<lparr>te_status := RUNNING, te_error_message := Some ?m\<rparr>) w1"
  have "find_row te_id (te_id te) (w_tasks w1) \<noteq> None" using assms(3) w1(3) by (simp add: world_frame_def)
  then obtain w2 where w2: "?save = Inr w2" "w2 = w1\<lparr>w_tasks := w_tasks w2\<rparr>"
    using save_task_ok [of "te\<lparr>te_status := FAILED, te_error_message := Some ?m, te_finished_at := Some (w_clock w1)\<rparr>" w1 copy_task_failed]
      save_task_ok [of "te\<lparr>te_status := RUNNING, te_error_message := Some ?m\<rparr>" w1 copy_task_error]
    by (cases ?fin) auto
  have same: "w_runs w2 = w_runs w1" "w_raw w2 = w_raw w1" "w_clock w2 = w_clock w1" "join_state w2 = join_state w1"
    by (subst w2(2), simp)+
  have "raws_kept ?w w2"
    using w1(3) raws_kept_trans [of ?w w1 w2] same by (simp add: world_frame_def raws_kept_refl)
  moreover have "record_failure run te err final sy = (Inr (), sy\<lparr>sy_world := w2\<rparr>)"
    unfolding record_failure_def Let_def w1(1) using w2(1) by simp
  ultimately show ?thesis using w1 same by (auto simp: world_frame_def get_run_def)
qed

text \<open>The resumable progress of a run.\<close>

definition progress_of :: "pipeline_run \<Rightarrow> nat \<times> nat \<times> nat \<times> nat \<times> string option" where
  "progress_of run = (pr_pages_extracted run, pr_records_extracted run, pr_records_loaded run,
     pr_raw_payload_count run, pr_last_successful_cursor run)"

lemma progress_advance:
  "progress_of a = progress_of b \<Longrightarrow> progress_of (advance n page k a) = progress_of (advance n page k b)"
  by (simp add: progress_of_def)

lemma progress_progressed:
  "progress_of a = progress_of b \<Longrightarrow> progress_of (progressed n pages a) = progress_of (progressed n pages b)"
proof (induction pages arbitrary: n a b)
  case (Cons page pages)
  show ?case unfolding progressed.simps by (rule Cons.IH [OF progress_advance [OF Cons.prems]])
qed simp

lemma progress_row_after:
  assumes "progress_of row = progress_of run"
  shows "progress_of (row_after pages (progressed n pages run) now row) = progress_of (progressed n pages run)"
  using assms by (cases pages) (simp_all add: row_after_def progress_of_def copy_progress_def)

lemma progress_unchanged [simp]:
  "progress_of (claimed t now row) = progress_of row"
  "progress_of (row\<lparr>pr_updated_at := now\<rparr>) = progress_of row"
  "progress_of (succeeded now row) = progress_of row"
  "progress_of (failed fin err now row) = progress_of row"
  by (simp_all add: progress_of_def claimed_def succeeded_def failed_def Let_def)

lemma row_after_owner [simp]:
  "pr_status (row_after pages run now row) = pr_status row"
  "pr_celery_task_id (row_after pages run now row) = pr_celery_task_id row"
  "pr_attempt (row_after pages run now row) = pr_attempt row"
  "pr_pipeline_id (row_after pages run now row) = pr_pipeline_id row"
  by (simp_all add: row_after_def copy_progress_def)

lemma resolve_credential_cong:
  "w_credentials w' = w_credentials w \<Longrightarrow> w_secrets w' = w_secrets w \<Longrightarrow>
   resolve_credential pf conn w' = resolve_credential pf conn w"
  by (simp add: resolve_credential_def credential_resolve_def secret_retrieve_def split: option.split)

lemma load_context_of_cong:
  assumes "pr_pipeline_id run' = pr_pipeline_id run" "w_pipelines w' = w_pipelines w"
    "w_connections w' = w_connections w" "w_credentials w' = w_credentials w" "w_secrets w' = w_secrets w"
  shows "load_context_of pf run' w' = load_context_of pf run w"
proof -
  have r: "resolve_credential pf conn w' = resolve_credential pf conn w" for conn
    by (rule resolve_credential_cong) (use assms in auto)
  have g: "get_pipeline w' x = get_pipeline w x" "get_connection w' x = get_connection w x" for x
    using assms by (simp_all add: get_pipeline_def get_connection_def)
  show ?thesis unfolding load_context_of_def assms(1) g r ..
qed

text \<open>What the execution of a claimed run delivered: nothing when its configuration is unusable,
  and otherwise the pages of its source from the run's cursor on, as far as it came.\<close>

definition executed ::
  "('n, 'd, 't, 's) platform \<Rightarrow> pipeline_run \<Rightarrow> fetch_result list \<Rightarrow> exn + unit \<Rightarrow>
   ('n, 'd, 's) system \<Rightarrow> ('n, 'd, 's) system \<Rightarrow> bool" where
  "executed pf row pages r sy sy' =
     (case load_context_of pf row (sy_world sy) of
        Inl e \<Rightarrow> r = Inl e \<and> pages = [] \<and> sy_dest sy' = sy_dest sy \<and> sy_net sy' = sy_net sy
      | Inr c \<Rightarrow> (\<exists>rs ending net'.
          drain (fetch_next (pf_policy pf) (pf_http pf) (lc_config c) (lc_source_credential c))
            (max_pages (lc_config c) + 2) (FetchStart (pr_last_successful_cursor row)) (sy_net sy) =
              Some (rs, ending, net') \<and>
          loop_outcome pf c pages rs ending r (sy_dest sy) (sy_dest sy') \<and>
          (rs = pages \<longrightarrow> net' = sy_net sy')))"

lemma run_pipeline_claimed:
  assumes run: "run_pipeline pf i t final sy = (r, sy')"
    and row: "get_run (sy_world sy) i = Some row" "unlocked i (sy_world sy)" "claimable t row"
  shows "\<exists>pages res row1 row'. executed pf row pages res sy sy' \<and>
    get_run (sy_world sy') i = Some row' \<and>
    pr_status row1 = RUNNING \<and> pr_celery_task_id row1 = t \<and> pr_attempt row1 = pr_attempt row + 1 \<and>
    progress_of row1 = progress_of (progressed (pr_pages_extracted row) pages row) \<and>
    (\<forall>k < length pages. page_recorded pf i (pr_pages_extracted row + k + 1) (pages ! k) (sy_world sy')) \<and>
    (\<forall>j. j \<noteq> i \<longrightarrow> get_run (sy_world sy') j = get_run (sy_world sy) j) \<and>
    join_state (sy_world sy') = join_state (sy_world sy) \<and> w_clock (sy_world sy') = w_clock (sy_world sy) \<and>
    pr_pipeline_id row1 = pr_pipeline_id row \<and>
    (case res of
       Inr _ \<Rightarrow> r = Inr () \<and> row' = (succeeded (w_clock (sy_world sy)) row1)\<lparr>pr_updated_at := w_clock (sy_world sy)\<rparr>
     | Inl e \<Rightarrow> r = Inl (Domain (recorded_error e)) \<and>
         row' = (failed (final \<or> \<not> err_retryable (recorded_error e)) (recorded_error e) (w_clock (sy_world sy)) row1)
           \<lparr>pr_updated_at := w_clock (sy_world sy)\<rparr>)"
    (is "\<exists>pages res row1 row'. ?P pages res row1 row'")
proof -
  let ?w = "sy_world sy" and ?now = "w_clock (sy_world sy)"
  let ?run = "claimed t ?now row"
  obtain w where c: "claim_run i t ?w = (Inr ?run, w)" "w = ?w\<lparr>w_runs := w_runs w\<rparr>"
    "get_run w i = Some (?run\<lparr>pr_updated_at := ?now\<rparr>)" "\<forall>j. j \<noteq> i \<longrightarrow> get_run w j = get_run ?w j"
    using claim_run_ok [OF row(2,1,3)] by blast
  obtain te w1 where te: "create_task_execution (pf_ids pf) ?run w = (te, w1)" by fastforce
  note tp = create_task_execution_props [OF te]
  have w: "w_clock w = ?now" "w_raw w = w_raw ?w" "join_state w = join_state ?w" "w_pipelines w = w_pipelines ?w"
    "w_connections w = w_connections ?w" "w_credentials w = w_credentials ?w" "w_secrets w = w_secrets ?w"
    by (subst c(2), simp)+
  let ?sy1 = "sy\<lparr>sy_world := w1\<rparr>"
  have id: "pr_id ?run = i" using get_run_id [OF row(1)] by simp
  have lc: "load_context_of pf ?run w1 = load_context_of pf row ?w"
    by (rule load_context_of_cong) (use tp w in \<open>simp_all add: claimed_def Let_def\<close>)
  have row1: "get_run (sy_world ?sy1) (pr_id ?run) = Some (?run\<lparr>pr_updated_at := ?now\<rparr>)"
    using c(3) tp id by (simp add: get_run_def)
  obtain res run' sy2 where ex: "execute pf ?run ?sy1 = (res, run', sy2)" by (cases "execute pf ?run ?sy1")
  have fields: "pr_last_successful_cursor ?run = pr_last_successful_cursor row"
    "pr_pages_extracted ?run = pr_pages_extracted row" by (simp_all add: claimed_def Let_def)
  have "\<exists>pages row2. executed pf row pages res sy sy2 \<and> run' = progressed (pr_pages_extracted row) pages ?run \<and>
    row2 = row_after pages run' ?now (?run\<lparr>pr_updated_at := ?now\<rparr>) \<and>
    get_run (sy_world sy2) i = Some row2 \<and>
    (\<forall>k < length pages. page_recorded pf i (pr_pages_extracted row + k + 1) (pages ! k) (sy_world sy2)) \<and>
    world_frame i w1 (sy_world sy2)"
  proof (cases "load_context_of pf row ?w")
    case (Inl e)
    with ex lc have "res = Inl e" "run' = ?run" "sy2 = ?sy1" by (auto simp: execute_def)
    with Inl row1 id show ?thesis
      by (intro exI [of _ "[]"]) (simp add: executed_def row_after_def)
  next
    case (Inr c)
    with ex lc have l: "extract_loop pf c (FetchStart (pr_last_successful_cursor row)) (pr_pages_extracted row) ?run ?sy1 =
        (res, run', sy2)"
      by (simp add: execute_def extract_and_load_def fields)
    from extract_loop_spec [OF l row1] obtain pages rs ending net' where d:
      "drain (fetch_next (pf_policy pf) (pf_http pf) (lc_config c) (lc_source_credential c))
        (max_pages (lc_config c) + 2) (FetchStart (pr_last_successful_cursor row)) (sy_net sy) = Some (rs, ending, net')"
      and o: "loop_outcome pf c pages rs ending res (sy_dest sy) (sy_dest sy2)" "rs = pages \<longrightarrow> net' = sy_net sy2"
      and rest: "run' = progressed (pr_pages_extracted row) pages ?run"
        "get_run (sy_world sy2) i = Some (row_after pages run' (w_clock w1) (?run\<lparr>pr_updated_at := ?now\<rparr>))"
        "\<forall>k < length pages. page_recorded pf i (pr_pages_extracted row + k + 1) (pages ! k) (sy_world sy2)"
        "world_frame i w1 (sy_world sy2)"
      by (simp add: get_run_id [OF row(1)]) blast
    have "executed pf row pages res sy sy2" unfolding executed_def using Inr d o by auto
    with rest w tp show ?thesis by auto
  qed
  then obtain pages row2 where e:
    "executed pf row pages res sy sy2" "run' = progressed (pr_pages_extracted row) pages ?run"
    "row2 = row_after pages run' ?now (?run\<lparr>pr_updated_at := ?now\<rparr>)" "get_run (sy_world sy2) i = Some row2"
    "\<forall>k < length pages. page_recorded pf i (pr_pages_extracted row + k + 1) (pages ! k) (sy_world sy2)"
    "world_frame i w1 (sy_world sy2)" by blast
  have run': "pr_id run' = i" "pr_status run' = RUNNING"
    using e(2) progressed_fields [of "pr_pages_extracted row" pages ?run] id by simp_all
  have te2: "find_row te_id (te_id te) (w_tasks (sy_world sy2)) \<noteq> None"
    using tp e(6) by (simp add: world_frame_def)
  have now: "w_clock (sy_world sy2) = ?now" using e(6) tp w by (simp add: world_frame_def)
  have row2: "pr_status row2 = RUNNING" "pr_celery_task_id row2 = t" "pr_attempt row2 = pr_attempt row + 1"
    "pr_pipeline_id row2 = pr_pipeline_id row"
    using e(3) by (simp_all add: claimed_def Let_def)
  have pr2: "progress_of row2 = progress_of (progressed (pr_pages_extracted row) pages row)"
    using progress_row_after [of "?run\<lparr>pr_updated_at := ?now\<rparr>" ?run pages "pr_pages_extracted row" ?now]
      progress_progressed [of ?run row "pr_pages_extracted row" pages] e(2,3) by simp
  have others: "get_run (sy_world sy2) j = get_run ?w j" if "j \<noteq> i" for j
    using e(6) c(4) that tp by (simp add: world_frame_def get_run_def)
  have locked: "join_state (sy_world sy2) = join_state ?w" using e(6) tp w by (simp add: world_frame_def)
  have exec: "executed pf row pages res sy (sy2\<lparr>sy_world := x\<rparr>)" for x
    using e(1) by (simp add: executed_def split: sum.splits)
  have rec: "\<forall>k < length pages. page_recorded pf i (pr_pages_extracted row + k + 1) (pages ! k) x"
    if "raws_kept (sy_world sy2) x" for x
    using e(5) page_recorded_kept that by blast
  show ?thesis
  proof (cases res)
    case (Inr u)
    from record_success_ok [OF run'(2) _ te2] e(4) run'(1) obtain x where x:
      "record_success run' te sy2 = (Inr (), sy2\<lparr>sy_world := x\<rparr>)"
      "get_run x i = Some ((succeeded ?now row2)\<lparr>pr_updated_at := ?now\<rparr>)"
      "raws_kept (sy_world sy2) x" "\<forall>j. j \<noteq> i \<longrightarrow> get_run x j = get_run (sy_world sy2) j"
      "w_clock x = ?now" "join_state x = join_state (sy_world sy2)"
      using now by auto
    have "r = Inr ()" "sy' = sy2\<lparr>sy_world := x\<rparr>"
      using run c(1) te ex Inr x(1) by (auto simp: run_pipeline_def)
    then have "?P pages res row2 ((succeeded ?now row2)\<lparr>pr_updated_at := ?now\<rparr>)"
      using exec [of x] x row2 pr2 rec [OF x(3)] others locked Inr by simp
    then show ?thesis by blast
  next
    case (Inl err)
    from record_failure_ok [OF run'(2) _ te2, of row2 "recorded_error err" final] e(4) run'(1) obtain x where x:
      "record_failure run' te (recorded_error err) final sy2 = (Inr (), sy2\<lparr>sy_world := x\<rparr>)"
      "get_run x i = Some ((failed (final \<or> \<not> err_retryable (recorded_error err)) (recorded_error err) ?now row2)
         \<lparr>pr_updated_at := ?now\<rparr>)"
      "raws_kept (sy_world sy2) x" "\<forall>j. j \<noteq> i \<longrightarrow> get_run x j = get_run (sy_world sy2) j"
      "w_clock x = ?now" "join_state x = join_state (sy_world sy2)"
      using now by auto
    have "r = Inl (Domain (recorded_error err))" "sy' = sy2\<lparr>sy_world := x\<rparr>"
      using run c(1) te ex Inl x(1) by (auto simp: run_pipeline_def)
    then have "?P pages res row2 ((failed (final \<or> \<not> err_retryable (recorded_error err)) (recorded_error err) ?now row2)
            \<lparr>pr_updated_at := ?now\<rparr>)"
      using exec [of x] x row2 pr2 rec [OF x(3)] others locked Inl by simp
    then show ?thesis by blast
  qed
qed

lemma run_pipeline_Inr_claimed:
  assumes "run_pipeline pf i t final sy = (Inr u, sy')" "get_run (sy_world sy) i = Some row"
  shows "unlocked i (sy_world sy)" and "claimable t row"
proof -
  have "unlocked i (sy_world sy) \<and> claimable t row"
  proof (rule ccontr)
    assume "\<not> ?thesis"
    then have "\<exists>e. claim_run i t (sy_world sy) = (Inl e, sy_world sy)"
      using claim_run_rejected_iff [of i "sy_world sy" t] assms(2) by auto
    with assms(1) show False by (auto simp: run_pipeline_def)
  qed
  then show "unlocked i (sy_world sy)" "claimable t row" by auto
qed

lemma run_pipeline_succeeded:
  assumes "run_pipeline pf i t final sy = (Inr u, sy')" and "get_run (sy_world sy) i = Some row"
  shows "\<exists>pages row'. executed pf row pages (Inr ()) sy sy' \<and> get_run (sy_world sy') i = Some row' \<and>
    pr_status row' = SUCCEEDED \<and>
    progress_of row' = progress_of (progressed (pr_pages_extracted row) pages row) \<and>
    (\<forall>k < length pages. page_recorded pf i (pr_pages_extracted row + k + 1) (pages ! k) (sy_world sy'))"
proof -
  from run_pipeline_claimed [OF assms(1,2) run_pipeline_Inr_claimed [OF assms]]
  obtain pages res row1 row' where e: "executed pf row pages res sy sy'"
    and r: "get_run (sy_world sy') i = Some row'"
      "progress_of row1 = progress_of (progressed (pr_pages_extracted row) pages row)"
      "\<forall>k < length pages. page_recorded pf i (pr_pages_extracted row + k + 1) (pages ! k) (sy_world sy')"
    and cases: "case res of
       Inr _ \<Rightarrow> (Inr u :: exn + unit) = Inr () \<and> row' = (succeeded (w_clock (sy_world sy)) row1)\<lparr>pr_updated_at := w_clock (sy_world sy)\<rparr>
     | Inl e' \<Rightarrow> Inr u = (Inl (Domain (recorded_error e')) :: exn + unit) \<and>
         row' = (failed (final \<or> \<not> err_retryable (recorded_error e')) (recorded_error e') (w_clock (sy_world sy)) row1)
           \<lparr>pr_updated_at := w_clock (sy_world sy)\<rparr>"
    by blast
  have res: "res = Inr ()" "row' = (succeeded (w_clock (sy_world sy)) row1)\<lparr>pr_updated_at := w_clock (sy_world sy)\<rparr>"
    using cases by (cases res, simp_all)+
  have "pr_status row' = SUCCEEDED" by (simp add: res succeeded_def)
  moreover have "progress_of row' = progress_of (progressed (pr_pages_extracted row) pages row)"
    using r(2) res by simp
  ultimately show ?thesis using e res(1) r(1,3) by blast
qed

lemma run_pipeline_failed:
  assumes "run_pipeline pf i t final sy = (Inl e, sy')"
    and "get_run (sy_world sy) i = Some row" and "unlocked i (sy_world sy)" and "claimable t row"
  shows "\<exists>cause pages row'. e = Domain (recorded_error cause) \<and>
    get_run (sy_world sy') i = Some row' \<and>
    pr_status row' = (if final \<or> \<not> err_retryable (recorded_error cause) then FAILED else RUNNING) \<and>
    pr_celery_task_id row' = t \<and> pr_error_category row' = Some (err_category (recorded_error cause)) \<and>
    pr_error_message row' = Some (sanitize_error_message (err_message (recorded_error cause))) \<and>
    pr_error_is_retryable row' = Some (err_retryable (recorded_error cause)) \<and>
    progress_of row' = progress_of (progressed (pr_pages_extracted row) pages row) \<and>
    executed pf row pages (Inl cause) sy sy'"
proof -
  obtain pages res row1 row' where e: "executed pf row pages res sy sy'"
    and r: "get_run (sy_world sy') i = Some row'" "pr_status row1 = RUNNING" "pr_celery_task_id row1 = t"
      "progress_of row1 = progress_of (progressed (pr_pages_extracted row) pages row)"
    and res: "case res of
       Inr _ \<Rightarrow> (Inl e :: exn + unit) = Inr () \<and> row' = (succeeded (w_clock (sy_world sy)) row1)\<lparr>pr_updated_at := w_clock (sy_world sy)\<rparr>
     | Inl e' \<Rightarrow> Inl e = (Inl (Domain (recorded_error e')) :: exn + unit) \<and>
         row' = (failed (final \<or> \<not> err_retryable (recorded_error e')) (recorded_error e') (w_clock (sy_world sy)) row1)
           \<lparr>pr_updated_at := w_clock (sy_world sy)\<rparr>"
    using run_pipeline_claimed [OF assms] by blast
  from res obtain cause where c: "res = Inl cause" "e = Domain (recorded_error cause)"
    "row' = (failed (final \<or> \<not> err_retryable (recorded_error cause)) (recorded_error cause) (w_clock (sy_world sy)) row1)
           \<lparr>pr_updated_at := w_clock (sy_world sy)\<rparr>"
    by (cases res) auto
  have p: "progress_of row' = progress_of (progressed (pr_pages_extracted row) pages row)"
    using r(4) c(3) by simp
  have "pr_status row' = (if final \<or> \<not> err_retryable (recorded_error cause) then FAILED else RUNNING)"
    "pr_celery_task_id row' = t" "pr_error_category row' = Some (err_category (recorded_error cause))"
    "pr_error_message row' = Some (sanitize_error_message (err_message (recorded_error cause)))"
    "pr_error_is_retryable row' = Some (err_retryable (recorded_error cause))"
    using c(3) r(2,3) by (simp_all add: failed_def Let_def)
  with e p r(1) c(1,2) show ?thesis by blast
qed

subsection \<open>A concrete platform\<close>

text \<open>A source of two records, an in-memory destination and an in-memory object storage.\<close>

definition objects_lib :: "nat http_lib" where
  "objects_lib = records_lib\<lparr>hl_json_loads := (\<lambda>b. Some (JList [JObj [(''a'', JInt 1)], JObj [(''a'', JInt 2)]]))\<rparr>"

definition pipeline_world :: world where
  "pipeline_world = example_world\<lparr>w_pipelines := [example_pipeline],
     w_connections := [\<lparr>cn_id = ''c1'', cn_name = ''s'', cn_kind = SOURCE, cn_connector_type = ''rest_api'',
                        cn_config = example_config\<rparr>,
                       \<lparr>cn_id = ''c2'', cn_name = ''d'', cn_kind = DESTINATION, cn_connector_type = ''sqlserver'',
                        cn_config = table_config\<rparr>]\<rparr>"

definition example_platform :: "(nat, row list, row list, ((string \<times> string) \<times> bytes) list) platform" where
  "example_platform = \<lparr>pf_policy = public_env, pf_http = objects_lib, pf_sql = one_table, pf_s3 = memory_s3,
     pf_store = example_store, pf_fernet = toy_fernet, pf_ids = str_of_nat\<rparr>"

definition example_system :: "(nat, row list, ((string \<times> string) \<times> bytes) list) system" where
  "example_system = \<lparr>sy_world = pipeline_world, sy_net = 0, sy_dest = [], sy_objects = [], sy_cache = []\<rparr>"

lemma example_system_row:
  "get_run (sy_world example_system) ''r1'' = Some example_run" "unlocked ''r1'' (sy_world example_system)"
  "claimable t example_run"
  by (simp_all add: example_system_def pipeline_world_def example_world_def get_run_def find_row_def example_run_def
      claimable_def unlocked_def joined_rows_def get_pipeline_def get_connection_def example_pipeline_def)

lemma example_run_succeeds:
  "run_pipeline example_platform ''r1'' (Some ''t1'') True example_system =
     (Inr (), snd (run_pipeline example_platform ''r1'' (Some ''t1'') True example_system))"
proof -
  have "fst (run_pipeline example_platform ''r1'' (Some ''t1'') True example_system) = Inr ()" by code_simp
  then show ?thesis by (simp add: prod_eq_iff)
qed

text \<open>The same pipeline without a destination mapping.\<close>

definition unmapped_system :: "(nat, row list, ((string \<times> string) \<times> bytes) list) system" where
  "unmapped_system = example_system\<lparr>sy_world := pipeline_world\<lparr>w_pipelines :=
     [example_pipeline\<lparr>pl_destination_mapping := []\<rparr>]\<rparr>\<rparr>"

lemma unmapped_system_row:
  "get_run (sy_world unmapped_system) ''r1'' = Some example_run" "unlocked ''r1'' (sy_world unmapped_system)"
proof -
  show g: "get_run (sy_world unmapped_system) ''r1'' = Some example_run"
    using example_system_row by (simp add: unmapped_system_def example_system_def get_run_def)
  show "unlocked ''r1'' (sy_world unmapped_system)"
    unfolding unlocked_def g
    by (simp add: unmapped_system_def example_system_def pipeline_world_def example_world_def find_row_def
        example_run_def joined_rows_def get_pipeline_def get_connection_def example_pipeline_def)
qed

lemma unmapped_fails:
  "\<exists>e. run_pipeline example_platform ''r1'' (Some ''t1'') False unmapped_system =
     (Inl e, snd (run_pipeline example_platform ''r1'' (Some ''t1'') False unmapped_system))"
proof -
  let ?r = "run_pipeline example_platform ''r1'' (Some ''t1'') False unmapped_system"
  have "case load_context_of example_platform example_run (sy_world unmapped_system) of Inl e \<Rightarrow> True | Inr c \<Rightarrow> False"
    by code_simp
  then obtain e where e: "load_context_of example_platform example_run (sy_world unmapped_system) = Inl e"
    by (auto split: sum.splits)
  have r: "?r = (fst ?r, snd ?r)" by simp
  from run_pipeline_claimed [OF r unmapped_system_row example_system_row(3)] obtain pages res where
    "executed example_platform example_run pages res unmapped_system (snd ?r)"
    "case res of Inr _ \<Rightarrow> True | Inl e \<Rightarrow> fst ?r = Inl (Domain (recorded_error e))"
    by (auto split: sum.splits)
  with e have "fst ?r = Inl (Domain (recorded_error e))" by (simp add: executed_def)
  with r show ?thesis by metis
qed

subsection \<open>Properties of a run\<close>

text \<open>C3: A run that succeeds is complete. Its source, fetched from the run's cursor, ended normally
  (so that, by the laws of the source, nothing was cut off); every page of it was mapped and
  committed to the destination, in order; the row says succeeded, its counters are what they were
  plus exactly these pages and records, with as many loaded as extracted; its cursor is that of
  the last page; and each page is in the raw store's table under its checksum, marked as loaded.\<close>

theorem run_success_is_complete:
  assumes "run_pipeline pf i t final sy = (Inr u, sy')"
    and "get_run (sy_world sy) i = Some row"
  shows "\<exists>c pages row'. load_context_of pf row (sy_world sy) = Inr c \<and>
    drain (fetch_next (pf_policy pf) (pf_http pf) (lc_config c) (lc_source_credential c))
      (max_pages (lc_config c) + 2) (FetchStart (pr_last_successful_cursor row)) (sy_net sy) =
        Some (pages, None, sy_net sy') \<and>
    delivered pf c pages (sy_dest sy) (sy_dest sy') \<and>
    get_run (sy_world sy') i = Some row' \<and> pr_status row' = SUCCEEDED \<and>
    pr_pages_extracted row' = pr_pages_extracted row + length pages \<and>
    pr_records_extracted row' = pr_records_extracted row + sum_list (map (\<lambda>p. length (fr_records p)) pages) \<and>
    pr_records_loaded row' = pr_records_loaded row + sum_list (map (\<lambda>p. length (fr_records p)) pages) \<and>
    pr_last_successful_cursor row' =
      (if pages = [] then pr_last_successful_cursor row else resume_cursor (last pages)) \<and>
    (\<forall>k < length pages. page_recorded pf i (pr_pages_extracted row + k + 1) (pages ! k) (sy_world sy'))"
proof -
  from run_pipeline_succeeded [OF assms] obtain pages row' where
    e: "executed pf row pages (Inr ()) sy sy'" and r: "get_run (sy_world sy') i = Some row'"
      "pr_status row' = SUCCEEDED" "progress_of row' = progress_of (progressed (pr_pages_extracted row) pages row)"
      "\<forall>k < length pages. page_recorded pf i (pr_pages_extracted row + k + 1) (pages ! k) (sy_world sy')" by blast
  from e obtain c where c: "load_context_of pf row (sy_world sy) = Inr c"
    "drain (fetch_next (pf_policy pf) (pf_http pf) (lc_config c) (lc_source_credential c))
      (max_pages (lc_config c) + 2) (FetchStart (pr_last_successful_cursor row)) (sy_net sy) =
        Some (pages, None, sy_net sy')"
    "delivered pf c pages (sy_dest sy) (sy_dest sy')"
    by (auto simp: executed_def loop_outcome_def split: sum.splits)
  from r(3) have p: "pr_pages_extracted row' = pr_pages_extracted row + length pages"
    "pr_records_extracted row' = pr_records_extracted row + sum_list (map (\<lambda>p. length (fr_records p)) pages)"
    "pr_records_loaded row' = pr_records_loaded row + sum_list (map (\<lambda>p. length (fr_records p)) pages)"
    "pr_last_successful_cursor row' =
      (if pages = [] then pr_last_successful_cursor row else resume_cursor (last pages))"
    using progressed_fields [of "pr_pages_extracted row" pages row] progressed_pages [of "pr_pages_extracted row" row pages]
    by (auto simp: progress_of_def)
  with c p r show ?thesis by blast
qed

theorem run_success_is_complete_witness:
  "\<exists>row'. get_run (sy_world (snd (run_pipeline example_platform ''r1'' (Some ''t1'') True example_system))) ''r1'' =
     Some row' \<and> pr_status row' = SUCCEEDED \<and> pr_records_loaded row' = pr_records_extracted row'"
  using run_success_is_complete [OF example_run_succeeds example_system_row(1)]
  by (auto simp: example_run_def)

text \<open>C4: A run that fails is recorded. When a claimed run raises, the error that reaches the task is
  the recorded one; the row is failed exactly when this was the last attempt or the error is not
  retryable, and otherwise still running under the same task; it carries the error's category,
  its sanitized message and its retry flag; its counters tell exactly the pages that were
  delivered, and beyond them the destination was touched at most by one commit that itself
  reported an error.\<close>

theorem run_failure_is_recorded:
  assumes "run_pipeline pf i t final sy = (Inl e, sy')"
    and "get_run (sy_world sy) i = Some row" and "unlocked i (sy_world sy)" and "claimable t row"
  shows "\<exists>cause pages row'. e = Domain (recorded_error cause) \<and>
    get_run (sy_world sy') i = Some row' \<and>
    pr_status row' = (if final \<or> \<not> err_retryable (recorded_error cause) then FAILED else RUNNING) \<and>
    pr_celery_task_id row' = t \<and> pr_error_category row' = Some (err_category (recorded_error cause)) \<and>
    pr_error_message row' = Some (sanitize_error_message (err_message (recorded_error cause))) \<and>
    pr_error_is_retryable row' = Some (err_retryable (recorded_error cause)) \<and>
    progress_of row' = progress_of (progressed (pr_pages_extracted row) pages row) \<and>
    executed pf row pages (Inl cause) sy sy'"
  by (rule run_pipeline_failed [OF assms])

theorem run_failure_is_recorded_witness:
  "\<exists>row'. get_run (sy_world (snd (run_pipeline example_platform ''r1'' (Some ''t1'') False unmapped_system))) ''r1'' =
     Some row' \<and> pr_celery_task_id row' = Some ''t1'' \<and> pr_error_message row' \<noteq> None"
proof -
  obtain e where e: "run_pipeline example_platform ''r1'' (Some ''t1'') False unmapped_system =
     (Inl e, snd (run_pipeline example_platform ''r1'' (Some ''t1'') False unmapped_system))"
    using unmapped_fails by blast
  from run_failure_is_recorded [OF e unmapped_system_row example_system_row(3)] show ?thesis by auto
qed

end
