(* ===== verification/ErrorFlow.thy ===== *)
theory ErrorFlow
  imports Orchestration
begin

text \<open>
  Which errors a run can end with. A class of errors that holds every error the platform's own
  code raises, and every error its libraries raise, holds whatever a run ends with: the
  locale \<open>error_class\<close> carries this through the stores, the destination and the requests of the
  source, its extension \<open>run_error_class\<close>, which also admits the page limit, through the
  fetch loop and the run. Two classes are interpreted: the errors that ask for a retry only if
  they are failures of transport, and the errors that are not the page limit's.
\<close>

subsection \<open>What is asked of the libraries\<close>

definition http_fine :: "(exn \<Rightarrow> bool) \<Rightarrow> 'n http_lib \<Rightarrow> bool" where
  "http_fine P lib =
     ((\<forall>client m u p h b e. hl_build lib client m u p h b = Inl e \<longrightarrow> P e) \<and>
      (\<forall>client q n e n'. hl_send lib client q n = (Inl e, n') \<longrightarrow> P e) \<and>
      (\<forall>client q n resp n' e. hl_send lib client q n = (Inr resp, n') \<longrightarrow> Inl e \<in> set (resp_chunks resp) \<longrightarrow> P e))"

definition policy_fine ::  "(exn \<Rightarrow> bool) \<Rightarrow> policy_env \<Rightarrow> bool" where
  "policy_fine P env = (\<forall>h e. getaddrinfo env h = Inl e \<longrightarrow> P e)"

fun sql_error_fine :: "(exn \<Rightarrow> bool) \<Rightarrow> sql_error \<Rightarrow> bool" where
  "sql_error_fine P (NotSQLAlchemy e) = P e"
| "sql_error_fine P err = True"

definition sql_fine :: "(exn \<Rightarrow> bool) \<Rightarrow> ('d, 't) sql_lib \<Rightarrow> bool" where
  "sql_fine P lib =
     ((\<forall>url e. sl_create_engine lib url = Inl e \<longrightarrow> P e) \<and>
      (\<forall>url s t db e. sl_columns lib url s t db = Inl e \<longrightarrow> sql_error_fine P e) \<and>
      (\<forall>url db e. sl_begin lib url db = Inl e \<longrightarrow> sql_error_fine P e) \<and>
      (\<forall>s t rows tx e. sl_insert lib s t rows tx = Inl e \<longrightarrow> sql_error_fine P e) \<and>
      (\<forall>tx db e db'. sl_commit lib tx db = (Some e, db') \<longrightarrow> sql_error_fine P e))"

fun s3_error_fine :: "(exn \<Rightarrow> bool) \<Rightarrow> s3_error \<Rightarrow> bool" where
  "s3_error_fine P (OtherS3Error e) = P e"
| "s3_error_fine P (ClientError code status msg) = True"

definition s3_fine :: "(exn \<Rightarrow> bool) \<Rightarrow> 's s3_lib \<Rightarrow> bool" where
  "s3_fine P lib =
     ((\<forall>b k d ct c s e s'. s3_put lib b k d ct c s = (Inl e, s') \<longrightarrow> s3_error_fine P e) \<and>
      (\<forall>b k s e. s3_head lib b k s = Inl e \<longrightarrow> s3_error_fine P e))"

definition platform_fine :: "(exn \<Rightarrow> bool) \<Rightarrow> ('n, 'd, 't, 's) platform \<Rightarrow> bool" where
  "platform_fine P pf =
     (http_fine P (pf_http pf) \<and> policy_fine P (pf_policy pf) \<and> sql_fine P (pf_sql pf) \<and> s3_fine P (pf_s3 pf))"

definition fineR :: "(exn \<Rightarrow> bool) \<Rightarrow> exn + 'a \<Rightarrow> bool" where
  "fineR P r = (\<forall>e. r = Inl e \<longrightarrow> P e)"

subsection \<open>Classes of errors\<close>

locale error_class =
  fixes fine :: "exn \<Rightarrow> bool"
  assumes fine_simps [simp]:
    "fine (connection_test_failed m)" "fine (load_failed m r)" "fine (fetch_failed m r)"
    "fine (secret_not_found m)" "fine (malformed_response_error m)" "fine (authentication_error m)"
    "fine (unsupported_capability m)" "fine (configuration_error m)" "fine (mapping_error m)"
    "fine (schema_mismatch_error m)" "fine (outbound_request_blocked_error m)"
    "fine (raw_payload_access_denied m)" "fine (raw_payload_integrity_error m)"
    "fine (run_claim_rejected m)" "fine (invalid_run_transition m)" "fine (PyExn c m)"
    "fine (Domain (unexpected_error m))"
begin

lemma http_fine_build: "http_fine fine lib \<Longrightarrow> hl_build lib client m u p h b = Inl e \<Longrightarrow> fine e"
  unfolding http_fine_def by (elim conjE) metis

lemma http_fine_send: "http_fine fine lib \<Longrightarrow> hl_send lib client q n = (Inl e, n') \<Longrightarrow> fine e"
  unfolding http_fine_def by (elim conjE) metis

lemma http_fine_chunk:
  "http_fine fine lib \<Longrightarrow> hl_send lib client q n = (Inr resp, n') \<Longrightarrow> Inl e \<in> set (resp_chunks resp) \<Longrightarrow> fine e"
  unfolding http_fine_def by (elim conjE) metis

subsection \<open>Outbound requests\<close>

lemma urlsplit_fine: "urlsplit b url = Inl e \<Longrightarrow> fine e"
  by (auto simp: urlsplit_def Let_def split: prod.splits if_splits)

lemma url_port_fine: "url_port u = Inl e \<Longrightarrow> fine e"
  by (auto simp: url_port_def split: option.splits if_splits)

lemma check_addresses_fine: "check_addresses host p u ips = Inl e \<Longrightarrow> fine e"
  by (induction ips) (auto split: option.splits if_splits)

lemma resolve_host_fine: "policy_fine fine env \<Longrightarrow> resolve_host env h = Inl e \<Longrightarrow> fine e"
proof -
  assume p: "policy_fine fine env" and r: "resolve_host env h = Inl e"
  show ?thesis
  proof (cases "getaddrinfo env h")
    case (Inl e')
    then have f: "fine e'" using p by (auto simp: policy_fine_def)
    show ?thesis
    proof (cases e')
      case (Domain d)
      with Inl r f show ?thesis by (simp add: resolve_host_def)
    next
      case (PyExn c m)
      with Inl r f show ?thesis by (cases c) (auto simp: resolve_host_def)
    qed
  qed (use r in \<open>simp add: resolve_host_def\<close>)
qed

lemma if_fine: "(if b then Inl x else r) = Inl e \<Longrightarrow> fine x \<Longrightarrow> (r = Inl e \<Longrightarrow> fine e) \<Longrightarrow> fine e"
  by (cases b) auto

lemma validate_fine:
  assumes "policy_fine fine env" "validate_outbound_url env url = Inl e"
  shows "fine e"
proof (cases "urlsplit (bracket_ok env) url")
  case (Inl e')
  with assms(2) urlsplit_fine [OF Inl] show ?thesis by (simp add: validate_outbound_url_def)
next
  case (Inr parts)
  show ?thesis
  proof (cases "url_hostname parts")
    case None
    show ?thesis
      by (rule if_fine [OF assms(2) [unfolded validate_outbound_url_def Inr ebind.simps None option.case]])
        (simp, erule if_fine, auto)
  next
    case (Some host)
    show ?thesis
    proof (rule if_fine [OF assms(2) [unfolded validate_outbound_url_def Inr ebind.simps Some option.case]],
        simp, erule if_fine, simp, erule if_fine, simp, erule if_fine, simp)
      assume "ebind (resolve_host env host)
        (check_addresses host (is_private_allowlisted env host) (is_unsafe_allowlisted env host)) = Inl e"
      then show "fine e"
        unfolding ebind_eq_Inl using resolve_host_fine [OF assms(1)] check_addresses_fine by blast
    qed
  qed
qed

lemma read_chunks_fine:
  "read_chunks m seen acc chunks = Inl e \<Longrightarrow> (\<And>x. Inl x \<in> set chunks \<Longrightarrow> fine x) \<Longrightarrow> fine e"
  by (induction m seen acc chunks rule: read_chunks.induct) (auto simp: Let_def split: if_splits)

lemma sanitize_location_fine: "sanitize_redirect_location b l = Inl e \<Longrightarrow> fine e"
  by (auto simp: sanitize_redirect_location_def result_simps Let_def split: option.splits if_splits sum.splits
      dest: urlsplit_fine url_port_fine)

lemma guarded_send_fine:
  assumes "policy_fine fine env" "http_fine fine lib" "guarded_send env lib client q mb rb n = (Inl e, n')"
  shows "fine e"
proof (cases "validate_outbound_url env (req_url q)")
  case (Inl e')
  with validate_fine [OF assms(1) Inl] assms(3) show ?thesis by (simp add: guarded_send_refused)
next
  case (Inr u)
  obtain r n1 where s: "hl_send lib client q n = (r, n1)" by fastforce
  show ?thesis
  proof (cases r)
    case (Inl e')
    with assms(3) s Inr have "e' = e" by (simp add: guarded_send_def)
    with http_fine_send [OF assms(2), of client q n] s Inl show ?thesis by simp
  next
    case (Inr resp)
    have chunks: "fine x" if "Inl x \<in> set (resp_chunks resp)" for x
      using that s Inr http_fine_chunk [OF assms(2), of client q n resp n1] by simp
    have "read_bounded_body m resp = Inl e \<Longrightarrow> fine e" for m
      unfolding read_bounded_body_def by (rule read_chunks_fine) (auto intro: chunks)
    with assms(3) s Inr \<open>validate_outbound_url env (req_url q) = Inr u\<close> show ?thesis
      by (auto simp: guarded_send_def result_simps Let_def split: if_splits sum.splits dest: sanitize_location_fine)
  qed
qed

subsection \<open>Results whose error is fine\<close>

lemma fineR_simps [simp]: "fineR fine (Inl e) = fine e" "fineR fine (Inr x)"
  by (simp_all add: fineR_def)

lemma fineR_ebind: "fineR fine r \<Longrightarrow> (\<And>x. r = Inr x \<Longrightarrow> fineR fine (f x)) \<Longrightarrow> fineR fine (ebind r f)"
  by (cases r) auto

lemma fineR_if: "(b \<Longrightarrow> fineR fine r) \<Longrightarrow> (\<not> b \<Longrightarrow> fineR fine s) \<Longrightarrow> fineR fine (if b then r else s)"
  by simp

lemma fineR_emap: "(\<And>x. x \<in> set xs \<Longrightarrow> fineR fine (f x)) \<Longrightarrow> fineR fine (emap f xs)"
  by (induction xs) (auto intro!: fineR_ebind)

lemmas fineR_intros = fineR_ebind fineR_if fineR_emap

lemma fineR_D: "fineR fine r \<Longrightarrow> r = Inl e \<Longrightarrow> fine e"
  by (simp add: fineR_def)

lemma guarded_send_fineR:
  "policy_fine fine env \<Longrightarrow> http_fine fine lib \<Longrightarrow> fineR fine (fst (guarded_send env lib client q mb rb n))"
  unfolding fineR_def using guarded_send_fine by (metis prod.collapse)

lemma hl_build_fineR: "http_fine fine lib \<Longrightarrow> fineR fine (hl_build lib client m u p h b)"
  unfolding fineR_def using http_fine_build by blast

subsection \<open>Authentication\<close>

lemma put_header_fineR [simp]: "fineR fine (put_header q n v)"
  by (auto simp: put_header_def split: json.split)

lemma validators_fineR [simp]:
  "fineR fine (validate_url v l)" "fineR fine (validate_method lib v l)" "fineR fine (validate_header_name v l)"
  "fineR fine (validate_field_path v l)" "fineR fine (validate_timeout env lib v l)" "fineR fine (validate_extract_config v l)"
  "fineR fine (py_dict v)" "fineR fine (get_auth_provider lib v)"
proof -
  have pair: "fineR fine (py_pair x)" for x by (cases x rule: py_pair.cases) auto
  show "fineR fine (validate_url v l)" by (auto simp: validate_url_def split: json.split)
  show m: "fineR fine (validate_method lib v l)" unfolding validate_method_def Let_def by (rule fineR_if) simp_all
  show h: "fineR fine (validate_header_name v l)" for v l unfolding validate_header_name_def by (cases v) (auto intro!: fineR_if)
  show f: "fineR fine (validate_field_path v l)" for v l unfolding validate_field_path_def by (cases v) (auto intro!: fineR_if)
  show "fineR fine (validate_timeout env lib v l)"
    unfolding validate_timeout_def Let_def by (cases "strict_num v") (auto intro!: fineR_if)
  show "fineR fine (validate_extract_config v l)"
    unfolding validate_extract_config_def Let_def by (cases v) (auto intro!: fineR_if fineR_ebind h f)
  show "fineR fine (py_dict v)" by (cases v) (auto intro!: fineR_ebind fineR_emap pair)
  show "fineR fine (get_auth_provider lib v)" by (auto simp: get_auth_provider_def no_auth_provider_def split: json.split option.split)
qed

lemma substitute_text_fineR: "fineR fine (substitute_text lib ctx s)"
  by (induction lib ctx s rule: substitute_text.induct)
    (auto intro!: fineR_ebind split: option.split prod.split)

lemma substitute_fineR [simp]: "fineR fine (substitute_placeholders lib ctx v)"
  by (induction lib ctx v rule: substitute_placeholders.induct)
    (auto intro!: fineR_ebind fineR_emap substitute_text_fineR)

lemma extract_fineR [simp]:
  "fineR fine (extract_value lib resp body ex)" "fineR fine (extract_expires_at lib n body f)"
  by (auto simp: extract_value_def extract_expires_at_def split: json.split option.split prod.split intro!: fineR_if)

lemma static_prepare_fineR [simp]:
  "fineR fine (api_key_prepare q c)" "fineR fine (basic_prepare lib q c)" "fineR fine (bearer_prepare lib q c)"
  by (simp_all add: api_key_prepare_def basic_prepare_def bearer_prepare_def Let_def)

lemma not_httpx_error: "fineR fine r \<Longrightarrow> r = Inl e \<Longrightarrow> fine (if is_httpx_error e then authentication_error m else e)"
  by (simp add: fineR_def)

lemma token_endpoint_fineR:
  assumes "policy_fine fine env" "http_fine fine lib"
  shows "fineR fine (fst (token_endpoint_acquire env lib cred n))"
proof -
  let ?pre = "ebind (validate_url (field cred ''token_url'') ''credential.token_url'') (\<lambda>url.
           ebind (validate_method lib (get_or (JStr ''POST'') cred ''method'') ''credential.method'') (\<lambda>meth.
           ebind (validate_timeout env lib (get_or TOKEN_TIMEOUT_SECONDS cred ''timeout_seconds'')
                    ''credential.timeout_seconds'') (\<lambda>read.
           ebind (validate_extract_config (field cred ''extract'') ''credential.extract'') (\<lambda>extract.
           ebind (py_dict (get_or (JObj []) cred ''request_headers'')) (\<lambda>headers.
             Inr (url, meth, read, extract, headers))))))"
  have pre: "fineR fine ?pre" by (intro fineR_ebind) simp_all
  show ?thesis
  proof (cases ?pre)
    case (Inl e)
    with pre show ?thesis by (simp add: token_endpoint_acquire_def)
  next
    case (Inr x)
    obtain url meth read ext headers where x: "x = (url, meth, read, ext, headers)" by (cases x)
    let ?client = "build_client [] (Some (auth_timeout read)) None None"
    let ?body = "if meth = ''POST'' \<and> field cred ''request_body'' \<noteq> JNull then Some (field cred ''request_body'') else None"
    let ?sent = "case hl_build lib ?client meth url None (JObj headers) ?body of
                        Inl e \<Rightarrow> (Inl e, n)
                      | Inr request \<Rightarrow> guarded_send env lib ?client request None True n"
    have sent: "fineR fine (fst ?sent)"
      using hl_build_fineR [OF assms(2)] guarded_send_fineR [OF assms] by (auto simp: fineR_def split: sum.split)
    obtain r n' where rn: "?sent = (r, n')" by fastforce
    have "fineR fine (fst (case (r, n') of
               (Inl e, net') \<Rightarrow>
                 (Inl (if is_httpx_error e
                       then authentication_error (''token endpoint request failed: '' @ exn_text e)
                       else e), net')
             | (Inr (response, response_body), net') \<Rightarrow>
                 if resp_status response \<ge> 400
                 then (Inl (authentication_error
                        (''token endpoint returned HTTP '' @ str_of_int (resp_status response))), net')
                 else (ebind (extract_value lib response response_body ext) (\<lambda>value.
                       ebind (extract_expires_at lib net' response_body (field cred ''expires_in_field''))
                         (\<lambda>deadline. Inr \<lparr>token_value = value, expires_at = deadline\<rparr>)), net')))"
      using sent rn by (auto split: sum.split prod.split intro!: fineR_ebind)
    then show ?thesis
      unfolding token_endpoint_acquire_def Inr x sum.case prod.case Let_def rn .
  qed
qed

lemma validate_each_step_fineR [simp]: "fineR fine (validate_each_step lib i steps)"
proof (induction steps arbitrary: i)
  case (Cons s steps)
  have "fineR fine (validate_step lib i s)"
    unfolding validate_step_def by (cases s) (auto intro!: fineR_ebind fineR_if split: option.split)
  with Cons show ?case by (auto intro!: fineR_ebind)
qed simp

lemma validate_steps_fineR [simp]: "fineR fine (validate_steps lib cred)"
  unfolding validate_steps_def by (cases "field cred ''steps''") (auto intro!: fineR_ebind fineR_if)

lemma step_fineR [simp]:
  "fineR fine (step_request lib client cred prd i kvs)" "fineR fine (step_extract lib resp body kvs prd)"
proof -
  show "fineR fine (step_request lib client cred prd i kvs)"
    unfolding step_request_def by (intro fineR_ebind) (auto split: json.split)
  show "fineR fine (step_extract lib resp body kvs prd)"
    unfolding step_extract_def by (auto intro!: fineR_ebind split: option.split json.split)
qed

lemma run_steps_fineR:
  assumes "policy_fine fine env" "http_fine fine lib"
  shows "fineR fine (fst (run_steps env lib client cred i steps prd fb n))"
proof (induction steps arbitrary: i prd fb n)
  case (Cons st steps)
  show ?case
  proof (cases st)
    case (JObj kvs)
    show ?thesis
    proof (cases "step_request lib client cred prd i kvs")
      case (Inl e)
      with step_fineR(1) [of lib client cred prd i kvs] JObj show ?thesis by simp
    next
      case (Inr q)
      obtain meth url headers body where q: "q = (meth, url, headers, body)" by (cases q)
      let ?sent = "case hl_build lib client meth url None headers body of
                             Inl e \<Rightarrow> (Inl e, n)
                           | Inr request \<Rightarrow> guarded_send env lib client request None True n"
      have sent: "fineR fine (fst ?sent)"
        using hl_build_fineR [OF assms(2)] guarded_send_fineR [OF assms] by (auto simp: fineR_def split: sum.split)
      obtain r n' where rn: "?sent = (r, n')" by fastforce
      show ?thesis
      proof (cases r)
        case (Inl e)
        with sent rn JObj \<open>step_request lib client cred prd i kvs = Inr q\<close> q show ?thesis by (simp add: Let_def)
      next
        case (Inr rb)
        obtain resp rbody where "rb = (resp, rbody)" by fastforce
        with Inr rn JObj \<open>step_request lib client cred prd i kvs = Inr q\<close> q Cons.IH
        show ?thesis by (auto simp: Let_def split: sum.split dest: fineR_D [OF step_fineR(2)])
      qed
    qed
  qed auto
qed simp

lemma multi_step_fineR:
  assumes "policy_fine fine env" "http_fine fine lib"
  shows "fineR fine (fst (multi_step_acquire env lib cred n))"
proof -
  let ?pre = "ebind (validate_steps lib cred) (\<lambda>steps.
           ebind (validate_timeout env lib (get_or TOKEN_TIMEOUT_SECONDS cred ''timeout_seconds'')
                    ''credential.timeout_seconds'') (\<lambda>read. Inr (steps, read)))"
  have pre: "fineR fine ?pre" by (intro fineR_ebind) simp_all
  show ?thesis
  proof (cases ?pre)
    case (Inl e)
    with pre show ?thesis by (simp add: multi_step_acquire_def)
  next
    case (Inr x)
    obtain steps read where x: "x = (steps, read)" by fastforce
    obtain r n' where rn: "run_steps env lib (build_client [] (Some (auth_timeout read)) None None) cred 0 steps [] None n = (r, n')"
      by fastforce
    have "fineR fine r" using run_steps_fineR [OF assms] rn by (metis fst_conv)
    with Inr x rn show ?thesis
      by (auto simp: multi_step_acquire_def split: sum.split prod.split option.split intro!: fineR_ebind)
  qed
qed

lemma token_prepare_fineR:
  assumes "\<And>n. fineR fine (fst (acquire cred n))"
  shows "fineR fine (fst (token_prepare lib acquire cache q cred n))"
proof -
  let ?t = "if is_expired (hl_monotonic lib n) cache then acquire cred n
            else (case cache of Some t \<Rightarrow> (Inr t, n) | None \<Rightarrow> acquire cred n)"
  obtain r n' where t: "?t = (r, n')" by fastforce
  have "fineR fine (fst ?t)" using assms by (simp split: option.split)
  with t show ?thesis by (auto simp: token_prepare_def split: sum.split intro!: fineR_ebind)
qed

lemma prepare_request_fineR:
  assumes "policy_fine fine env" "http_fine fine lib"
  shows "fineR fine (fst (prepare_request env lib p q cred n))"
  using token_prepare_fineR [of "token_endpoint_acquire env lib" cred lib, OF token_endpoint_fineR [OF assms]]
    token_prepare_fineR [of "multi_step_acquire env lib" cred lib, OF multi_step_fineR [OF assms]]
  by (cases p) (auto split: prod.split, (metis fst_conv)+)

subsection \<open>The source\<close>

lemma source_fineR [simp]:
  "fineR fine (config_method config)" "fineR fine (validate_config config)" "fineR fine (source_client env config)"
  "fineR fine (resolve_auth_provider lib config)" "fineR fine (start_page config cursor)" "fineR fine (parse_json lib b)"
  "fineR fine (extract_records data path)" "fineR fine (is_last_page config k)" "fineR fine (check_status rb)"
proof -
  show m: "fineR fine (config_method config)" by (auto simp: config_method_def split: json.split)
  show "fineR fine (validate_config config)"
    unfolding validate_config_def by (intro fineR_if fineR_ebind m) simp_all
  show "fineR fine (source_client env config)" by (auto simp: source_client_def Let_def split: json.split)
  show "fineR fine (resolve_auth_provider lib config)"
    unfolding resolve_auth_provider_def Let_def by (intro fineR_if fineR_ebind) simp_all
  show "fineR fine (start_page config cursor)" by (auto simp: start_page_def split: json.split option.split)
  show "fineR fine (parse_json lib b)" by (simp add: parse_json_def split: option.split)
  show "fineR fine (extract_records data path)" by (auto simp: extract_records_def split: json.split prod.split)
  show "fineR fine (is_last_page config k)" by (auto simp: is_last_page_def split: json.split option.split)
  show "fineR fine (check_status rb)" by (simp add: check_status_def Let_def)
qed

lemma build_page_request_fineR:
  assumes "policy_fine fine env" "http_fine fine lib"
  shows "fineR fine (fst (build_page_request env lib config client provider cred page n))"
proof -
  let ?b = "ebind (py_dict (get_or (JObj []) config ''query_params'')) (\<lambda>params.
           ebind (py_dict (get_or (JObj []) config ''headers'')) (\<lambda>headers.
           ebind (config_method config) (\<lambda>method.
           case field config ''path'' of
             JStr path \<Rightarrow>
               hl_build lib client method path (Some (page_params lib config page params)) (JObj headers)
                 (if method = ''POST'' \<and> field config ''json_body'' \<noteq> JNull
                  then Some (field config ''json_body'') else None)
           | _ \<Rightarrow> Inl (PyExn TypeError ''Invalid type for url''))))"
  have b: "fineR fine ?b"
    by (intro fineR_ebind) (auto split: json.split intro: hl_build_fineR [OF assms(2)])
  show ?thesis
  proof (cases ?b)
    case (Inl e)
    with b show ?thesis by (simp add: build_page_request_def)
  next
    case (Inr request)
    show ?thesis
    proof (cases provider)
      case (Some p)
      with Inr prepare_request_fineR [OF assms, of p request cred n] show ?thesis
        by (simp add: build_page_request_def split: prod.split) (metis fst_conv)
    qed (use Inr in \<open>simp add: build_page_request_def\<close>)
  qed
qed

lemma send_page_fineR:
  assumes "policy_fine fine env" "http_fine fine lib"
  shows "fineR fine (fst (send_page env lib config client q n))"
proof -
  obtain r n' where g: "guarded_send env lib client q (Some (source_max_response_bytes env config)) True n = (r, n')"
    by fastforce
  have r: "fineR fine r" using guarded_send_fineR [OF assms] g by (metis fst_conv)
  show ?thesis
  proof (cases r)
    case (Inl e)
    show ?thesis
    proof (cases e)
      case (PyExn c m)
      with g Inl show ?thesis by (cases c) (simp_all add: send_page_def)
    qed (use g Inl r in \<open>simp add: send_page_def\<close>)
  qed (use g in \<open>simp add: send_page_def\<close>)
qed

lemma build_and_send_fineR:
  assumes "policy_fine fine env" "http_fine fine lib"
  shows "fineR fine (fst (build_and_send env lib config client provider cred page n))"
proof -
  obtain b p n1 where b: "build_page_request env lib config client provider cred page n = (b, p, n1)"
    by (cases "build_page_request env lib config client provider cred page n")
  have "fineR fine b" using build_page_request_fineR [OF assms] b by (metis fst_conv)
  moreover have "fineR fine (fst (send_page env lib config client q n1))" for q by (rule send_page_fineR [OF assms])
  ultimately show ?thesis using b
    by (auto simp: build_and_send_def split: sum.split prod.split) (metis fst_conv)
qed

lemma send_with_auth_retry_fineR:
  assumes "policy_fine fine env" "http_fine fine lib"
  shows "fineR fine (fst (send_with_auth_retry env lib config client provider cred page n))"
proof -
  obtain b p n1 where b: "build_and_send env lib config client provider cred page n = (b, p, n1)"
    by (cases "build_and_send env lib config client provider cred page n")
  obtain b2 p2 n2 where b2: "build_and_send env lib config client (map_option invalidate p) cred page n1 = (b2, p2, n2)"
    by (cases "build_and_send env lib config client (map_option invalidate p) cred page n1")
  have "fineR fine b" "fineR fine b2" using build_and_send_fineR [OF assms] b b2 by (metis fst_conv)+
  then show ?thesis using b b2
    by (auto simp: send_with_auth_retry_def split: sum.split)
qed

lemma fetch_page_fine:
  assumes "policy_fine fine env" "http_fine fine lib"
    and f: "fetch_page env lib config cred client provider page y n = (Raised e, s', n')"
  shows "fine e"
proof -
  obtain r p n1 where r: "send_with_auth_retry env lib config client provider cred page n = (r, p, n1)"
    by (cases "send_with_auth_retry env lib config client provider cred page n")
  have rf: "fineR fine r" using send_with_auth_retry_fineR [OF assms(1,2)] r by (metis fst_conv)
  show ?thesis
  proof (cases r)
    case (Inl e')
    with f r rf show ?thesis by (simp add: fetch_page_def)
  next
    case (Inr rb)
    obtain resp body where rb: "rb = (resp, body)" by fastforce
    let ?x = "ebind (parse_json lib body) (\<lambda>data.
                ebind (extract_records data (records_path config)) (\<lambda>records.
                ebind (if records = [] then Inr True else is_last_page config (length records)) (\<lambda>final.
                  Inr (records, final))))"
    have x: "fineR fine ?x" by (intro fineR_ebind fineR_if) simp_all
    show ?thesis
    proof (cases ?x)
      case (Inl e')
      with f r Inr rb x show ?thesis by (simp add: fetch_page_def)
    next
      case (Inr y)
      with f r \<open>r = Inr rb\<close> rb show ?thesis by (simp add: fetch_page_def Let_def split: prod.splits if_splits)
    qed
  qed
qed

subsection \<open>The stores and the destination\<close>

lemma s3_put_fine: "s3_fine fine lib \<Longrightarrow> s3_put lib b k d ct c s = (Inl e, s') \<Longrightarrow> fine (reraise e)"
  unfolding s3_fine_def by (elim conjE) (cases e; simp; metis s3_error_fine.simps(1))

lemma s3_head_fine: "s3_fine fine lib \<Longrightarrow> s3_head lib b k s = Inl e \<Longrightarrow> fine (reraise e)"
  unfolding s3_fine_def by (elim conjE) (cases e; simp; metis s3_error_fine.simps(1))

lemma no_bucket_fine [simp]: "fine (no_bucket env)"
  by (simp add: no_bucket_def)

lemma object_exists_fineR:
  assumes "s3_fine fine lib"
  shows "fineR fine (object_exists env lib key s)"
proof (cases "s3_head lib (se_bucket env) key s")
  case (Inl e)
  from s3_head_fine [OF assms Inl] Inl show ?thesis
    by (cases e) (auto simp: object_exists_def split: option.split)
qed (simp add: object_exists_def)

lemma put_create_only_fineR:
  assumes "s3_fine fine lib"
  shows "fineR fine (fst (put_create_only env lib key d ct s))"
proof -
  have w: "fineR fine (fst (put_check_then_write env lib key d ct s1))" for s1
  proof (cases "object_exists env lib key s1")
    case (Inl e)
    with object_exists_fineR [OF assms, of env key s1] show ?thesis by (simp add: put_check_then_write_def)
  next
    case (Inr b)
    obtain p s2 where p: "s3_put lib (se_bucket env) key d ct False s1 = (p, s2)" by fastforce
    show ?thesis
    proof (cases p)
      case (Inl e)
      from s3_put_fine [OF assms p [unfolded Inl]] p Inl Inr show ?thesis
        by (cases b; cases e) (auto simp: put_check_then_write_def)
    qed (use p Inr in \<open>cases b; simp add: put_check_then_write_def\<close>)
  qed
  obtain p s1 where p: "s3_put lib (se_bucket env) key d ct True s = (p, s1)" by fastforce
  show ?thesis
  proof (cases p)
    case (Inl e)
    from s3_put_fine [OF assms p [unfolded Inl]] p Inl w show ?thesis
      by (cases e) (auto simp: put_create_only_def)
  qed (use p in \<open>simp add: put_create_only_def\<close>)
qed

lemma store_put_fineR:
  assumes "s3_fine fine lib"
  shows "fineR fine (fst (store_put env lib key d ct st))"
proof -
  obtain cache s where st: "st = (cache, s)" by fastforce
  obtain t c1 where t: "tenant_uuid env cache = (t, c1)" by fastforce
  have tf: "fineR fine t" using t by (auto simp: tenant_uuid_def split: option.splits)
  show ?thesis
  proof (cases t)
    case (Inl e)
    with t tf st show ?thesis by (simp add: store_put_def)
  next
    case (Inr tenant)
    obtain w s1 where w: "put_create_only env lib (tenant_key tenant key) d ct s = (w, s1)" by fastforce
    have wf: "fineR fine w" using put_create_only_fineR [OF assms] w by (metis fst_conv)
    have v: "fineR fine (verify_existing_object env lib k d s1)" for k
    proof (cases "s3_head lib (se_bucket env) k s1")
      case (Inl e)
      from s3_head_fine [OF assms Inl] Inl show ?thesis
        by (cases e) (auto simp: verify_existing_object_def split: option.split)
    next
      case (Inr x)
      then show ?thesis by (simp add: verify_existing_object_def split: option.split)
    qed
    show ?thesis using t Inr w wf st v
      by (cases w) (auto simp: store_put_def intro!: fineR_ebind fineR_if)
  qed
qed

lemma store_raw_payload_fineR:
  assumes "s3_fine fine (pf_s3 pf)"
  shows "fineR fine (fst (store_raw_payload pf run k page sy))"
proof -
  let ?key = "storage_key (pr_pipeline_id run) (pr_id run) k (sha256 (pf_s3 pf) (fr_raw_payload page))"
  obtain u c o' where p: "store_put (pf_store pf) (pf_s3 pf) ?key (fr_raw_payload page) (fr_content_type page)
      (sy_cache sy, sy_objects sy) = (u, c, o')" by (metis prod_cases3)
  have u: "fineR fine u" using store_put_fineR [OF assms] p by (metis fst_conv)
  have g: "fineR fine (fst (get_or_create_raw ids new w))" for ids new w
    by (simp add: get_or_create_raw_def uuid4_def Let_def split: option.split)
  show ?thesis
  proof (cases u)
    case (Inl e)
    with p u show ?thesis by (simp add: store_raw_payload_def Let_def)
  next
    case (Inr uri)
    with p g show ?thesis
      by (simp add: store_raw_payload_def Let_def split: prod.split) (metis fst_conv)
  qed
qed

lemma map_records_fineR [simp]: "fineR fine (map_records strict m rs)"
proof -
  have "fineR fine (map_columns r strict mp acc)" for r mp acc
    by (induction r strict mp acc rule: map_columns.induct) (auto split: prod.split)
  then have "fineR fine (map_record strict m r)" for r
    by (auto simp: map_record_def split: json.split)
  then show ?thesis unfolding map_records_def by (rule fineR_emap)
qed

lemma load_error_fine: "sql_error_fine fine err \<Longrightarrow> fine (load_error err)"
  by (cases err) auto

lemma sql_fine_simps:
  assumes "sql_fine fine lib"
  shows "sl_create_engine lib url = Inl e1 \<Longrightarrow> fine e1"
    and "sl_columns lib url s t db = Inl e2 \<Longrightarrow> sql_error_fine fine e2"
    and "sl_begin lib url db = Inl e2 \<Longrightarrow> sql_error_fine fine e2"
    and "sl_insert lib s t rows tx = Inl e2 \<Longrightarrow> sql_error_fine fine e2"
    and "sl_commit lib tx db = (Some e2, db') \<Longrightarrow> sql_error_fine fine e2"
  using assms unfolding sql_fine_def by ((elim conjE, metis)+)

lemma insert_all_fine:
  "sql_fine fine lib \<Longrightarrow> insert_all lib s t bs tx = Inl e \<Longrightarrow> sql_error_fine fine e"
  by (induction bs arbitrary: tx) (auto split: sum.splits dest: sql_fine_simps)

lemma load_target_fineR:
  assumes "sql_fine fine lib"
  shows "fineR fine (load_target lib config cred)"
proof -
  have ident: "fineR fine (validate_sql_identifier v l)" for v l
    by (auto simp: validate_sql_identifier_def Let_def split: json.split)
  have req: "fineR fine (require config k)" for k by (simp add: require_def split: option.split)
  have bs: "fineR fine (batch_size_of config)" by (auto simp: batch_size_of_def Let_def split: json.split)
  have uq: "fineR fine (update_query v q)" for v q by (auto simp: update_query_def split: json.split list.split)
  have url: "fineR fine (build_url config cred)" unfolding build_url_def by (intro fineR_ebind uq req) simp
  have eng: "fineR fine (sl_create_engine lib u)" for u
    unfolding fineR_def using sql_fine_simps(1) [OF assms] by blast
  have "fineR fine (engine lib config cred)" unfolding engine_def by (intro fineR_ebind url eng) simp
  then show ?thesis unfolding load_target_def by (intro fineR_ebind ident req bs) simp_all
qed

lemma load_transaction_fine:
  assumes "sql_fine fine lib" "0 < k" and l: "load_transaction lib url s t k rows db = (Inl e, db')"
  shows "sql_error_fine fine e"
proof (cases "sl_begin lib url db")
  case (Inl e')
  with l sql_fine_simps(3) [OF assms(1) Inl] show ?thesis by (simp add: load_transaction_def)
next
  case (Inr tx)
  show ?thesis
  proof (cases "insert_all lib s t (batches k rows) tx")
    case (Inl e')
    with l Inr insert_all_fine [OF assms(1) Inl] assms(2) show ?thesis
      by (simp add: load_transaction_def load_batches_insert_all)
  next
    case (Inr tx')
    obtain out d where c: "sl_commit lib tx' db = (out, d)" by fastforce
    with l Inr \<open>sl_begin lib url db = Inr tx\<close> assms(2) have "out = Some e"
      by (auto simp: load_transaction_def load_batches_insert_all split: option.splits)
    with sql_fine_simps(5) [OF assms(1)] c show ?thesis by blast
  qed
qed

lemma load_fine:
  assumes "sql_fine fine lib" and l: "load lib config cred mode rows db = (Inl e, db')"
  shows "fine e"
proof (cases "mode \<noteq> ''append'' \<or> rows = []")
  case True
  with l show ?thesis by (auto simp: load_def split: if_splits)
next
  case False
  show ?thesis
  proof (cases "load_target lib config cred")
    case (Inl e')
    with False l load_target_fineR [OF assms(1), of config cred] show ?thesis by (simp add: load_def)
  next
    case (Inr x)
    obtain s t k url where x: "x = (s, t, k, url)" by (cases x)
    have k: "0 < k" using load_target_Inr Inr x by blast
    show ?thesis
    proof (cases "reflect_table lib url s t db")
      case (Inl err)
      have "sql_error_fine fine err"
      proof (cases "sl_columns lib url s t db")
        case (Inl e2)
        with sql_fine_simps(2) [OF assms(1) Inl] \<open>reflect_table lib url s t db = Inl err\<close> show ?thesis
          by (cases e2) (auto simp: reflect_table_def)
      qed (use Inl in \<open>simp add: reflect_table_def\<close>)
      with False l Inr x Inl show ?thesis by (auto simp: load_def load_error_fine)
    next
      case (Inr known)
      have v: "fineR fine (validate_columns known rows s t)" by (simp add: validate_columns_def Let_def)
      show ?thesis
      proof (cases "validate_columns known rows s t")
        case (Inl e')
        with v False l \<open>load_target lib config cred = Inr x\<close> x Inr show ?thesis by (simp add: load_def)
      next
        case (Inr u)
        obtain tr d where tr: "load_transaction lib url s t k rows db = (tr, d)" by fastforce
        with False l \<open>load_target lib config cred = Inr x\<close> x \<open>reflect_table lib url s t db = Inr known\<close> Inr
        obtain err where "tr = Inl err" "e = load_error err" by (cases tr) (auto simp: load_def)
        with load_transaction_fine [OF assms(1) k, of url s t rows db err d] tr show ?thesis
          by (simp add: load_error_fine)
      qed
    qed
  qed
qed

subsection \<open>The run\<close>

lemma process_page_fine:
  assumes "platform_fine fine pf" "process_page pf c k page run sy = (Inl e, run', sy')"
  shows "fine e"
proof -
  have s3: "s3_fine fine (pf_s3 pf)" and sql: "sql_fine fine (pf_sql pf)" using assms(1) by (auto simp: platform_fine_def)
  obtain r1 sy1 where st: "store_raw_payload pf run k page sy = (r1, sy1)" by fastforce
  have rf: "fineR fine r1" using store_raw_payload_fineR [OF s3] st by (metis fst_conv)
  have db: "fineR fine (save_raw copy_loaded raw w)" "fineR fine (save_run copy_progress r w)" for raw r w
    by (simp_all add: save_raw_def save_run_def split: option.split)
  show ?thesis
  proof (cases r1)
    case (Inl e')
    with assms(2) st rf show ?thesis by (simp add: process_page_def)
  next
    case raw: (Inr raw)
    show ?thesis
    proof (cases "map_records (lc_strict c) (lc_mapping c) (fr_records page)")
      case (Inl e')
      with map_records_fineR [of "lc_strict c" "lc_mapping c" "fr_records page"] assms(2) st raw show ?thesis
        by (simp add: process_page_def)
    next
      case rows: (Inr rows)
      obtain lr d' where ld: "load (pf_sql pf) (lc_dest_config c) (lc_dest_credential c) ''append'' rows (sy_dest sy1) = (lr, d')"
        by fastforce
      show ?thesis
      proof (cases lr)
        case (Inl e')
        with load_fine [OF sql ld [unfolded Inl]] assms(2) st raw rows ld show ?thesis by (simp add: process_page_def)
      next
        case (Inr n)
        with assms(2) st raw rows ld db show ?thesis
          by (auto simp: process_page_def Let_def fineR_def split: sum.splits)
      qed
    qed
  qed
qed

lemma load_context_of_fineR [simp]: "fineR fine (load_context_of pf run w)"
proof -
  have sr: "fineR fine (secret_retrieve f ref w)" for f ref by (simp add: secret_retrieve_def split: option.split)
  have cr: "fineR fine (credential_resolve f j row w)" for f j row
    unfolding credential_resolve_def by (intro fineR_ebind sr) (simp split: option.split)
  have rc: "fineR fine (resolve_credential pf conn w)" for conn
    unfolding resolve_credential_def
    by (auto split: option.split json.split intro!: fineR_ebind cr)
  have gc: "fineR fine (get_connector reg k)" for reg k by (simp add: get_connector_def)
  show ?thesis
    unfolding load_context_of_def
    by (auto split: option.split intro!: fineR_ebind gc rc)
qed

end

text \<open>With the page limit, a class holds the errors of a whole run.\<close>

locale run_error_class = error_class +
  assumes fine_limit [simp]: "fine (page_limit_exceeded_error m)"
begin

lemma fetch_next_fine:
  assumes "policy_fine fine env" "http_fine fine lib"
    and f: "fetch_next env lib config cred s n = (Raised e, s', n')"
  shows "fine e"
proof (cases s)
  case (FetchStart cursor)
  let ?x = "ebind (validate_config config) (\<lambda>_.
           ebind (start_page config cursor) (\<lambda>page.
           ebind (resolve_auth_provider lib config) (\<lambda>provider.
           ebind (source_client env config) (\<lambda>client. Inr (page, provider, client)))))"
  have x: "fineR fine ?x" by (intro fineR_ebind) simp_all
  show ?thesis
  proof (cases ?x)
    case (Inl e')
    with f x FetchStart show ?thesis by (simp add: fetch_next.simps)
  next
    case (Inr y)
    with f FetchStart fetch_page_fine [OF assms(1,2)] show ?thesis by (auto simp: fetch_next.simps split: prod.splits)
  qed
next
  case (FetchAtPage client provider page y final nc)
  with f fetch_page_fine [OF assms(1,2)] show ?thesis by (auto simp: fetch_next.simps split: if_splits)
qed (use f in \<open>auto simp: fetch_next.simps\<close>)

lemma extract_loop_fine:
  assumes "platform_fine fine pf" "extract_loop pf c g k run sy = (Inl e, run', sy')"
  shows "fine e"
  using assms
proof (induction pf c g k run sy rule: extract_loop.induct)
  case (1 pf c g k run sy)
  have ht: "policy_fine fine (pf_policy pf)" "http_fine fine (pf_http pf)" using "1.prems"(1) by (auto simp: platform_fine_def)
  let ?nxt = "fetch_next (pf_policy pf) (pf_http pf) (lc_config c) (lc_source_credential c)"
  obtain ev g1 n1 where f: "?nxt g (sy_net sy) = (ev, g1, n1)" by (cases "?nxt g (sy_net sy)")
  show ?case
  proof (cases ev)
    case Stopped
    with "1.prems"(2) f show ?thesis by (simp add: extract_loop.simps [of pf c g k run sy])
  next
    case (Raised e')
    with "1.prems"(2) f have "e' = e" by (simp add: extract_loop.simps [of pf c g k run sy])
    with fetch_next_fine [OF ht] f Raised show ?thesis by blast
  next
    case (Yielded page)
    obtain pr run1 sy1 where p: "process_page pf c (k + 1) page run (sy\<lparr>sy_net := n1\<rparr>) = (pr, run1, sy1)"
      by (cases "process_page pf c (k + 1) page run (sy\<lparr>sy_net := n1\<rparr>)")
    show ?thesis
    proof (cases pr)
      case (Inl e')
      with "1.prems"(2) f Yielded p have "e' = e" by (simp add: extract_loop.simps [of pf c g k run sy])
      with process_page_fine [OF "1.prems"(1)] p Inl show ?thesis by blast
    next
      case (Inr u)
      with "1.prems"(2) f Yielded p have "extract_loop pf c g1 (k + 1) run1 sy1 = (Inl e, run', sy')"
        by (simp add: extract_loop.simps [of pf c g k run sy])
      from "1.IH" [OF f [symmetric] Yielded refl p [symmetric] Inr refl "1.prems"(1) this] show ?thesis .
    qed
  qed
qed

lemma execute_fine:
  assumes "platform_fine fine pf" "execute pf run sy = (Inl e, run', sy')"
  shows "fine e"
proof (cases "load_context_of pf run (sy_world sy)")
  case (Inl e')
  have "fine e'" using fineR_D [OF load_context_of_fineR [of pf run "sy_world sy"] Inl] .
  with assms(2) Inl show ?thesis by (simp add: execute_def)
next
  case (Inr c)
  with assms(2) extract_loop_fine [OF assms(1)] show ?thesis by (simp add: execute_def extract_and_load_def)
qed

subsection \<open>The error of a run\<close>

lemma saved_fine: "saved copy run w = (Inl e, run', w') \<Longrightarrow> fine e"
  by (auto simp: saved_def save_run_def split: sum.splits option.splits)

lemma mark_fine:
  "mark_run_succeeded run w = (Inl e, run', w') \<Longrightarrow> fine e"
  "mark_run_failed k m r run w = (Inl e, run', w') \<Longrightarrow> fine e"
  "record_pending_retry k m r run w = (Inl e, run', w') \<Longrightarrow> fine e"
  by (auto simp: mark_run_succeeded_def mark_run_failed_def record_pending_retry_def
      dest: saved_fine split: if_splits)

lemma save_task_fine: "save_task copy te w = Inl e \<Longrightarrow> fine e"
  by (auto simp: save_task_def split: option.splits)

lemma record_success_fine: "record_success run te sy = (Inl e, sy') \<Longrightarrow> fine e"
  by (auto simp: record_success_def dest: mark_fine save_task_fine split: prod.splits sum.splits)

lemma record_failure_fine:
  assumes "record_failure run te err final sy = (Inl e, sy')"
  shows "fine e"
proof (cases "final \<or> \<not> err_retryable err")
  case True
  with assms show ?thesis
    by (auto simp: record_failure_def Let_def simp del: de_Morgan_conj de_Morgan_disj
        dest: mark_fine save_task_fine split: prod.splits sum.splits)
next
  case False
  with assms show ?thesis
    by (auto simp: record_failure_def Let_def dest: mark_fine save_task_fine split: prod.splits sum.splits)
qed

lemma claim_run_fine: "claim_run i t w = (Inl e, w') \<Longrightarrow> fine e"
  by (auto simp: claim_run_def Let_def save_run_def split: option.splits if_splits)

lemma recorded_error_fine: "fine e \<Longrightarrow> fine (Domain (recorded_error e))"
  by (cases e) simp_all

lemma run_pipeline_fine:
  assumes "platform_fine fine pf" "run_pipeline pf i t final sy = (Inl e, sy')"
  shows "fine e"
proof (cases "claim_run i t (sy_world sy)")
  case (Pair c w)
  show ?thesis
  proof (cases c)
    case (Inl e')
    have "fine e'" using claim_run_fine [OF Pair [unfolded Inl]] .
    with assms(2) Pair Inl show ?thesis by (simp add: run_pipeline_def)
  next
    case (Inr run)
    obtain te w1 where te: "create_task_execution (pf_ids pf) run w = (te, w1)" by fastforce
    obtain x run' sy1 where x: "execute pf run (sy\<lparr>sy_world := w1\<rparr>) = (x, run', sy1)"
      by (cases "execute pf run (sy\<lparr>sy_world := w1\<rparr>)")
    show ?thesis
    proof (cases x)
      case (Inl cause)
      have "fine (Domain (recorded_error cause))"
        using recorded_error_fine [OF execute_fine [OF assms(1) x [unfolded Inl]]] .
      with assms(2) Pair Inr te x Inl show ?thesis
        by (auto simp: run_pipeline_def dest: record_failure_fine split: prod.splits sum.splits)
    next
      case (Inr u)
      with assms(2) Pair \<open>c = Inr run\<close> te x show ?thesis
        by (auto simp: run_pipeline_def dest: record_success_fine)
    qed
  qed
qed

end

subsection \<open>Two classes\<close>

text \<open>An error that asks for a retry is a failed fetch or a failed load.\<close>

definition transport_retry :: "exn \<Rightarrow> bool" where
  "transport_retry e = (is_retryable e \<longrightarrow> raised_class e \<in> {Some FetchFailed, Some LoadFailed})"

lemma unexpected_not_retryable [simp]: "\<not> is_retryable (Domain (unexpected_error m))"
  by (simp add: is_retryable_def unexpected_error_def)

interpretation transport: run_error_class transport_retry
  by unfold_locales (simp_all add: transport_retry_def)

text \<open>An error other than the page limit.\<close>

definition not_page_limit :: "exn \<Rightarrow> bool" where
  "not_page_limit e = (raised_class e \<noteq> Some PageLimitExceededError)"

interpretation other_error: error_class not_page_limit
  by unfold_locales (simp_all add: not_page_limit_def unexpected_error_def)

text \<open>C33: Only transport failures are retried. Whatever a run ends with, if that error asks for a
  retry then it is a failed fetch of the source or a failed load of the destination, of
  exactly these classes: no configuration, mapping, authentication, integrity or policy error, no
  rejected claim and no unclassified exception is ever retried.\<close>

theorem only_transport_errors_retry:
  assumes "platform_fine transport_retry pf" and "run_pipeline pf i t final sy = (Inl e, sy')" and "is_retryable e"
  shows "raised_class e \<in> {Some FetchFailed, Some LoadFailed}"
  using transport.run_pipeline_fine [OF assms(1,2)] assms(3) by (simp add: transport_retry_def)

text \<open>A source that is busy.\<close>

definition busy_platform :: "(nat, row list, row list, ((string \<times> string) \<times> bytes) list) platform" where
  "busy_platform = example_platform\<lparr>pf_http := const_lib (example_response\<lparr>resp_status := 503\<rparr>)\<rparr>"

lemma busy_platform_fine: "platform_fine P busy_platform"
proof -
  have "http_fine P (const_lib (example_response\<lparr>resp_status := 503\<rparr>))"
    by (simp add: http_fine_def const_lib_def example_response_def)
  moreover have "policy_fine P public_env" by (simp add: policy_fine_def example_env_def)
  moreover have "sql_fine P one_table" by (simp add: sql_fine_def one_table_def)
  moreover have "s3_fine P memory_s3"
    by (auto simp: s3_fine_def memory_s3_def split: option.splits if_splits)
  ultimately show ?thesis by (simp add: platform_fine_def busy_platform_def example_platform_def)
qed

lemma busy_run:
  "\<exists>e. run_pipeline busy_platform ''r1'' t final example_system =
     (Inl e, snd (run_pipeline busy_platform ''r1'' t final example_system)) \<and> is_retryable e"
proof -
  let ?r = "run_pipeline busy_platform ''r1'' t final example_system"
  have "case load_context_of busy_platform example_run (sy_world example_system) of Inl e \<Rightarrow> False
      | Inr c \<Rightarrow> (case drain (fetch_next (pf_policy busy_platform) (pf_http busy_platform) (lc_config c)
            (lc_source_credential c)) (max_pages (lc_config c) + 2)
            (FetchStart (pr_last_successful_cursor example_run)) (sy_net example_system) of
          Some ([], Some e, n) \<Rightarrow> is_retryable e | _ \<Rightarrow> False)"
    by code_simp
  then obtain c e n where c: "load_context_of busy_platform example_run (sy_world example_system) = Inr c"
    "drain (fetch_next (pf_policy busy_platform) (pf_http busy_platform) (lc_config c) (lc_source_credential c))
       (max_pages (lc_config c) + 2) (FetchStart (pr_last_successful_cursor example_run)) (sy_net example_system) =
       Some ([], Some e, n)" "is_retryable e"
    by (auto split: sum.splits option.splits prod.splits list.splits)
  have r: "?r = (fst ?r, snd ?r)" by simp
  from run_pipeline_claimed [OF r example_system_row] obtain pages res where
    x: "executed busy_platform example_run pages res example_system (snd ?r)"
    "case res of Inr _ \<Rightarrow> True | Inl e \<Rightarrow> fst ?r = Inl (Domain (recorded_error e))"
    by (auto split: sum.splits)
  have "res = Inl e"
    using x(1) c(1,2) by (auto simp: executed_def loop_outcome_def split: sum.splits)
  with x(2) c(3) have "fst ?r = Inl (Domain (recorded_error e))" "is_retryable (Domain (recorded_error e))"
    by (cases e; simp add: is_retryable_def)+
  with r show ?thesis by metis
qed

theorem only_transport_errors_retry_witness:
  "\<exists>e. raised_class e \<in> {Some FetchFailed, Some LoadFailed} \<and>
     fst (run_pipeline busy_platform ''r1'' (Some ''t1'') True example_system) = Inl e"
proof -
  obtain e where e: "run_pipeline busy_platform ''r1'' (Some ''t1'') True example_system =
     (Inl e, snd (run_pipeline busy_platform ''r1'' (Some ''t1'') True example_system))" "is_retryable e"
    using busy_run by blast
  from only_transport_errors_retry [OF busy_platform_fine e] e(1) show ?thesis by (metis fst_conv)
qed

end
