(* ===== verification/Tasks.thy ===== *)
theory Tasks
  imports ErrorFlow
begin

text \<open>
  \<^verbatim>\<open>apps/execution/tasks.py\<close> and \<^verbatim>\<open>apps/execution/retry_policy.py\<close>: the Celery boundary. A
  task invocation either returns, asks Celery to invoke it again under the same id after a
  delay, or raises; \<open>run_chain\<close> is what Celery makes of it.
\<close>

subsection \<open>Retry policy\<close>

definition MAX_RUN_ATTEMPTS :: nat where "MAX_RUN_ATTEMPTS = 5"
definition BASE_BACKOFF_SECONDS :: rat where "BASE_BACKOFF_SECONDS = 10"
definition MAX_BACKOFF_SECONDS :: rat where "MAX_BACKOFF_SECONDS = 300"
definition JITTER_FRACTION :: rat where "JITTER_FRACTION = 1 / 4"

text \<open>\<^verbatim>\<open>random.uniform(0, b)\<close> is \<open>u * b\<close> for a random \<open>u\<close> between 0 and 1.\<close>

definition compute_backoff_seconds :: "nat \<Rightarrow> rat \<Rightarrow> rat" where
  "compute_backoff_seconds retry_number u =
     (let exponential = min (BASE_BACKOFF_SECONDS * 2 ^ retry_number) MAX_BACKOFF_SECONDS;
          jitter = u * (exponential * JITTER_FRACTION)
      in exponential + jitter)"

subsection \<open>The task\<close>

datatype task_outcome = TaskReturned | TaskRetry rat exn | TaskRaised exn

definition max_retries :: nat where "max_retries = MAX_RUN_ATTEMPTS - 1"

definition run_pipeline_task ::
  "('n, 'd, 't, 's) platform \<Rightarrow> uuid \<Rightarrow> string option \<Rightarrow> nat \<Rightarrow> rat \<Rightarrow> ('n, 'd, 's) system \<Rightarrow>
   task_outcome \<times> ('n, 'd, 's) system" where
  "run_pipeline_task pf run_id request_id retries u sy =
     (let is_final_attempt = (retries \<ge> max_retries) in
      case run_pipeline pf run_id request_id is_final_attempt sy of
        (Inr _, sy') \<Rightarrow> (TaskReturned, sy')
      | (Inl e, sy') \<Rightarrow>
          if catches RunClaimRejected e then (TaskReturned, sy')
          else if catches DataLakeError e
          then (if is_retryable e \<and> \<not> is_final_attempt
                then (TaskRetry (compute_backoff_seconds retries u) e, sy')
                else (TaskReturned, sy'))
          else (TaskRaised e, sy'))"



subsection \<open>Laws\<close>

text \<open>C34: The delay before a retry grows exponentially from 10 seconds, is never below that, never
  above 375 seconds, and the jitter adds at most a quarter.\<close>

theorem backoff_bounds:
  assumes "0 \<le> u" and "u \<le> 1"
  shows "10 \<le> compute_backoff_seconds n u \<and> compute_backoff_seconds n u \<le> 375 \<and>
    min (10 * 2 ^ n) 300 \<le> compute_backoff_seconds n u \<and>
    compute_backoff_seconds n u \<le> 5 / 4 * min (10 * 2 ^ n) 300"
proof -
  define x where "x = min (10 * 2 ^ n) (300 :: rat)"
  have one: "(1 :: rat) \<le> 2 ^ n" by simp
  have x: "10 \<le> x" "x \<le> 300" using one by (simp_all add: x_def)
  have c: "compute_backoff_seconds n u = x + u * (x / 4)"
    by (simp add: compute_backoff_seconds_def BASE_BACKOFF_SECONDS_def MAX_BACKOFF_SECONDS_def
        JITTER_FRACTION_def x_def Let_def)
  define y where "y = u * (x / 4)"
  have y: "0 \<le> y" "y \<le> x / 4"
    using assms x mult_right_mono [of u 1 "x / 4"] by (simp_all add: y_def)
  show ?thesis unfolding c x_def [symmetric] y_def [symmetric] using x y by linarith
qed

theorem backoff_bounds_witness: "compute_backoff_seconds 9 (1 / 2) \<le> 375"
  using backoff_bounds [of "1 / 2" 9] by simp

text \<open>One invocation of the task on a run it can claim: it returns with the run finished, or asks for
  a retry with the run still running under its id.\<close>

definition waiting :: "string option \<Rightarrow> uuid \<Rightarrow> world \<Rightarrow> bool" where
  "waiting t i w = (unlocked i w \<and> (\<exists>row. get_run w i = Some row \<and> claimable t row))"








subsection \<open>A claim that meets another one\<close>

text \<open>The query that claims a run locks the rows of its pipeline and of the pipeline's connections too.
  While one claim's transaction is open, the claim of another run that shares one of these rows,
  so of any pipeline on the same source or destination, finds nothing and is rejected; and the
  task takes the rejection for good: it returns without a retry, and its run stays pending.\<close>

theorem shared_connection_is_rejected:
  assumes "get_run (sy_world sy) i = Some other" and "joined_rows (sy_world sy) other = Some held"
    and "set held \<subseteq> set (w_locked (sy_world sy))"
    and "get_run (sy_world sy) j = Some row" and "joined_rows (sy_world sy) row = Some rows"
    and "set rows \<inter> set held \<noteq> {}"
  shows "run_pipeline_task pf j t retries u sy = (TaskReturned, sy)"
proof -
  have "\<not> unlocked j (sy_world sy)" using assms(3-6) by (auto simp: unlocked_iff)
  with claim_run_rejected_iff [of j "sy_world sy" t] obtain e
    where e: "claim_run j t (sy_world sy) = (Inl e, sy_world sy)" "raised_class e = Some RunClaimRejected" by blast
  then have "catches RunClaimRejected e" by (cases e) (auto simp: catches_def isinstance_of_def)
  with e show ?thesis by (simp add: run_pipeline_task_def run_pipeline_def Let_def)
qed

definition shared_system :: "(nat, row list, ((string \<times> string) \<times> bytes) list) system" where
  "shared_system = example_system\<lparr>sy_world := pipeline_world\<lparr>
     w_runs := [example_run\<lparr>pr_status := RUNNING\<rparr>,
       example_run\<lparr>pr_id := ''r2'', pr_pipeline_id := ''p2'', pr_idempotency_key := ''k2''\<rparr>],
     w_pipelines := [example_pipeline, example_pipeline\<lparr>pl_id := ''p2''\<rparr>],
     w_locked := [''r1'', ''p1'', ''c1'', ''c2'']\<rparr>\<rparr>"

theorem shared_connection_is_rejected_witness:
  "run_pipeline_task example_platform ''r2'' (Some ''t2'') 0 0 shared_system = (TaskReturned, shared_system) \<and>
   map_option pr_status (get_run (sy_world shared_system) ''r2'') = Some PENDING"
proof
  have "get_run (sy_world shared_system) ''r1'' = Some (example_run\<lparr>pr_status := RUNNING\<rparr>)"
    "joined_rows (sy_world shared_system) (example_run\<lparr>pr_status := RUNNING\<rparr>) = Some [''r1'', ''p1'', ''c1'', ''c2'']"
    "get_run (sy_world shared_system) ''r2'' =
       Some (example_run\<lparr>pr_id := ''r2'', pr_pipeline_id := ''p2'', pr_idempotency_key := ''k2''\<rparr>)"
    "joined_rows (sy_world shared_system) (example_run\<lparr>pr_id := ''r2'', pr_pipeline_id := ''p2'',
       pr_idempotency_key := ''k2''\<rparr>) = Some [''r2'', ''p2'', ''c1'', ''c2'']"
    "w_locked (sy_world shared_system) = [''r1'', ''p1'', ''c1'', ''c2'']"
    by (simp_all add: shared_system_def example_system_def pipeline_world_def example_world_def example_run_def
        get_run_def find_row_def joined_rows_def get_pipeline_def get_connection_def example_pipeline_def)
  note facts = this
  show "run_pipeline_task example_platform ''r2'' (Some ''t2'') 0 0 shared_system = (TaskReturned, shared_system)"
    by (rule shared_connection_is_rejected [OF facts(1,2) _ facts(3,4)]) (simp_all add: facts(5))
  show "map_option pr_status (get_run (sy_world shared_system) ''r2'') = Some PENDING"
    by (simp add: facts(3) example_run_def)
qed

end
