(* ===== verification/Dispatch.thy ===== *)
theory Dispatch
  imports Claims Secrets
begin

text \<open>
  \<^verbatim>\<open>apps/execution/dispatch.py\<close> and the management command
  \<^verbatim>\<open>apps/execution/management/commands/run_pipeline.py\<close>: how a run comes into being and into the
  broker's queue. The table's unique constraint on the idempotency key is the reason why
  \<^verbatim>\<open>get_or_create\<close> finds at most one row.
\<close>

subsection \<open>Which runs can be continued\<close>

definition CONTINUABLE_ERROR_CATEGORY :: string where
  "CONTINUABLE_ERROR_CATEGORY = ''PageLimitExceededError''"

definition is_continuable :: "pipeline_run \<Rightarrow> bool" where
  "is_continuable run =
     (pr_status run = FAILED \<and> pr_error_category run = Some CONTINUABLE_ERROR_CATEGORY)"

definition check_continue_from :: "pipeline \<Rightarrow> pipeline_run \<Rightarrow> exn + unit" where
  "check_continue_from pl run =
     (if pr_pipeline_id run \<noteq> pl_id pl
      then Inl (configuration_error (''cannot continue run '' @ pr_id run @
             '': it belongs to a different pipeline''))
      else if pr_status run \<noteq> FAILED \<or> pr_error_category run \<noteq> Some CONTINUABLE_ERROR_CATEGORY
      then Inl (configuration_error (''cannot continue run '' @ pr_id run @ '': only a run FAILED with '' @
             py_repr CONTINUABLE_ERROR_CATEGORY @ '' carries a safe resume point (status='' @
             py_repr (status_text (pr_status run)) @ '', error_category='' @
             repr_opt (pr_error_category run) @ '')''))
      else Inr ())"

subsection \<open>Creating a run\<close>

text \<open>The row that \<^verbatim>\<open>get_or_create\<close> inserts: the defaults of the model, and for a continuation the
  cursor and the counters of the run it continues.\<close>

definition new_run :: "uuid \<Rightarrow> pipeline \<Rightarrow> string \<Rightarrow> pipeline_run option \<Rightarrow> timestamp \<Rightarrow> pipeline_run" where
  "new_run i pl key continue_from now =
     (let fresh = \<lparr>pr_id = i, pr_pipeline_id = pl_id pl, pr_status = PENDING, pr_trigger = MANUAL,
           pr_idempotency_key = key, pr_started_at = None, pr_finished_at = None, pr_continued_from = None,
           pr_attempt = 0, pr_celery_task_id = None, pr_last_successful_cursor = None, pr_pages_extracted = 0,
           pr_records_extracted = 0, pr_records_loaded = 0, pr_raw_payload_count = 0, pr_error_category = None,
           pr_error_message = None, pr_error_is_retryable = None, pr_updated_at = now\<rparr>
      in case continue_from of
           None \<Rightarrow> fresh
         | Some run \<Rightarrow> fresh\<lparr>pr_continued_from := Some (pr_id run),
             pr_last_successful_cursor := pr_last_successful_cursor run,
             pr_pages_extracted := pr_pages_extracted run,
             pr_records_extracted := pr_records_extracted run,
             pr_records_loaded := pr_records_loaded run,
             pr_raw_payload_count := pr_raw_payload_count run\<rparr>)"

definition find_key :: "string \<Rightarrow> world \<Rightarrow> pipeline_run option" where
  "find_key key w = find_row pr_idempotency_key key (w_runs w)"

definition get_or_create_run ::
  "(nat \<Rightarrow> uuid) \<Rightarrow> pipeline \<Rightarrow> string \<Rightarrow> pipeline_run option \<Rightarrow> world \<Rightarrow> pipeline_run \<times> bool \<times> world" where
  "get_or_create_run ids pl key continue_from w =
     (case find_key key w of
        Some run \<Rightarrow> (run, False, w)
      | None \<Rightarrow>
          (case uuid4 ids w of (i, w1) \<Rightarrow>
             let run = new_run i pl key continue_from (w_clock w)
             in (run, True, w1\<lparr>w_runs := w_runs w1 @ [run]\<rparr>)))"

text \<open>\<^verbatim>\<open>uuid.uuid4().hex\<close> is the identifier without its dashes.\<close>

definition idempotency_key_for ::
  "(nat \<Rightarrow> uuid) \<Rightarrow> pipeline \<Rightarrow> string option \<Rightarrow> world \<Rightarrow> string \<times> world" where
  "idempotency_key_for ids pl idempotency_key w =
     (case idempotency_key of
        Some (c # cs) \<Rightarrow> (c # cs, w)
      | _ \<Rightarrow> (case uuid4 ids w of (i, w1) \<Rightarrow>
          (''manual-'' @ pl_id pl @ ''-'' @ filter (\<lambda>c. c \<noteq> CHR ''-'') i, w1)))"

text \<open>\<^verbatim>\<open>run_pipeline_task.delay\<close> puts the schema and the run's id into the broker's queue.\<close>

definition delay :: "string \<Rightarrow> uuid \<Rightarrow> world \<Rightarrow> world" where
  "delay schema_name run_id w = w\<lparr>w_broker := w_broker w @ [(schema_name, run_id)]\<rparr>"

definition trigger_manual_run ::
  "(nat \<Rightarrow> uuid) \<Rightarrow> pipeline \<Rightarrow> string \<Rightarrow> string option \<Rightarrow> pipeline_run option \<Rightarrow> world \<Rightarrow>
   (exn + pipeline_run \<times> bool) \<times> world" where
  "trigger_manual_run ids pl schema_name idempotency_key continue_from w =
     (if \<not> pl_is_active pl
      then (Inl (configuration_error (''pipeline '' @ pl_id pl @ '' is not active'')), w)
      else case (case continue_from of None \<Rightarrow> Inr () | Some run \<Rightarrow> check_continue_from pl run) of
        Inl e \<Rightarrow> (Inl e, w)
      | Inr _ \<Rightarrow>
          (case idempotency_key_for ids pl idempotency_key w of (key, w1) \<Rightarrow>
            (case get_or_create_run ids pl key continue_from w1 of (run, created, w2) \<Rightarrow>
              if \<not> created \<and> pr_pipeline_id run \<noteq> pl_id pl
              then (Inl (configuration_error (''idempotency_key '' @ py_repr key @
                     '' is already in use by a run of a different pipeline'')), w2)
              else if \<not> created \<and> pr_status run \<noteq> PENDING
              then (Inr (run, False), w2)
              else (Inr (run, True), delay schema_name (pr_id run) w2))))"

subsection \<open>The command\<close>

datatype command_result = CommandError string | Printed string | Crashed exn

definition dispatch_message :: "string \<Rightarrow> pipeline \<Rightarrow> pipeline_run option \<Rightarrow> pipeline_run \<Rightarrow> bool \<Rightarrow> string" where
  "dispatch_message schema_name pl continue_from run dispatched =
     ''PipelineRun '' @ pr_id run @ '' '' @
     (if dispatched then ''dispatched'' else ''reused (not re-dispatched)'') @
     '' for pipeline '' @ pl_id pl @ '' (schema='' @ py_repr schema_name @ '', idempotency_key='' @
     py_repr (pr_idempotency_key run) @ '')'' @
     (case continue_from of None \<Rightarrow> [] | Some r \<Rightarrow> '', continuing from run '' @ pr_id r)"

definition handle_run_pipeline ::
  "(nat \<Rightarrow> uuid) \<Rightarrow> string \<Rightarrow> string \<Rightarrow> string option \<Rightarrow> string option \<Rightarrow> world \<Rightarrow> command_result \<times> world" where
  "handle_run_pipeline ids schema_name pipeline_id idempotency_key continue_from w =
     (case get_pipeline w pipeline_id of
        None \<Rightarrow> (CommandError (''No pipeline with id '' @ py_repr pipeline_id @ '' in schema '' @
                  py_repr schema_name), w)
      | Some pl \<Rightarrow>
          if \<not> pl_is_active pl then (CommandError (''Pipeline '' @ pl_id pl @ '' is not active''), w)
          else (case (case continue_from of
                        Some (c # cs) \<Rightarrow>
                          (case get_run w (c # cs) of
                             None \<Rightarrow> Inl (''No PipelineRun with id '' @ py_repr (c # cs) @ '' in schema '' @
                                          py_repr schema_name)
                           | Some r \<Rightarrow> Inr (Some r))
                      | _ \<Rightarrow> Inr None) of
                  Inl msg \<Rightarrow> (CommandError msg, w)
                | Inr cont \<Rightarrow>
                    (case trigger_manual_run ids pl schema_name idempotency_key cont w of
                       (Inl e, w') \<Rightarrow>
                         (if catches ConfigurationError e then CommandError (exn_text e) else Crashed e, w')
                     | (Inr (run, dispatched), w') \<Rightarrow>
                         (Printed (dispatch_message schema_name pl cont run dispatched), w'))))"

subsection \<open>What a trigger does\<close>

lemma find_key_drawn [simp]: "find_key key (w\<lparr>w_drawn := n\<rparr>) = find_key key w"
  by (simp add: find_key_def)

lemma find_key_key: "find_key key w = Some run \<Longrightarrow> pr_idempotency_key run = key"
  by (auto simp: find_key_def dest: find_row_key)

lemma idempotency_key_for_frame:
  "idempotency_key_for ids pl key w = (k, w1) \<Longrightarrow> \<exists>n. w1 = w\<lparr>w_drawn := n\<rparr>"
  by (auto simp: idempotency_key_for_def uuid4_def split: option.splits list.splits
      intro: exI [of _ "w_drawn w"])

lemma check_continue_from_Inr:
  "check_continue_from pl run = Inr u \<longleftrightarrow> pr_pipeline_id run = pl_id pl \<and> is_continuable run"
  by (simp add: check_continue_from_def is_continuable_def)

lemma check_continue_from_Inl:
  "check_continue_from pl run = Inl e \<Longrightarrow>
   raised_class e = Some ConfigurationError \<and> \<not> (pr_pipeline_id run = pl_id pl \<and> is_continuable run)"
  by (auto simp: check_continue_from_def is_continuable_def split: if_splits)

lemma new_run_fields [simp]:
  "pr_id (new_run i pl key cont now) = i" "pr_pipeline_id (new_run i pl key cont now) = pl_id pl"
  "pr_status (new_run i pl key cont now) = PENDING" "pr_idempotency_key (new_run i pl key cont now) = key"
  by (simp_all add: new_run_def Let_def split: option.split)

lemma get_or_create_run_cases:
  assumes "get_or_create_run ids pl key cont w = (run, created, w')"
  shows "find_key key w' = Some run \<and> w_broker w' = w_broker w \<and>
    (if created then find_key key w = None \<and> run = new_run (ids (w_drawn w)) pl key cont (w_clock w) \<and>
       w' = w\<lparr>w_drawn := w_drawn w + 1, w_runs := w_runs w @ [run]\<rparr>
     else find_key key w = Some run \<and> w' = w)"
  using assms
  by (auto simp: get_or_create_run_def uuid4_def Let_def find_key_def find_row_append split: option.splits)

text \<open>The two outcomes of a trigger that passes its guards.\<close>

definition may_continue :: "pipeline \<Rightarrow> pipeline_run option \<Rightarrow> bool" where
  "may_continue pl cont =
     (case cont of None \<Rightarrow> True | Some r \<Rightarrow> pr_pipeline_id r = pl_id pl \<and> is_continuable r)"

definition key_available :: "(nat \<Rightarrow> uuid) \<Rightarrow> pipeline \<Rightarrow> string option \<Rightarrow> world \<Rightarrow> bool" where
  "key_available ids pl key w =
     (case find_key (fst (idempotency_key_for ids pl key w)) w of
        None \<Rightarrow> True | Some run \<Rightarrow> pr_pipeline_id run = pl_id pl)"

lemma trigger_refused:
  assumes "\<not> (pl_is_active pl \<and> may_continue pl cont)"
  shows "\<exists>e. trigger_manual_run ids pl s key cont w = (Inl e, w) \<and> raised_class e = Some ConfigurationError"
proof (cases "pl_is_active pl")
  case True
  with assms obtain r where "cont = Some r" "\<not> (pr_pipeline_id r = pl_id pl \<and> is_continuable r)"
    by (auto simp: may_continue_def split: option.splits)
  moreover from this(2) obtain e where "check_continue_from pl r = Inl e"
    using check_continue_from_Inr [of pl r] by (cases "check_continue_from pl r") auto
  ultimately show ?thesis using True check_continue_from_Inl by (fastforce simp: trigger_manual_run_def)
qed (simp add: trigger_manual_run_def)

lemma trigger_allowed:
  assumes "pl_is_active pl" "may_continue pl cont" "idempotency_key_for ids pl key w = (k, w1)"
    "get_or_create_run ids pl k cont w1 = (run, created, w2)"
  shows "trigger_manual_run ids pl s key cont w =
    (if \<not> created \<and> pr_pipeline_id run \<noteq> pl_id pl
     then (Inl (configuration_error (''idempotency_key '' @ py_repr k @
             '' is already in use by a run of a different pipeline'')), w2)
     else if \<not> created \<and> pr_status run \<noteq> PENDING then (Inr (run, False), w2)
     else (Inr (run, True), delay s (pr_id run) w2))"
proof -
  have "(case cont of None \<Rightarrow> Inr () | Some r \<Rightarrow> check_continue_from pl r) = Inr ()"
    using assms(2) check_continue_from_Inr [of pl] by (auto simp: may_continue_def split: option.splits)
  then show ?thesis using assms by (simp add: trigger_manual_run_def)
qed

text \<open>The key under which a trigger looks for a run, and the identifier a new run gets: a generated key
  uses up one identifier.\<close>

definition requested_key :: "(nat \<Rightarrow> uuid) \<Rightarrow> pipeline \<Rightarrow> string option \<Rightarrow> world \<Rightarrow> string" where
  "requested_key ids pl key w =
     (if key \<in> {None, Some []}
      then ''manual-'' @ pl_id pl @ ''-'' @ filter (\<lambda>c. c \<noteq> CHR ''-'') (ids (w_drawn w))
      else or_default [] key)"

definition requested_id :: "(nat \<Rightarrow> uuid) \<Rightarrow> string option \<Rightarrow> world \<Rightarrow> uuid" where
  "requested_id ids key w = ids (w_drawn w + (if key \<in> {None, Some []} then 1 else 0))"

lemma idempotency_key_for_eq:
  "idempotency_key_for ids pl key w =
     (requested_key ids pl key w, w\<lparr>w_drawn := w_drawn w + (if key \<in> {None, Some []} then 1 else 0)\<rparr>)"
  by (auto simp: idempotency_key_for_def requested_key_def uuid4_def or_default_def split: option.splits list.splits)

lemma key_available_eq:
  "key_available ids pl key w =
     (case find_key (requested_key ids pl key w) w of None \<Rightarrow> True | Some row \<Rightarrow> pr_pipeline_id row = pl_id pl)"
  by (simp add: key_available_def idempotency_key_for_eq)

text \<open>What a newly triggered run looks like: pending and never executed, with the cursor and the counters
  of the run it continues, or from the start.\<close>

definition triggered_row :: "pipeline \<Rightarrow> string \<Rightarrow> pipeline_run option \<Rightarrow> uuid \<Rightarrow> pipeline_run \<Rightarrow> bool" where
  "triggered_row pl k cont i run =
     (pr_id run = i \<and> pr_pipeline_id run = pl_id pl \<and> pr_status run = PENDING \<and> pr_trigger run = MANUAL \<and>
      pr_idempotency_key run = k \<and> pr_attempt run = 0 \<and> pr_celery_task_id run = None \<and>
      (pr_started_at run, pr_finished_at run) = (None, None) \<and>
      (pr_error_category run, pr_error_message run, pr_error_is_retryable run) = (None, None, None) \<and>
      pr_continued_from run = map_option pr_id cont \<and>
      (pr_last_successful_cursor run, pr_pages_extracted run, pr_records_extracted run, pr_records_loaded run,
       pr_raw_payload_count run) =
        (case cont of
           None \<Rightarrow> (None, 0, 0, 0, 0)
         | Some r \<Rightarrow> (pr_last_successful_cursor r, pr_pages_extracted r, pr_records_extracted r,
             pr_records_loaded r, pr_raw_payload_count r)))"

lemma new_run_triggered: "triggered_row pl k cont i (new_run i pl k cont now)"
  by (cases cont) (simp_all add: triggered_row_def new_run_def Let_def)

lemma trigger_spec:
  "case trigger_manual_run ids pl s key cont w of
     (Inl e, w') \<Rightarrow> raised_class e = Some ConfigurationError \<and> w_runs w' = w_runs w \<and> w_broker w' = w_broker w \<and>
       \<not> (pl_is_active pl \<and> may_continue pl cont \<and> key_available ids pl key w)
   | (Inr (run, dispatched), w') \<Rightarrow> pl_is_active pl \<and> may_continue pl cont \<and> pr_pipeline_id run = pl_id pl \<and>
       (case find_key (requested_key ids pl key w) w of
          Some row \<Rightarrow> run = row \<and> w_runs w' = w_runs w
        | None \<Rightarrow> triggered_row pl (requested_key ids pl key w) cont (requested_id ids key w) run \<and>
            w_runs w' = w_runs w @ [run]) \<and>
       dispatched = (pr_status run = PENDING) \<and>
       w_broker w' = w_broker w @ (if dispatched then [(s, pr_id run)] else [])"
proof (cases "pl_is_active pl \<and> may_continue pl cont")
  case False
  with trigger_refused [OF False, of ids s key w] show ?thesis by auto
next
  case True
  let ?k = "requested_key ids pl key w"
  let ?n = "w_drawn w + (if key \<in> {None, Some []} then 1 else 0)"
  note k = idempotency_key_for_eq [of ids pl key w]
  obtain run created w2 where g: "get_or_create_run ids pl ?k cont (w\<lparr>w_drawn := ?n\<rparr>) = (run, created, w2)"
    by (cases "get_or_create_run ids pl ?k cont (w\<lparr>w_drawn := ?n\<rparr>)")
  note t = trigger_allowed [OF True [THEN conjunct1] True [THEN conjunct2] k g, of s]
  note c = get_or_create_run_cases [OF g]
  show ?thesis
  proof (cases created)
    case cr: True
    have none: "find_key ?k w = None" and run: "run = new_run (requested_id ids key w) pl ?k cont (w_clock w)"
      and w2: "w_runs w2 = w_runs w @ [run]" "w_broker w2 = w_broker w"
      using c cr by (simp_all add: requested_id_def)
    have "trigger_manual_run ids pl s key cont w = (Inr (run, True), delay s (pr_id run) w2)"
      using t cr by simp
    moreover have "triggered_row pl ?k cont (requested_id ids key w) run" using run new_run_triggered by simp
    moreover have "pr_pipeline_id run = pl_id pl" "pr_status run = PENDING" using run by simp_all
    ultimately show ?thesis using True none w2 by (simp add: delay_def)
  next
    case False
    then have "find_key ?k w = Some run" "w2 = w\<lparr>w_drawn := ?n\<rparr>" using c by simp_all
    with False True t show ?thesis by (auto simp: delay_def key_available_def k)
  qed
qed

text \<open>C35: A trigger, exactly. It is refused with a configuration error, and then neither the table of
  runs nor the broker changes, when the pipeline is inactive, when the run to continue is of
  another pipeline or did not fail at its page limit, or when the requested key belongs to another
  pipeline; the key is the caller's, or a generated one where the caller gives none. Otherwise,
  when a run with that key is in the table, the answer is that run and no row is created; when
  none is, one row is created, with the key, of this pipeline, pending and unexecuted, and with
  the cursor and the counters of the run to continue or from the start. The run was given to the
  broker, once, exactly if it is pending.\<close>

theorem trigger_exact:
  "case trigger_manual_run ids pl s key cont w of
     (Inl e, w') \<Rightarrow> raised_class e = Some ConfigurationError \<and> w_runs w' = w_runs w \<and> w_broker w' = w_broker w \<and>
       \<not> (pl_is_active pl \<and> may_continue pl cont \<and>
          (case find_key (requested_key ids pl key w) w of
             None \<Rightarrow> True | Some row \<Rightarrow> pr_pipeline_id row = pl_id pl))
   | (Inr (run, dispatched), w') \<Rightarrow> pl_is_active pl \<and> may_continue pl cont \<and> pr_pipeline_id run = pl_id pl \<and>
       (case find_key (requested_key ids pl key w) w of
          Some row \<Rightarrow> run = row \<and> w_runs w' = w_runs w
        | None \<Rightarrow> triggered_row pl (requested_key ids pl key w) cont (requested_id ids key w) run \<and>
            w_runs w' = w_runs w @ [run]) \<and>
       dispatched = (pr_status run = PENDING) \<and>
       w_broker w' = w_broker w @ (if dispatched then [(s, pr_id run)] else [])"
  using trigger_spec [where ids = ids and pl = pl and s = s and key = key and cont = cont and w = w] unfolding key_available_eq .

subsection \<open>The table of runs\<close>

text \<open>What the primary key and the unique constraint keep, and what \<^verbatim>\<open>uuid4\<close> promises: identifiers
  never drawn before.\<close>

definition runs_unique :: "world \<Rightarrow> bool" where
  "runs_unique w = (distinct (map pr_id (w_runs w)) \<and> distinct (map pr_idempotency_key (w_runs w)))"

definition ids_fresh :: "(nat \<Rightarrow> uuid) \<Rightarrow> world \<Rightarrow> bool" where
  "ids_fresh ids w = (inj ids \<and> (\<forall>n \<ge> w_drawn w. ids n \<notin> pr_id ` set (w_runs w)))"

lemma find_row_update_other:
  assumes "\<And>r. key' (f r) = key' r"
  shows "find_row key' k' (update_row key k f rows) =
    map_option (\<lambda>r. if key r = k then f r else r) (find_row key' k' rows)"
  using assms by (induction rows) (auto simp: find_row_def update_row_def)

lemma trigger_keeps_unique:
  assumes "runs_unique w" "ids_fresh ids w" "trigger_manual_run ids pl s key cont w = (r, w')"
  shows "runs_unique w' \<and> ids_fresh ids w'"
proof (cases "pl_is_active pl \<and> may_continue pl cont")
  case False
  with trigger_refused [OF False, of ids s key w] assms show ?thesis by auto
next
  case True
  obtain k w1 where k: "idempotency_key_for ids pl key w = (k, w1)" by fastforce
  obtain run created w2 where g: "get_or_create_run ids pl k cont w1 = (run, created, w2)"
    by (cases "get_or_create_run ids pl k cont w1")
  have w1: "w_runs w1 = w_runs w" "w_drawn w \<le> w_drawn w1"
    using k by (auto simp: idempotency_key_for_def uuid4_def split: option.splits list.splits)
  have w': "w_runs w' = w_runs w2" "w_drawn w' = w_drawn w2"
    using assms(3) trigger_allowed [OF _ _ k g, of s] True by (auto simp: delay_def split: if_splits)
  note c = get_or_create_run_cases [OF g]
  show ?thesis
  proof (cases created)
    case True
    have "ids (w_drawn w1) \<notin> pr_id ` set (w_runs w)" using assms(2) w1(2) by (simp add: ids_fresh_def)
    moreover have "k \<notin> pr_idempotency_key ` set (w_runs w)"
      using c True w1 by (simp add: find_key_def find_row_None)
    moreover have "ids n \<noteq> ids (w_drawn w1)" if "n \<ge> w_drawn w1 + 1" for n
      using assms(2) that by (auto simp: ids_fresh_def dest!: injD)
    ultimately show ?thesis
      using assms(1,2) w' c True w1 by (simp add: runs_unique_def ids_fresh_def)
  next
    case False
    with assms(1,2) w' c w1 show ?thesis by (auto simp: runs_unique_def ids_fresh_def)
  qed
qed

lemma claim_run_rows:
  assumes "claim_run i t w = (Inr run, w')"
  shows "\<exists>f. w' = w\<lparr>w_runs := update_row pr_id i f (w_runs w)\<rparr> \<and> (\<forall>r. pr_id (f r) = pr_id r \<and>
    pr_idempotency_key (f r) = pr_idempotency_key r \<and> pr_status (f r) = RUNNING)"
  using assms
  by (auto simp: claim_run_def Let_def save_run_def copy_claim_def select_for_update_def
      dest: get_run_id split: option.splits if_splits
      intro!: exI [of _ "\<lambda>row. row\<lparr>pr_status := RUNNING, pr_started_at := pr_started_at run,
        pr_celery_task_id := t, pr_attempt := pr_attempt run, pr_updated_at := w_clock w\<rparr>"])

lemma trigger_used_key:
  assumes "find_key (c # cs) w = Some row" "pr_status row \<noteq> PENDING"
  shows "\<exists>r. trigger_manual_run ids pl s (Some (c # cs)) cont w = (r, w) \<and>
    (case r of Inl e \<Rightarrow> raised_class e = Some ConfigurationError | Inr x \<Rightarrow> x = (row, False))"
proof (cases "pl_is_active pl \<and> may_continue pl cont")
  case False
  with trigger_refused [OF False, of ids s "Some (c # cs)" w] show ?thesis by auto
next
  case True
  have "get_or_create_run ids pl (c # cs) cont w = (row, False, w)"
    using assms(1) by (simp add: get_or_create_run_def)
  with trigger_allowed [where ids = ids and w = w and key = "Some (c # cs)" and k = "c # cs"] True assms(2)
  show ?thesis by (simp add: idempotency_key_for_def)
qed

definition manual_pipeline :: pipeline where
  "manual_pipeline = \<lparr>pl_id = ''p1'', pl_name = ''p'', pl_source_connection = ''c1'',
     pl_destination_connection = ''c2'', pl_extraction_config = [], pl_destination_mapping = [(''id'', ''a'')],
     pl_strict_mapping = True, pl_schedule_cron = None, pl_is_active = True\<rparr>"

end
