(* ===== verification/Continuation.thy ===== *)
theory Continuation
  imports Tasks Dispatch
begin

text \<open>
  The guarantee behind \<^verbatim>\<open>--continue-from\<close>, across the components: a run that failed at its
  page limit and the run that continues it deliver together what one run with a larger limit
  would have delivered.
\<close>

subsection \<open>Where a page limit comes from\<close>

context error_class
begin

lemma fetch_next_raised:
  assumes "policy_fine fine env" "http_fine fine lib"
    and f: "fetch_next env lib config cred s n = (Raised e, s', n')"
  shows "fine e \<or> (\<exists>client provider page y nc. s = FetchAtPage client provider page y False nc \<and> max_pages config \<le> y + 1)"
proof (cases s)
  case (FetchStart cursor)
  let ?x = "ebind (validate_config config) (\<lambda>_.
           ebind (start_page config cursor) (\<lambda>page.
           ebind (resolve_auth_provider lib config) (\<lambda>provider.
           ebind (source_client env config) (\<lambda>client. Inr (page, provider, client)))))"
  have x: "fineR fine ?x" by (intro fineR_ebind) simp_all
  show ?thesis
  proof (cases ?x)
    case (Inl e')
    with f x FetchStart show ?thesis by (simp add: fetch_next.simps)
  next
    case (Inr y)
    with f FetchStart fetch_page_fine [OF assms(1,2)] show ?thesis by (auto simp: fetch_next.simps split: prod.splits)
  qed
next
  case (FetchAtPage client provider page y final nc)
  with f fetch_page_fine [OF assms(1,2)] show ?thesis by (auto simp: fetch_next.simps split: if_splits)
qed (use f in \<open>auto simp: fetch_next.simps\<close>)

lemma drain_limit_page:
  assumes "policy_fine fine env" "http_fine fine lib" "\<not> fine e"
    and "drain (fetch_next env lib config cred) fuel (FetchAtPage client provider page y final nc) n = Some (rs, Some e, n')"
    and "y + 1 \<le> max_pages config" and "nc = (if final then None else Some c)"
  shows "length rs + y + 1 = max_pages config \<and> \<not> final \<and> 
    (rs \<noteq> [] \<longrightarrow> (\<exists>j. fr_next_cursor (last rs) = Some (str_of_int j)))"
  using assms(4-)
proof (induction fuel arbitrary: client provider page y final nc n rs c)
  case (Suc fuel)
  let ?s = "FetchAtPage client provider page y final nc"
  obtain ev s1 n1 where f: "fetch_next env lib config cred ?s n = (ev, s1, n1)"
    by (cases "fetch_next env lib config cred ?s n")
  show ?case
  proof (cases ev)
    case Stopped
    with Suc.prems f show ?thesis by (simp add: drain.simps)
  next
    case (Raised e')
    with Suc.prems f have "e' = e" "rs = []" by (auto simp: drain.simps)
    with fetch_next_raised [OF assms(1,2)] f Raised assms(3) Suc.prems(2) show ?thesis by fastforce
  next
    case (Yielded r)
    with Suc.prems(1) f obtain rs1 where rs: "rs = r # rs1"
      and d: "drain (fetch_next env lib config cred) fuel s1 n1 = Some (rs1, Some e, n')"
      by (auto simp: drain.simps)
    from f Yielded have p: "\<not> final" "y + 1 < max_pages config"
      "fetch_page env lib config cred client provider (page + 1) (y + 1) n = (Yielded r, s1, n1)"
      by (auto simp: fetch_next.simps split: if_splits)
    from fetch_page_event [OF p(3)] consider (empty) "s1 = FetchAtEmpty"
      | (page) p' fin where "s1 = FetchAtPage client p' (page + 1) (y + 1) fin (fr_next_cursor r)"
          "fr_next_cursor r = (if fin then None else Some (str_of_int (page + 1 + 1)))" by auto
    then show ?thesis
    proof cases
      case empty
      with d show ?thesis by (cases fuel) (simp_all add: drain.simps fetch_next.simps)
    next
      case page
      from Suc.IH [OF d [unfolded page(1)] _ page(2)] p rs page(2) show ?thesis by (cases "rs1 = []") auto
    qed
  qed
qed (simp add: drain.simps)

lemma drain_limit:
  assumes "policy_fine fine env" "http_fine fine lib" "\<not> fine e"
    and d: "drain (fetch_next env lib config cred) fuel (FetchStart cursor) n = Some (rs, Some e, n')"
  shows "validate_config config = Inr () \<and> rs \<noteq> [] \<and> length rs = max_pages config \<and>
    (\<exists>j. fr_next_cursor (last rs) = Some (str_of_int j))"
proof -
  let ?s = "FetchStart cursor"
  obtain f where fuel: "fuel = Suc f" using d by (cases fuel) (auto simp: drain.simps)
  obtain ev s1 n1 where f: "fetch_next env lib config cred ?s n = (ev, s1, n1)"
    by (cases "fetch_next env lib config cred ?s n")
  have "\<nexists>e'. ev = Raised e'" "ev \<noteq> Stopped"
    using d f fuel fetch_next_raised [OF assms(1,2)] assms(3) by (fastforce simp: drain.simps)+
  then obtain r where ev: "ev = Yielded r" by (cases ev) auto
  with d f fuel obtain rs1 where rs: "rs = r # rs1"
    and d1: "drain (fetch_next env lib config cred) f s1 n1 = Some (rs1, Some e, n')"
    by (auto simp: drain.simps)
  from f ev obtain page provider client where v: "validate_config config = Inr ()"
    and p: "fetch_page env lib config cred client provider page 0 n = (Yielded r, s1, n1)"
    by (cases rule: fetch_start_cases) auto
  have mp: "0 < max_pages config" by (rule validate_config_max_pages [OF v])
  from fetch_page_event [OF p] consider (empty) "s1 = FetchAtEmpty"
    | (page) p' fin where "s1 = FetchAtPage client p' page 0 fin (fr_next_cursor r)"
        "fr_next_cursor r = (if fin then None else Some (str_of_int (page + 1)))" by auto
  then show ?thesis
  proof cases
    case empty
    with d1 show ?thesis by (cases f) (simp_all add: drain.simps fetch_next.simps)
  next
    case page
    from drain_limit_page [OF assms(1-3) d1 [unfolded page(1)] _ page(2)] mp rs page(2) v show ?thesis
      by (cases "rs1 = []") auto
  qed
qed

lemma error_of_source:
  assumes "platform_fine fine pf" "\<not> fine e" "executed pf row pages (Inl e) sy sy'"
  shows "\<exists>c. load_context_of pf row (sy_world sy) = Inr c \<and>
    drain (fetch_next (pf_policy pf) (pf_http pf) (lc_config c) (lc_source_credential c))
      (max_pages (lc_config c) + 2) (FetchStart (pr_last_successful_cursor row)) (sy_net sy) =
        Some (pages, Some e, sy_net sy') \<and>
    delivered pf c pages (sy_dest sy) (sy_dest sy')"
proof (cases "load_context_of pf row (sy_world sy)")
  case (Inl e')
  with assms(3) have "e' = e" by (simp add: executed_def)
  with fineR_D [OF load_context_of_fineR Inl] assms(2) show ?thesis by simp
next
  case (Inr c)
  have "\<not> page_error pf c page e" for page
    using process_page_fine [OF assms(1)] assms(2) unfolding page_error_def by blast
  with assms(3) Inr show ?thesis by (auto simp: executed_def loop_outcome_def)
qed

end

subsection \<open>A run and its continuation\<close>

lemma new_run_seeded:
  "pr_last_successful_cursor (new_run i pl key (Some r) now) = pr_last_successful_cursor r"
  "progress_of (new_run i pl key (Some r) now) = progress_of r"
  by (simp_all add: new_run_def Let_def progress_of_def)

lemma triggered_continuation:
  assumes "trigger_manual_run ids pl s key (Some run) w = (Inr (run', d), w')"
    and "ids_fresh ids w" "find_key (pr_idempotency_key run') w = None"
  shows "get_run w' (pr_id run') = Some run' \<and> progress_of run' = progress_of run"
proof -
  obtain k w1 where k: "idempotency_key_for ids pl key w = (k, w1)" by fastforce
  obtain run2 created w2 where g: "get_or_create_run ids pl k (Some run) w1 = (run2, created, w2)"
    by (cases "get_or_create_run ids pl k (Some run) w1")
  have a: "pl_is_active pl" "may_continue pl (Some run)"
    using trigger_refused [of pl "Some run" ids s key w] assms(1) by fastforce+
  from trigger_allowed [OF a k g, of s] assms(1) have r: "run2 = run'" "w_runs w' = w_runs w2"
    by (auto simp: delay_def split: if_splits)
  have w1: "w_runs w1 = w_runs w" "w_drawn w \<le> w_drawn w1" "find_key k w1 = find_key k w"
    using k by (auto simp: idempotency_key_for_def uuid4_def find_key_def split: option.splits list.splits)
  note c = get_or_create_run_cases [OF g]
  have "pr_idempotency_key run' = k" using c r find_key_key by blast
  with c w1 assms(3) r have created: created by (auto split: if_splits)
  have "pr_id run' \<notin> pr_id ` set (w_runs w)"
    using c created r w1(2) assms(2) by (simp add: ids_fresh_def)
  then have "find_row pr_id (pr_id run') (w_runs w) = None" by (simp add: find_row_None)
  then have "get_run w' (pr_id run') = Some run'"
    using c created r w1(1) by (simp add: get_run_def find_row_append)
  with c created r new_run_seeded(2) show ?thesis by simp
qed

lemma resume_cursor_next: "fr_next_cursor page = Some (str_of_int j) \<Longrightarrow> resume_cursor page = Some (str_of_int j)"
  by (simp add: resume_cursor_def nonempty_opt_def)

lemma progress_fields:
  assumes "progress_of a = progress_of (progressed (pr_pages_extracted b) pages b)"
  shows "pr_pages_extracted a = pr_pages_extracted b + length pages"
    and "pr_records_loaded a = pr_records_loaded b + sum_list (map (\<lambda>p. length (fr_records p)) pages)"
    and "pages \<noteq> [] \<Longrightarrow> pr_last_successful_cursor a = resume_cursor (last pages)"
  using assms progressed_fields [of "pr_pages_extracted b" pages b] progressed_pages [of "pr_pages_extracted b" b pages]
  by (simp_all add: progress_of_def)

lemma drain_needs_start:
  "drain (fetch_next env lib config cred) fuel (FetchStart cursor) n = Some (rs, ending, n') \<Longrightarrow> rs \<noteq> [] \<Longrightarrow>
   \<exists>start. start_page config cursor = Inr start"
  by (cases fuel; cases "start_page config cursor")
    (auto simp: drain.simps fetch_next.simps result_simps split: sum.splits prod.splits)

text \<open>C1: A capped run and its continuation are one complete run. Let a run fail with
  \<^verbatim>\<open>PageLimitExceededError\<close>, let it be continued by a new run, and let that one succeed under the
  same configuration. Then, whatever the authentication, the second fetch began where the first
  had stopped; the pages of the two are numbered consecutively from where the first run began,
  none missing and none twice, and the last was short or the source answered the page after it
  with no records; each was committed to the destination once and in order; and the counters of
  the continuation tell the total. Where the authentication keeps no token between requests (none,
  API key, basic, bearer), the pages are, request for request, those of one fetch with a larger
  limit.\<close>

theorem capped_run_continued:
  assumes libs: "platform_fine not_page_limit pf"
    and first: "run_pipeline pf a t1 final1 sy = (Inl e, sy1)" "raised_class e = Some PageLimitExceededError"
    and row: "get_run (sy_world sy) a = Some row" "unlocked a (sy_world sy)" "claimable t1 row"
    and config: "load_context_of pf row (sy_world sy) = Inr c"
    and failed_row: "get_run (sy_world sy1) a = Some run_a"
    and trigger: "trigger_manual_run ids pl s key (Some run_a) (sy_world sy1) = (Inr (run_b, True), w1)"
    and fresh: "ids_fresh ids (sy_world sy1)" "find_key (pr_idempotency_key run_b) (sy_world sy1) = None"
    and same: "load_context_of pf run_b w1 = Inr c"
    and second: "run_pipeline pf (pr_id run_b) t2 final2 (sy1\<lparr>sy_world := w1\<rparr>) = (Inr u, sy2)"
    and m: "2 * max_pages (lc_config c) \<le> m"
  shows "\<exists>start pages1 pages2 row'. start_page (lc_config c) (pr_last_successful_cursor row) = Inr start \<and>
    drain (fetch_next (pf_policy pf) (pf_http pf) (lc_config c) (lc_source_credential c)) (max_pages (lc_config c) + 2)
      (FetchStart (Some (str_of_int (start + int (length pages1))))) (sy_net sy1) = Some (pages2, None, sy_net sy2) \<and>
    page_run start (pages1 @ pages2) \<and>
    (pages2 \<noteq> [] \<and> terminal_page (lc_config c) (last pages2) \<or>
     answered_empty (pf_policy pf) (pf_http pf) (lc_config c) (lc_source_credential c)
       (start + int (length (pages1 @ pages2))) (sy_net sy2)) \<and>
    delivered pf c (pages1 @ pages2) (sy_dest sy) (sy_dest sy2) \<and>
    get_run (sy_world sy2) (pr_id run_b) = Some row' \<and> pr_status row' = SUCCEEDED \<and>
    pr_pages_extracted row' = pr_pages_extracted row + length (pages1 @ pages2) \<and>
    pr_records_loaded row' = pr_records_loaded row + sum_list (map (\<lambda>p. length (fr_records p)) (pages1 @ pages2)) \<and>
    (\<forall>q. resolve_auth_provider (pf_http pf) (lc_config c) = Inr q \<longrightarrow> keeps_no_token q \<longrightarrow>
       (\<exists>fuel. drain (fetch_next (pf_policy pf) (pf_http pf) (with_max_pages m (lc_config c)) (lc_source_credential c))
          fuel (FetchStart (pr_last_successful_cursor row)) (sy_net sy) = Some (pages1 @ pages2, None, sy_net sy2)))"
proof -
  let ?nxt = "fetch_next (pf_policy pf) (pf_http pf) (lc_config c) (lc_source_credential c)"
  let ?mx = "max_pages (lc_config c) + 2"
  from run_pipeline_failed [OF first(1) row] failed_row obtain cause ps1 where
    cause: "e = Domain (recorded_error cause)" and e1: "executed pf row ps1 (Inl cause) sy sy1"
    and p1: "progress_of run_a = progress_of (progressed (pr_pages_extracted row) ps1 row)" by auto
  have "\<not> not_page_limit cause"
    using cause first(2) by (cases cause) (simp_all add: not_page_limit_def unexpected_error_def)
  from other_error.error_of_source [OF libs this e1] config
  have d1: "drain ?nxt ?mx (FetchStart (pr_last_successful_cursor row)) (sy_net sy) = Some (ps1, Some cause, sy_net sy1)"
    and del1: "delivered pf c ps1 (sy_dest sy) (sy_dest sy1)" by auto
  have fine: "policy_fine not_page_limit (pf_policy pf)" "http_fine not_page_limit (pf_http pf)"
    using libs by (simp_all add: platform_fine_def)
  from other_error.drain_limit [OF fine \<open>\<not> not_page_limit cause\<close> d1] obtain j where
    valid: "validate_config (lc_config c) = Inr ()" and ne: "ps1 \<noteq> []"
    and limit: "length ps1 = max_pages (lc_config c)" "fr_next_cursor (last ps1) = Some (str_of_int j)" by blast
  obtain start where start: "start_page (lc_config c) (pr_last_successful_cursor row) = Inr start"
    using drain_needs_start [OF d1 ne] by blast
  have b: "get_run w1 (pr_id run_b) = Some run_b" "progress_of run_b = progress_of run_a"
    using triggered_continuation [OF trigger fresh] by simp_all
  have row_b: "get_run (sy_world (sy1\<lparr>sy_world := w1\<rparr>)) (pr_id run_b) = Some run_b" using b(1) by simp
  have cur: "pr_last_successful_cursor run_b = Some (str_of_int j)"
    using progress_fields(3) [OF p1 ne] b(2) resume_cursor_next [OF limit(2)] by (simp add: progress_of_def)
  from run_pipeline_succeeded [OF second row_b] obtain ps2 row2 where
    e2: "executed pf run_b ps2 (Inr ()) (sy1\<lparr>sy_world := w1\<rparr>) sy2"
    and r2: "get_run (sy_world sy2) (pr_id run_b) = Some row2" "pr_status row2 = SUCCEEDED"
      "progress_of row2 = progress_of (progressed (pr_pages_extracted run_b) ps2 run_b)" by blast
  have d2: "drain ?nxt ?mx (FetchStart (Some (str_of_int j))) (sy_net sy1) = Some (ps2, None, sy_net sy2)"
    and del2: "delivered pf c ps2 (sy_dest sy1) (sy_dest sy2)"
    using e2 same cur by (auto simp: executed_def loop_outcome_def)
  have counters: "pr_pages_extracted row2 = pr_pages_extracted row + length (ps1 @ ps2)"
    "pr_records_loaded row2 = pr_records_loaded row + sum_list (map (\<lambda>p. length (fr_records p)) (ps1 @ ps2))"
    using progress_fields [OF r2(3)] progress_fields [OF p1] b(2) by (simp_all add: progress_of_def)
  have del: "delivered pf c (ps1 @ ps2) (sy_dest sy) (sy_dest sy2)"
    using del1 del2 by (auto simp: delivered_append)
  note pages = continued_pages [OF start d1 ne limit(2) d2]
  have j: "j = start + int (length ps1)"
    using page_run_cursor [OF _ ne limit(2)] drain_start [OF d1 start] by (simp add: run_ok_def str_of_int_inj)
  have longer: "drain (fetch_next (pf_policy pf) (pf_http pf) (with_max_pages m (lc_config c)) (lc_source_credential c))
      (?mx + ?mx) (FetchStart (pr_last_successful_cursor row)) (sy_net sy) = Some (ps1 @ ps2, None, sy_net sy2)"
    if "resolve_auth_provider (pf_http pf) (lc_config c) = Inr q" "keeps_no_token q" for q
    by (rule fetch_continued [OF valid that d1 limit d2 m])
  show ?thesis
    by (intro exI [of _ start] exI [of _ ps1] exI [of _ ps2] exI [of _ row2] conjI)
      (use start d2 pages del r2(1,2) counters longer in \<open>simp_all add: j, blast?\<close>)
qed

text \<open>A source with one full page of two records and an empty one after it, a pipeline limited to one
  page, and the two runs.\<close>

definition capped_platform :: "(nat, row list, row list, ((string \<times> string) \<times> bytes) list) platform" where
  "capped_platform = example_platform\<lparr>pf_http := objects_lib\<lparr>hl_send := (\<lambda>client req n.
       (Inr (if n = 0 then example_response else example_response\<lparr>resp_chunks := []\<rparr>), n + 1)),
     hl_json_loads := (\<lambda>b. Some (JList (if b = [] then [] else [JObj [(''a'', JInt 1)], JObj [(''a'', JInt 2)]])))\<rparr>\<rparr>"

definition capped_system :: "(nat, row list, ((string \<times> string) \<times> bytes) list) system" where
  "capped_system = example_system\<lparr>sy_world := pipeline_world\<lparr>w_pipelines :=
     [example_pipeline\<lparr>pl_extraction_config := [(''max_pages'', JInt 1), (''page_size'', JInt 2)]\<rparr>]\<rparr>\<rparr>"

definition first_run :: "(exn + unit) \<times> (nat, row list, ((string \<times> string) \<times> bytes) list) system" where
  "first_run = run_pipeline capped_platform ''r1'' (Some ''t1'') True capped_system"

definition continuation :: "(exn + pipeline_run \<times> bool) \<times> world" where
  "continuation = trigger_manual_run str_of_nat example_pipeline ''acme'' (Some ''again'')
     (get_run (sy_world (snd first_run)) ''r1'') (sy_world (snd first_run))"

definition second_run :: "(exn + unit) \<times> (nat, row list, ((string \<times> string) \<times> bytes) list) system" where
  "second_run = (case continuation of
     (Inl e, w) \<Rightarrow> (Inl e, snd first_run)
   | (Inr (run, d), w) \<Rightarrow> run_pipeline capped_platform (pr_id run) (Some ''t2'') True ((snd first_run)\<lparr>sy_world := w\<rparr>))"

text \<open>The sanitized message is only stored; the runs are evaluated without it.\<close>

declare sanitize_error_message_def [code del]

lemma capped_first:
  "case fst first_run of Inl e \<Rightarrow> raised_class e = Some PageLimitExceededError | Inr u \<Rightarrow> False"
  by code_simp

lemma capped_rows:
  "get_run (sy_world (snd first_run)) ''r1'' \<noteq> None"
  "map pr_id (w_runs (sy_world (snd first_run))) = [''r1'', ''r2'']"
  "find_key ''again'' (sy_world (snd first_run)) = None"
  by code_simp+

lemma capped_continuation:
  "case continuation of (Inr (run, d), w) \<Rightarrow> d \<and> pr_idempotency_key run = ''again'' \<and>
       load_context_of capped_platform run w = load_context_of capped_platform example_run (sy_world capped_system) | _ \<Rightarrow> False"
  by code_simp

lemma capped_config:
  "case load_context_of capped_platform example_run (sy_world capped_system) of
     Inl e \<Rightarrow> False | Inr c \<Rightarrow> max_pages (lc_config c) = 1"
  by code_simp

lemma capped_second: "fst second_run = Inr ()"
  by code_simp

lemma capped_fine: "platform_fine P capped_platform"
proof -
  have "http_fine P (pf_http capped_platform)"
    by (auto simp: http_fine_def capped_platform_def example_platform_def objects_lib_def records_lib_def
        const_lib_def example_response_def)
  moreover have "pf_policy capped_platform = pf_policy busy_platform" "pf_sql capped_platform = pf_sql busy_platform"
    "pf_s3 capped_platform = pf_s3 busy_platform" by (simp_all add: capped_platform_def busy_platform_def)
  ultimately show ?thesis using busy_platform_fine [of P] by (simp add: platform_fine_def)
qed

lemma capped_fresh: "ids_fresh str_of_nat (sy_world (snd first_run))"
proof -
  have "pr_id ` set (w_runs (sy_world (snd first_run))) = {''r1'', ''r2''}"
    using arg_cong [OF capped_rows(2), of set] by simp
  moreover have "str_of_nat n \<noteq> CHR ''r'' # xs" for n xs
    using str_of_nat_digits [of n] by (auto simp: is_digit_def)
  ultimately show ?thesis by (auto simp: ids_fresh_def inj_def)
qed

theorem capped_run_continued_witness:
  "\<exists>c pages start i row'. load_context_of capped_platform example_run (sy_world capped_system) = Inr c \<and>
     delivered capped_platform c pages [] (sy_dest (snd second_run)) \<and>
     get_run (sy_world (snd second_run)) i = Some row' \<and> pr_status row' = SUCCEEDED \<and>
     page_run start pages \<and> pr_pages_extracted row' = length pages"
proof -
  obtain e where first: "run_pipeline capped_platform ''r1'' (Some ''t1'') True capped_system = (Inl e, snd first_run)"
    "raised_class e = Some PageLimitExceededError"
    using capped_first by (auto simp: first_run_def prod_eq_iff split: sum.splits)
  obtain run_a where a: "get_run (sy_world (snd first_run)) ''r1'' = Some run_a" using capped_rows(1) by auto
  obtain run_b w1 where b: "trigger_manual_run str_of_nat example_pipeline ''acme'' (Some ''again'') (Some run_a)
      (sy_world (snd first_run)) = (Inr (run_b, True), w1)" "continuation = (Inr (run_b, True), w1)"
    "pr_idempotency_key run_b = ''again''"
    "load_context_of capped_platform run_b w1 = load_context_of capped_platform example_run (sy_world capped_system)"
  proof (cases continuation)
    case (Pair x w1)
    note k = capped_continuation [unfolded Pair prod.case]
    then obtain run_b where "x = Inr (run_b, True)" by (cases x) auto
    with k Pair a that show ?thesis by (simp add: continuation_def)
  qed
  obtain c where c: "load_context_of capped_platform example_run (sy_world capped_system) = Inr c"
    "max_pages (lc_config c) = 1"
    using capped_config by (auto split: sum.splits)
  have second: "run_pipeline capped_platform (pr_id run_b) (Some ''t2'') True ((snd first_run)\<lparr>sy_world := w1\<rparr>) =
      (Inr (), snd second_run)"
  proof -
    have "second_run = run_pipeline capped_platform (pr_id run_b) (Some ''t2'') True ((snd first_run)\<lparr>sy_world := w1\<rparr>)"
      by (simp add: second_run_def b(2))
    with capped_second show ?thesis by (metis prod.collapse)
  qed
  have row: "get_run (sy_world capped_system) ''r1'' = Some example_run" "unlocked ''r1'' (sy_world capped_system)"
  proof -
    show g: "get_run (sy_world capped_system) ''r1'' = Some example_run"
      using example_system_row(1) by (simp add: capped_system_def example_system_def get_run_def)
    show "unlocked ''r1'' (sy_world capped_system)"
      unfolding unlocked_def g
      by (simp add: capped_system_def example_system_def pipeline_world_def example_world_def find_row_def
          example_run_def joined_rows_def get_pipeline_def get_connection_def example_pipeline_def)
  qed
  have key: "find_key (pr_idempotency_key run_b) (sy_world (snd first_run)) = None" using capped_rows(3) b(3) by simp
  have m: "2 * max_pages (lc_config c) \<le> 2" using c(2) by simp
  from capped_run_continued [OF capped_fine first row example_system_row(3) c(1) a b(1) capped_fresh key
      b(4) [unfolded c(1)] second m] obtain start pages1 pages2 row' where
    "delivered capped_platform c (pages1 @ pages2) (sy_dest capped_system) (sy_dest (snd second_run))"
    "page_run start (pages1 @ pages2)"
    "get_run (sy_world (snd second_run)) (pr_id run_b) = Some row'" "pr_status row' = SUCCEEDED"
    "pr_pages_extracted row' = pr_pages_extracted example_run + length (pages1 @ pages2)" by (elim exE conjE) (rule that)
  with c(1) show ?thesis
    by (intro exI [of _ c] exI [of _ "pages1 @ pages2"] exI [of _ start] exI [of _ "pr_id run_b"] exI [of _ row'])
      (simp add: capped_system_def example_system_def example_run_def)
qed

end
