(* ===== verification/Concurrency.thy ===== *)
theory Concurrency
  imports Orchestration Dispatch
begin

text \<open>
  Workers on one tenant's runs, at the same time. Each transaction that a worker commits is a step:
  its claim, the progress after a page, and how it leaves the run, as the functions of
  \<^verbatim>\<open>claims.py\<close> and \<^verbatim>\<open>orchestration.py\<close> do it, on the worker's own copy of the row; and so are a
  trigger, the death of a worker, and whatever leaves the table of runs alone. Claims of a task that the
  broker delivers again are steps like any other; \<open>brokered_steps\<close> are those without them.
\<close>

subsection \<open>The steps\<close>

record cluster =
  cl_world :: world
  cl_workers :: "nat \<Rightarrow> pipeline_run option" \<comment> \<open>the copy that each busy worker holds\<close>

text \<open>No worker is executing the run for the task.\<close>

definition not_at_work :: "uuid \<Rightarrow> string option \<Rightarrow> cluster \<Rightarrow> bool" where
  "not_at_work i t c =
     (\<forall>n run. cl_workers c n = Some run \<longrightarrow> \<not> (pr_id run = i \<and> pr_celery_task_id run = t))"

definition goes_on :: "cluster \<Rightarrow> nat \<Rightarrow> pipeline_run option \<Rightarrow> world \<Rightarrow> cluster" where
  "goes_on c n copy w = c\<lparr>cl_world := w, cl_workers := (cl_workers c)(n := copy)\<rparr>"

inductive worker_step :: "(nat \<Rightarrow> uuid) \<Rightarrow> cluster \<Rightarrow> cluster \<Rightarrow> bool" for ids where
  claims: "cl_workers c n = None \<Longrightarrow> claim_run i t (cl_world c) = (Inr run, w) \<Longrightarrow>
     worker_step ids c (goes_on c n (Some run) w)"
| counts: "cl_workers c n = Some run \<Longrightarrow>
     worker_step ids c (goes_on c n (Some (advance k page m run)) (cl_world c))"
| progresses: "cl_workers c n = Some run \<Longrightarrow> save_run copy_progress run (cl_world c) = Inr w \<Longrightarrow>
     worker_step ids c (goes_on c n (Some run) w)"
| succeeds: "cl_workers c n = Some run \<Longrightarrow> mark_run_succeeded run (cl_world c) = (Inr (), run', w) \<Longrightarrow>
     worker_step ids c (goes_on c n None w)"
| fails: "cl_workers c n = Some run \<Longrightarrow> mark_run_failed category message retry run (cl_world c) = (Inr (), run', w) \<Longrightarrow>
     worker_step ids c (goes_on c n None w)"
| pauses: "cl_workers c n = Some run \<Longrightarrow>
     record_pending_retry category message retry run (cl_world c) = (Inr (), run', w) \<Longrightarrow>
     worker_step ids c (goes_on c n None w)"
| dies: "worker_step ids c (goes_on c n None (cl_world c))"
| triggers: "trigger_manual_run ids pl s key cont (cl_world c) = (r, w) \<Longrightarrow> worker_step ids c (c\<lparr>cl_world := w\<rparr>)"
| elsewhere: "w_runs w = w_runs (cl_world c) \<Longrightarrow> worker_step ids c (c\<lparr>cl_world := w\<rparr>)"

inductive_cases worker_stepE [consumes 1, case_names claims counts progresses succeeds fails pauses dies triggers elsewhere]:
  "worker_step ids c c'"

abbreviation worker_steps :: "(nat \<Rightarrow> uuid) \<Rightarrow> cluster \<Rightarrow> cluster \<Rightarrow> bool" where
  "worker_steps ids \<equiv> (worker_step ids)\<^sup>*\<^sup>*"

text \<open>What the claims cannot ensure and the broker has to: a task that a worker starts on is not
  being executed by another one. A brokered execution is one whose deliveries keep to that.\<close>

definition one_delivery :: "cluster \<Rightarrow> cluster \<Rightarrow> bool" where
  "one_delivery c c' =
     (\<forall>n run. cl_workers c n = None \<longrightarrow> cl_workers c' n = Some run \<longrightarrow>
        not_at_work (pr_id run) (pr_celery_task_id run) c)"

definition brokered_step :: "(nat \<Rightarrow> uuid) \<Rightarrow> cluster \<Rightarrow> cluster \<Rightarrow> bool" where
  "brokered_step ids c c' = (worker_step ids c c' \<and> one_delivery c c')"

abbreviation brokered_steps :: "(nat \<Rightarrow> uuid) \<Rightarrow> cluster \<Rightarrow> cluster \<Rightarrow> bool" where
  "brokered_steps ids \<equiv> (brokered_step ids)\<^sup>*\<^sup>*"

lemma brokered_worker_steps: "brokered_steps ids c c' \<Longrightarrow> worker_steps ids c c'"
  by (rule rtranclp_mono [THEN predicate2D]) (auto simp: brokered_step_def)

text \<open>All workers idle.\<close>

definition at_rest :: "cluster \<Rightarrow> bool" where
  "at_rest c = (\<forall>n. cl_workers c n = None)"

subsection \<open>What a worker's writes do to the table\<close>

lemma saved_Inr:
  "saved copy run w = (Inr u, run', w') \<Longrightarrow> save_run copy run w = Inr w' \<and> run' = run"
  by (auto simp: saved_def split: sum.splits)

lemma save_needs_row: "save_run copy run w = Inr w' \<Longrightarrow> \<exists>row. get_run w (pr_id run) = Some row"
  by (auto simp: save_run_def split: option.splits)

lemma mark_succeeded_row:
  assumes "mark_run_succeeded run w = (Inr u, run', w')"
  shows "\<exists>row row'. get_run w (pr_id run) = Some row \<and> get_run w' (pr_id run) = Some row' \<and> pr_status row' = SUCCEEDED \<and>
    (\<forall>i. i \<noteq> pr_id run \<longrightarrow> get_run w' i = get_run w i)"
proof -
  let ?r = "run\<lparr>pr_status := SUCCEEDED, pr_finished_at := Some (w_clock w), pr_error_category := None,
                 pr_error_message := None, pr_error_is_retryable := None\<rparr>"
  have s: "save_run copy_finish ?r w = Inr w'"
    using assms saved_Inr [of copy_finish ?r w] by (auto simp: mark_run_succeeded_def split: if_splits)
  from save_needs_row [OF s] save_run_get [OF s] show ?thesis by (auto simp: copy_finish_def)
qed

lemma mark_failed_row:
  assumes "mark_run_failed cat msg retry run w = (Inr u, run', w')"
  shows "\<exists>row row'. get_run w (pr_id run) = Some row \<and> get_run w' (pr_id run) = Some row' \<and> pr_status row' = FAILED \<and>
    (\<forall>i. i \<noteq> pr_id run \<longrightarrow> get_run w' i = get_run w i)"
proof -
  let ?r = "run\<lparr>pr_status := FAILED, pr_finished_at := Some (w_clock w), pr_error_category := Some cat,
                 pr_error_message := Some msg, pr_error_is_retryable := Some retry\<rparr>"
  have s: "save_run copy_finish ?r w = Inr w'"
    using assms saved_Inr [of copy_finish ?r w] by (auto simp: mark_run_failed_def split: if_splits)
  from save_needs_row [OF s] save_run_get [OF s] show ?thesis by (auto simp: copy_finish_def)
qed

lemma progress_row:
  assumes "save_run copy run w = Inr w'" "copy \<in> {copy_progress, copy_error}"
  shows "\<exists>row row'. get_run w (pr_id run) = Some row \<and> get_run w' (pr_id run) = Some row' \<and>
    pr_status row' = pr_status row \<and> pr_celery_task_id row' = pr_celery_task_id row \<and>
    (\<forall>i. i \<noteq> pr_id run \<longrightarrow> get_run w' i = get_run w i)"
proof -
  have frame: "pr_id (copy r row) = pr_id row" "pr_status (copy r row) = pr_status row"
    "pr_celery_task_id (copy r row) = pr_celery_task_id row" for r row
    using assms(2) by (auto simp: copy_progress_def copy_error_def)
  from save_needs_row [OF assms(1)] save_run_get [OF assms(1) frame(1)] frame show ?thesis by auto
qed

lemma pending_retry_row:
  assumes "record_pending_retry cat msg retry run w = (Inr u, run', w')"
  shows "\<exists>row row'. get_run w (pr_id run) = Some row \<and> get_run w' (pr_id run) = Some row' \<and>
    pr_status row' = pr_status row \<and> pr_celery_task_id row' = pr_celery_task_id row \<and>
    (\<forall>i. i \<noteq> pr_id run \<longrightarrow> get_run w' i = get_run w i)"
proof -
  let ?r = "run\<lparr>pr_error_category := Some cat, pr_error_message := Some msg, pr_error_is_retryable := Some retry\<rparr>"
  have "save_run copy_error ?r w = Inr w'"
    using assms saved_Inr [of copy_error ?r w] by (simp add: record_pending_retry_def)
  from progress_row [OF this] show ?thesis by simp
qed

lemma trigger_keeps_rows:
  assumes "trigger_manual_run ids pl s key cont w = (r, w')" "get_run w i = Some row"
  shows "get_run w' i = Some row"
proof -
  have "w_runs w' = w_runs w \<or> (\<exists>new. w_runs w' = w_runs w @ [new])"
    using trigger_spec [where ids = ids and pl = pl and s = s and key = key and cont = cont and w = w] assms(1)
    by (cases r) (auto split: option.splits)
  then show ?thesis using assms(2) by (auto simp: get_run_def find_row_append)
qed

subsection \<open>One worker per run\<close>

text \<open>A busy worker holds a running copy, and the row is running and its own; and no two of them are on
  the same run.\<close>

definition owns_its_run :: "world \<Rightarrow> pipeline_run \<Rightarrow> bool" where
  "owns_its_run w run =
     (pr_status run = RUNNING \<and> (\<exists>row. get_run w (pr_id run) = Some row \<and> pr_status row = RUNNING \<and>
        pr_celery_task_id row = pr_celery_task_id run))"

definition exclusive :: "cluster \<Rightarrow> bool" where
  "exclusive c =
     ((\<forall>n run. cl_workers c n = Some run \<longrightarrow> owns_its_run (cl_world c) run) \<and>
      (\<forall>n m run run'. cl_workers c n = Some run \<longrightarrow> cl_workers c m = Some run' \<longrightarrow> pr_id run = pr_id run' \<longrightarrow> n = m))"

lemma exclusiveI:
  assumes "\<And>n run. cl_workers c n = Some run \<Longrightarrow> owns_its_run (cl_world c) run"
    and "\<And>n m run run'. cl_workers c n = Some run \<Longrightarrow> cl_workers c m = Some run' \<Longrightarrow> pr_id run = pr_id run' \<Longrightarrow> n = m"
  shows "exclusive c"
  using assms unfolding exclusive_def by blast

lemma goes_on_simps [simp]:
  "cl_world (goes_on c n copy w) = w" "cl_workers (goes_on c n copy w) = (cl_workers c)(n := copy)"
  by (simp_all add: goes_on_def)

lemma owns_elsewhere:
  "owns_its_run w run \<Longrightarrow> get_run w' (pr_id run) = get_run w (pr_id run) \<Longrightarrow> owns_its_run w' run"
  by (simp add: owns_its_run_def)

text \<open>A step of one worker that leaves the rows of the other runs alone.\<close>

lemma exclusive_goes_on:
  assumes ex: "exclusive c" and run: "cl_workers c n = Some run"
    and other: "\<And>i. i \<noteq> pr_id run \<Longrightarrow> get_run w i = get_run (cl_world c) i"
    and copy: "\<And>run'. copy = Some run' \<Longrightarrow> pr_id run' = pr_id run \<and> owns_its_run w run'"
  shows "exclusive (goes_on c n copy w)"
proof -
  have ne: "pr_id r \<noteq> pr_id run" if "cl_workers c m = Some r" "m \<noteq> n" for m r
    using ex run that unfolding exclusive_def by metis
  have "owns_its_run w r" if "cl_workers c m = Some r" "m \<noteq> n" for m r
    using ex that other [OF ne [OF that]] owns_elsewhere unfolding exclusive_def by metis
  note rest = this
  show ?thesis
  proof (rule exclusiveI)
    fix m r assume "cl_workers (goes_on c n copy w) m = Some r"
    with rest [of m r] copy [of r] show "owns_its_run (cl_world (goes_on c n copy w)) r"
      by (cases "m = n") simp_all
  next
    fix k m r r'
    assume kr: "cl_workers (goes_on c n copy w) k = Some r" and mr: "cl_workers (goes_on c n copy w) m = Some r'"
      and same: "pr_id r = pr_id r'"
    have old: "\<exists>r0. cl_workers c l = Some r0 \<and> pr_id r0 = pr_id q" if "cl_workers (goes_on c n copy w) l = Some q" for l q
      using that run copy [of q] by (cases "l = n") simp_all
    from old [OF kr] old [OF mr] same ex show "k = m" unfolding exclusive_def by metis
  qed
qed

lemma brokered_step_exclusive:
  assumes step: "brokered_step ids c c'" and ex: "exclusive c"
  shows "exclusive c'"
  using step [unfolded brokered_step_def, THEN conjunct1]
proof (cases rule: worker_stepE)
  case (claims n i t run w)
  from claim_run_Inr [OF claims(3)] obtain row where row: "get_run (cl_world c) i = Some row" "claimable t row"
    and run: "run = claimed t (w_clock (cl_world c)) row" and w: "get_run w i = Some (run\<lparr>pr_updated_at := w_clock (cl_world c)\<rparr>)"
      "\<forall>j. j \<noteq> i \<longrightarrow> get_run w j = get_run (cl_world c) j" by auto
  have id: "pr_id run = i" using run row(1) get_run_id by simp
  have "cl_workers c' n = Some run" by (simp add: claims(1))
  with step claims(2) have "not_at_work (pr_id run) (pr_celery_task_id run) c"
    unfolding brokered_step_def one_delivery_def by blast
  then have idle: "not_at_work i t c" using run id by simp
  have other: "pr_id r \<noteq> i" if "cl_workers c m = Some r" for m r
  proof
    assume i: "pr_id r = i"
    have "owns_its_run (cl_world c) r" using ex that unfolding exclusive_def by blast
    with i row have "pr_celery_task_id r = t" by (auto simp: owns_its_run_def claimable_def)
    with idle that i show False by (auto simp: not_at_work_def)
  qed
  have own: "owns_its_run w run" using run w(1) id by (simp add: owns_its_run_def)
  have "owns_its_run w r" if "cl_workers c m = Some r" for m r
    using ex that other [OF that] w(2) owns_elsewhere unfolding exclusive_def by metis
  note rest = this
  show ?thesis unfolding claims(1)
  proof (rule exclusiveI)
    fix m r assume "cl_workers (goes_on c n (Some run) w) m = Some r"
    with rest [of m r] own show "owns_its_run (cl_world (goes_on c n (Some run) w)) r" by (cases "m = n") simp_all
  next
    fix k m r r'
    assume kr: "cl_workers (goes_on c n (Some run) w) k = Some r" "cl_workers (goes_on c n (Some run) w) m = Some r'"
      "pr_id r = pr_id r'"
    consider "k = n" "m = n" | "k = n" "m \<noteq> n" | "k \<noteq> n" "m = n" | "k \<noteq> n" "m \<noteq> n" by blast
    then show "k = m"
    proof cases
      case 2
      with kr id other [of m r'] show ?thesis by auto
    next
      case 3
      with kr id other [of k r] show ?thesis by auto
    next
      case 4
      with kr have "cl_workers c k = Some r" "cl_workers c m = Some r'" by simp_all
      with ex kr(3) show ?thesis unfolding exclusive_def by blast
    qed simp
  qed
next
  case (counts n run k page m)
  have "owns_its_run (cl_world c) run" using ex counts(2) unfolding exclusive_def by blast
  then show ?thesis unfolding counts(1)
    by (intro exclusive_goes_on [OF ex counts(2)]) (auto simp: owns_its_run_def)
next
  case (progresses n run w)
  have own: "owns_its_run (cl_world c) run" using ex progresses(2) unfolding exclusive_def by blast
  from progress_row [OF progresses(3)] obtain row row' where r: "get_run (cl_world c) (pr_id run) = Some row"
    "get_run w (pr_id run) = Some row'" "pr_status row' = pr_status row" "pr_celery_task_id row' = pr_celery_task_id row"
    "\<forall>i. i \<noteq> pr_id run \<longrightarrow> get_run w i = get_run (cl_world c) i" by auto
  show ?thesis unfolding progresses(1)
    by (rule exclusive_goes_on [OF ex progresses(2)]) (use r own in \<open>auto simp: owns_its_run_def\<close>)
next
  case (succeeds n run run' w)
  from mark_succeeded_row [OF succeeds(3)] show ?thesis unfolding succeeds(1)
    by (intro exclusive_goes_on [OF ex succeeds(2)]) auto
next
  case (fails n run category message retry run' w)
  from mark_failed_row [OF fails(3)] show ?thesis unfolding fails(1)
    by (intro exclusive_goes_on [OF ex fails(2)]) auto
next
  case (pauses n run category message retry run' w)
  from pending_retry_row [OF pauses(3)] show ?thesis unfolding pauses(1)
    by (intro exclusive_goes_on [OF ex pauses(2)]) auto
next
  case (dies n)
  with ex show ?thesis unfolding dies exclusive_def by simp
next
  case (triggers pl s key cont r w)
  with ex trigger_keeps_rows [OF triggers(2)] show ?thesis
    unfolding exclusive_def owns_its_run_def by simp metis
next
  case (elsewhere w)
  with ex show ?thesis unfolding exclusive_def owns_its_run_def get_run_def by simp
qed

lemma brokered_steps_exclusive: "brokered_steps ids c c' \<Longrightarrow> exclusive c \<Longrightarrow> exclusive c'"
  by (induction rule: rtranclp_induct) (auto dest: brokered_step_exclusive)

lemma at_rest_exclusive: "at_rest c \<Longrightarrow> exclusive c"
  by (simp add: at_rest_def exclusive_def)

text \<open>C6: No run is executed twice at the same time, provided that the broker does not give a task to a
  second worker while one is at it. Under that condition, however the steps of any number of
  workers interleave, with triggers, retries and deaths of workers among them, no two workers are
  on the same run, for whatever tasks, and the row of the run a worker is on is running and names
  the worker's task. (Without the condition it fails: see \<open>second_delivery_overwrites\<close>.)\<close>

theorem runs_execute_once:
  assumes "at_rest c" and "brokered_steps ids c c'"
    and "cl_workers c' n = Some run" and "cl_workers c' m = Some run'" and "pr_id run = pr_id run'"
  shows "n = m \<and> run_owner (cl_world c') (pr_id run) = Some (pr_celery_task_id run)"
proof -
  have ex: "exclusive c'" using brokered_steps_exclusive [OF assms(2) at_rest_exclusive [OF assms(1)]] .
  then have "owns_its_run (cl_world c') run" using assms(3) unfolding exclusive_def by blast
  with ex assms(3-5) show ?thesis unfolding exclusive_def by (auto simp: owns_its_run_def run_owner_def)
qed

subsection \<open>The status only moves forward\<close>

definition forward :: "world \<Rightarrow> world \<Rightarrow> bool" where
  "forward w w' =
     (\<forall>i row. get_run w i = Some row \<longrightarrow>
        (\<exists>row'. get_run w' i = Some row' \<and> pr_status row \<le> pr_status row' \<and> (terminal (pr_status row) \<longrightarrow> row' = row)))"

lemma forward_trans: "forward w w1 \<Longrightarrow> forward w1 w2 \<Longrightarrow> forward w w2"
  unfolding forward_def by (metis order_trans)

lemma forward_refl [simp]: "forward w w"
  by (simp add: forward_def)

lemma forward_one_row:
  assumes "get_run w i = Some row" "get_run w' i = Some row'" "pr_status row \<le> pr_status row'"
    "\<not> terminal (pr_status row)" "\<forall>j. j \<noteq> i \<longrightarrow> get_run w' j = get_run w j"
  shows "forward w w'"
  unfolding forward_def
proof (intro allI impI)
  fix j r assume "get_run w j = Some r"
  with assms show "\<exists>row'. get_run w' j = Some row' \<and> pr_status r \<le> pr_status row' \<and> (terminal (pr_status r) \<longrightarrow> row' = r)"
    by (cases "j = i") auto
qed

lemma worker_step_forward:
  assumes "worker_step ids c c'" and ex: "exclusive c"
  shows "forward (cl_world c) (cl_world c')"
proof -
  have running: "\<exists>row. get_run (cl_world c) (pr_id run) = Some row \<and> pr_status row = RUNNING"
    if "cl_workers c n = Some run" for n run
    using ex that unfolding exclusive_def owns_its_run_def by blast
  from assms(1) show ?thesis
  proof (cases rule: worker_stepE)
    case (claims n i t run w)
    from claim_run_Inr [OF claims(3)] obtain row where row: "get_run (cl_world c) i = Some row" "claimable t row"
      "run = claimed t (w_clock (cl_world c)) row" "get_run w i = Some (run\<lparr>pr_updated_at := w_clock (cl_world c)\<rparr>)"
      "\<forall>j. j \<noteq> i \<longrightarrow> get_run w j = get_run (cl_world c) j" by auto
    have "forward (cl_world c) w"
      by (rule forward_one_row [OF row(1,4) _ claimable_not_terminal [OF row(2)] row(5)])
        (use row(2,3) in \<open>auto simp: claimable_def\<close>)
    then show ?thesis by (simp add: claims(1) goes_on_def)
  next
    case (counts n run k page m)
    then show ?thesis by (simp add: goes_on_def)
  next
    case (progresses n run w)
    from progress_row [OF progresses(3)] running [OF progresses(2)]
    have "forward (cl_world c) w" by (auto intro!: forward_one_row [of "cl_world c" "pr_id run"])
    then show ?thesis by (simp add: progresses(1) goes_on_def)
  next
    case (succeeds n run run' w)
    from mark_succeeded_row [OF succeeds(3)] running [OF succeeds(2)]
    have "forward (cl_world c) w" by (auto intro!: forward_one_row [of "cl_world c" "pr_id run"])
    then show ?thesis by (simp add: succeeds(1) goes_on_def)
  next
    case (fails n run category message retry run' w)
    from mark_failed_row [OF fails(3)] running [OF fails(2)]
    have "forward (cl_world c) w" by (auto intro!: forward_one_row [of "cl_world c" "pr_id run"])
    then show ?thesis by (simp add: fails(1) goes_on_def)
  next
    case (pauses n run category message retry run' w)
    from pending_retry_row [OF pauses(3)] running [OF pauses(2)]
    have "forward (cl_world c) w" by (auto intro!: forward_one_row [of "cl_world c" "pr_id run"])
    then show ?thesis by (simp add: pauses(1) goes_on_def)
  next
    case (dies n)
    then show ?thesis by (simp add: goes_on_def)
  next
    case (triggers pl s key cont r w)
    from trigger_keeps_rows [OF triggers(2)] show ?thesis by (auto simp: triggers(1) forward_def)
  next
    case (elsewhere w)
    then show ?thesis by (simp add: forward_def get_run_def)
  qed
qed

lemma brokered_steps_forward:
  "brokered_steps ids c c' \<Longrightarrow> exclusive c \<Longrightarrow> forward (cl_world c) (cl_world c')"
proof (induction rule: rtranclp_induct)
  case (step c1 c2)
  from step(2) have "worker_step ids c1 c2" by (simp add: brokered_step_def)
  from worker_step_forward [OF this brokered_steps_exclusive [OF step(1) step(4)]] step(3,4) forward_trans
  show ?case by blast
qed simp

text \<open>C7: A run's history is linear, provided that the broker does not give a task to a second worker
  while one is at it. Under that condition, however workers, triggers and deaths interleave, every run stays in the table, its status only moves forward, from
  pending over running to one of the two ends, and once it is there its row never changes again.\<close>

theorem runs_move_forward:
  assumes "at_rest c0" and "brokered_steps ids c0 c" and "brokered_steps ids c c'"
    and "get_run (cl_world c) i = Some row"
  shows "\<exists>row'. get_run (cl_world c') i = Some row' \<and> pr_status row \<le> pr_status row' \<and>
    (terminal (pr_status row) \<longrightarrow> row' = row)"
  using brokered_steps_forward [OF assms(3) brokered_steps_exclusive [OF assms(2) at_rest_exclusive [OF assms(1)]]] assms(4)
  unfolding forward_def by blast

subsection \<open>A run as steps\<close>

lemma goes_on_world: "(goes_on c n copy w)\<lparr>cl_world := w'\<rparr> = goes_on c n copy w'"
  by (cases c) (simp add: goes_on_def)

lemma one_delivery_on: "one_delivery (goes_on c n (Some run) w) (goes_on c n copy w')"
  by (auto simp: one_delivery_def)

lemma elsewhere_on: "w_runs w' = w_runs w \<Longrightarrow> brokered_step ids (goes_on c n copy w) (goes_on c n copy w')"
  using worker_step.elsewhere [of w' "goes_on c n copy w" ids]
  by (auto simp: goes_on_world brokered_step_def one_delivery_def)

lemma goes_on_again: "goes_on (goes_on c n copy w) n copy' w' = goes_on c n copy' w'"
  by (simp add: goes_on_def)

lemma step_on:
  "worker_step ids (goes_on c n (Some run) w) (goes_on (goes_on c n (Some run) w) n copy' w') \<Longrightarrow>
   brokered_step ids (goes_on c n (Some run) w) (goes_on c n copy' w')"
  by (simp add: goes_on_again brokered_step_def one_delivery_on)

lemma store_raw_payload_runs:
  "store_raw_payload pf run k page sy = (r, sy') \<Longrightarrow> w_runs (sy_world sy') = w_runs (sy_world sy)"
  by (auto simp: store_raw_payload_def get_or_create_raw_def uuid4_def Let_def
      split: sum.splits prod.splits option.splits if_splits)

lemma save_raw_runs: "save_raw copy r w = Inr w' \<Longrightarrow> w_runs w' = w_runs w"
  by (auto simp: save_raw_def split: option.splits)

lemma save_task_runs: "save_task copy te w = Inr w' \<Longrightarrow> w_runs w' = w_runs w"
  by (auto simp: save_task_def split: option.splits)

lemma process_page_steps:
  assumes "process_page pf lc k page run sy = (r, run', sy')"
  shows "brokered_steps ids (goes_on c n (Some run) (sy_world sy)) (goes_on c n (Some run') (sy_world sy'))"
proof -
  obtain raw sy1 where st: "store_raw_payload pf run k page sy = (raw, sy1)" by fastforce
  have s1: "brokered_steps ids (goes_on c n (Some run) (sy_world sy)) (goes_on c n (Some run) (sy_world sy1))"
    using elsewhere_on [OF store_raw_payload_runs [OF st]] by blast
  show ?thesis
  proof (cases "run' = run \<and> sy_world sy' = sy_world sy1")
    case True
    with s1 show ?thesis by simp
  next
    case False
    then obtain rp rows cnt d' w2 where ok: "raw = Inr rp"
        "map_records (lc_strict lc) (lc_mapping lc) (fr_records page) = Inr rows"
        "load (pf_sql pf) (lc_dest_config lc) (lc_dest_credential lc) ''append'' rows (sy_dest sy1) = (Inr cnt, d')"
        "save_raw copy_loaded (rp\<lparr>rp_loaded := True\<rparr>) (sy_world sy1) = Inr w2"
      using assms st
      by (cases raw; cases "map_records (lc_strict lc) (lc_mapping lc) (fr_records page)")
        (auto simp: process_page_def Let_def split: sum.splits prod.splits)
    let ?run = "advance k page cnt run"
    have res: "run' = ?run \<and> sy_world sy' = (case save_run copy_progress ?run w2 of Inl e \<Rightarrow> w2 | Inr w3 \<Rightarrow> w3)"
      using assms st ok by (auto simp: process_page_def Let_def split: sum.splits)
    have s2: "brokered_step ids (goes_on c n (Some run) (sy_world sy1)) (goes_on c n (Some run) w2)"
      by (rule elsewhere_on [OF save_raw_runs [OF ok(4)]])
    have s3: "brokered_step ids (goes_on c n (Some run) w2) (goes_on c n (Some ?run) w2)"
      by (rule step_on) (use worker_step.counts [of "goes_on c n (Some run) w2" n run ids k page cnt] in simp)
    have s4: "brokered_steps ids (goes_on c n (Some ?run) w2) (goes_on c n (Some run') (sy_world sy'))"
    proof (cases "save_run copy_progress ?run w2")
      case (Inl e)
      with res show ?thesis by simp
    next
      case (Inr w3)
      have "brokered_step ids (goes_on c n (Some ?run) w2) (goes_on c n (Some ?run) w3)"
        by (rule step_on) (use worker_step.progresses [of "goes_on c n (Some ?run) w2" n ?run w3 ids] Inr in simp)
      with res Inr show ?thesis by auto
    qed
    from s1 s2 s3 s4 show ?thesis by (meson converse_rtranclp_into_rtranclp rtranclp_trans)
  qed
qed

lemma extract_loop_steps:
  "extract_loop pf lc g k run sy = (r, run', sy') \<Longrightarrow>
   brokered_steps ids (goes_on c n (Some run) (sy_world sy)) (goes_on c n (Some run') (sy_world sy'))"
proof (induction pf lc g k run sy arbitrary: r run' sy' rule: extract_loop.induct)
  case (1 pf lc g k run sy)
  obtain y g' net' where f: "fetch_next (pf_policy pf) (pf_http pf) (lc_config lc) (lc_source_credential lc) g (sy_net sy) =
      (y, g', net')" by (metis surj_pair)
  show ?case
  proof (cases y)
    case (Yielded page)
    obtain q run1 sy1 where p: "process_page pf lc (k + 1) page run (sy\<lparr>sy_net := net'\<rparr>) = (q, run1, sy1)"
      by (metis surj_pair)
    have s1: "brokered_steps ids (goes_on c n (Some run) (sy_world sy)) (goes_on c n (Some run1) (sy_world sy1))"
      using process_page_steps [OF p, of ids c n] by simp
    show ?thesis
    proof (cases q)
      case (Inl e)
      with 1(2) f Yielded p s1 show ?thesis by (simp add: extract_loop.simps [of pf lc g k run sy])
    next
      case (Inr u)
      with 1(2) f Yielded p have "extract_loop pf lc g' (k + 1) run1 sy1 = (r, run', sy')"
        by (simp add: extract_loop.simps [of pf lc g k run sy])
      from 1(1) [OF f [symmetric] Yielded refl p [symmetric] Inr refl this] s1 show ?thesis by (rule rtranclp_trans [rotated])
    qed
  qed (use 1(2) f in \<open>auto simp: extract_loop.simps [of pf lc g k run sy]\<close>)
qed

lemma execute_steps:
  assumes "execute pf run sy = (y, run', sy')"
  shows "brokered_steps ids (goes_on c n (Some run) (sy_world sy)) (goes_on c n (Some run') (sy_world sy'))"
proof (cases "load_context_of pf run (sy_world sy)")
  case (Inl e)
  with assms show ?thesis by (auto simp: execute_def)
next
  case (Inr lc)
  with assms extract_loop_steps [of pf lc _ _ run sy y run' sy' ids c n]
  show ?thesis by (simp add: execute_def extract_and_load_def)
qed

text \<open>How a worker leaves its run, whatever the outcome of the write.\<close>

lemma leaves:
  assumes "(\<exists>u. x = Inr u \<and> brokered_step ids (goes_on c n (Some run) w) (goes_on c n None w')) \<or> w' = w"
  shows "brokered_steps ids (goes_on c n (Some run) w) (goes_on c n None w')"
proof -
  have "brokered_step ids (goes_on c n (Some run) w) (goes_on c n None w)"
    by (rule step_on) (use worker_step.dies [of ids "goes_on c n (Some run) w" n] in simp)
  with assms show ?thesis by auto
qed

lemma mark_succeeded_step:
  assumes m: "mark_run_succeeded run w = (x, run', w')"
  shows "brokered_steps ids (goes_on c n (Some run) w) (goes_on c n None w')"
proof (cases x)
  case (Inl e)
  with m have "w' = w" by (auto simp: mark_run_succeeded_def saved_def split: if_splits sum.splits)
  then show ?thesis by (intro leaves [where x = x]) simp
next
  case (Inr u)
  have "brokered_step ids (goes_on c n (Some run) w) (goes_on c n None w')"
    by (rule step_on, rule worker_step.succeeds) (use m Inr in simp_all)
  then show ?thesis by blast
qed

lemma mark_failed_step:
  assumes m: "mark_run_failed cat msg retry run w = (x, run', w')"
  shows "brokered_steps ids (goes_on c n (Some run) w) (goes_on c n None w')"
proof (cases x)
  case (Inl e)
  with m have "w' = w" by (auto simp: mark_run_failed_def saved_def split: if_splits sum.splits)
  then show ?thesis by (intro leaves [where x = x]) simp
next
  case (Inr u)
  have "brokered_step ids (goes_on c n (Some run) w) (goes_on c n None w')"
    by (rule step_on, rule worker_step.fails) (use m Inr in simp_all)
  then show ?thesis by blast
qed

lemma pending_retry_step:
  assumes m: "record_pending_retry cat msg retry run w = (x, run', w')"
  shows "brokered_steps ids (goes_on c n (Some run) w) (goes_on c n None w')"
proof (cases x)
  case (Inl e)
  with m have "w' = w" by (auto simp: record_pending_retry_def saved_def split: sum.splits)
  then show ?thesis by (intro leaves [where x = x]) simp
next
  case (Inr u)
  have "brokered_step ids (goes_on c n (Some run) w) (goes_on c n None w')"
    by (rule step_on, rule worker_step.pauses) (use m Inr in simp_all)
  then show ?thesis by blast
qed

lemma record_success_steps:
  assumes "record_success run te sy = (r, sy')"
  shows "brokered_steps ids (goes_on c n (Some run) (sy_world sy)) (goes_on c n None (sy_world sy'))"
proof -
  obtain x run1 w where m: "mark_run_succeeded run (sy_world sy) = (x, run1, w)" by (metis surj_pair)
  have "w_runs (sy_world sy') = w_runs w"
    using assms m save_task_runs by (auto simp: record_success_def split: sum.splits)
  from mark_succeeded_step [OF m] elsewhere_on [OF this] show ?thesis
    by (rule rtranclp.rtrancl_into_rtrancl)
qed

lemma record_failure_steps:
  assumes "record_failure run te err final sy = (r, sy')"
  shows "brokered_steps ids (goes_on c n (Some run) (sy_world sy)) (goes_on c n None (sy_world sy'))"
proof -
  let ?finalize = "final \<or> \<not> err_retryable err"
  obtain x run1 w where m: "(if ?finalize
      then mark_run_failed (err_category err) (sanitize_error_message (err_message err)) (err_retryable err) run (sy_world sy)
      else record_pending_retry (err_category err) (sanitize_error_message (err_message err)) (err_retryable err) run
        (sy_world sy)) = (x, run1, w)" by (metis surj_pair)
  have "w_runs (sy_world sy') = w_runs w"
    using assms save_task_runs unfolding record_failure_def Let_def m
    by (auto split: sum.splits if_splits)
  moreover have "brokered_steps ids (goes_on c n (Some run) (sy_world sy)) (goes_on c n None w)"
  proof (cases ?finalize)
    case True
    with m show ?thesis by (intro mark_failed_step) (simp only: if_True)
  next
    case False
    with m show ?thesis by (intro pending_retry_step) (simp only: if_False)
  qed
  ultimately show ?thesis using elsewhere_on by (blast intro: rtranclp.rtrancl_into_rtrancl)
qed

text \<open>C5: The steps are those of the program. Whatever one invocation of \<^verbatim>\<open>run_pipeline\<close> does to the
  tenant's tables, on any outcome, is done by a sequence of steps of the worker that executes
  it, from its claim to its leaving; so what holds of all interleavings of steps holds when
  invocations interleave.\<close>

theorem run_pipeline_is_steps:
  assumes run: "run_pipeline pf i t final sy = (r, sy')"
    and "cl_world c = sy_world sy" and "cl_workers c n = None" and "not_at_work i t c"
  shows "\<exists>c'. brokered_steps ids c c' \<and> cl_world c' = sy_world sy' \<and> cl_workers c' = cl_workers c"
proof -
  obtain x w where c1: "claim_run i t (cl_world c) = (x, w)" by fastforce
  show ?thesis
  proof (cases x)
    case (Inl e)
    with run c1 claim_run_Inl [of i t "cl_world c" e w] assms(2) have "cl_world c = sy_world sy'"
      by (auto simp: run_pipeline_def)
    then show ?thesis by blast
  next
    case (Inr run0)
    have id0: "pr_id run0 = i" "pr_celery_task_id run0 = t"
      using claim_run_Inr [of i t "cl_world c" run0 w] c1 Inr get_run_id by auto
    have "worker_step ids c (goes_on c n (Some run0) w)"
      by (rule worker_step.claims [OF assms(3)]) (use c1 Inr in simp)
    moreover have "one_delivery c (goes_on c n (Some run0) w)"
      using assms(4) id0 by (auto simp: one_delivery_def)
    ultimately have s1: "brokered_step ids c (goes_on c n (Some run0) w)" by (simp add: brokered_step_def)
    obtain te w1 where te: "create_task_execution (pf_ids pf) run0 w = (te, w1)" by fastforce
    have s2: "brokered_step ids (goes_on c n (Some run0) w) (goes_on c n (Some run0) w1)"
      by (rule elsewhere_on) (use te in \<open>auto simp: create_task_execution_def uuid4_def Let_def\<close>)
    obtain y run1 sy1 where e: "execute pf run0 (sy\<lparr>sy_world := w1\<rparr>) = (y, run1, sy1)" by (metis surj_pair)
    have s3: "brokered_steps ids (goes_on c n (Some run0) w1) (goes_on c n (Some run1) (sy_world sy1))"
      using execute_steps [OF e, of ids c n] by simp
    have s4: "brokered_steps ids (goes_on c n (Some run1) (sy_world sy1)) (goes_on c n None (sy_world sy'))"
    proof (cases y)
      case (Inl e')
      obtain z sy2 where z: "record_failure run1 te (recorded_error e') final sy1 = (z, sy2)" by fastforce
      have "sy' = sy2" using run c1 Inr te e Inl z assms(2) \<open>x = Inr run0\<close>
        by (auto simp: run_pipeline_def split: sum.splits)
      with record_failure_steps [OF z] show ?thesis by simp
    next
      case (Inr u)
      with run c1 \<open>x = Inr run0\<close> te e assms(2) have "record_success run1 te sy1 = (r, sy')" by (simp add: run_pipeline_def)
      from record_success_steps [OF this] show ?thesis .
    qed
    have "brokered_steps ids c (goes_on c n None (sy_world sy'))"
      using s1 s2 s3 s4 by (meson converse_rtranclp_into_rtranclp rtranclp_trans)
    moreover have "cl_workers (goes_on c n None (sy_world sy')) = cl_workers c"
      using assms(3) by (simp add: fun_upd_idem)
    ultimately show ?thesis by (metis goes_on_simps(1))
  qed
qed

subsection \<open>Why the broker matters\<close>

text \<open>The condition is needed. The claim lets a task take a run that it is running already, so a task
  that is delivered again while its worker lives is on the run twice; and since each
  worker checks the status of its own copy only, the second one to end overwrites a success.\<close>

theorem second_delivery_overwrites:
  assumes "claim_run i t w = (Inr run1, w1)"
  shows "\<exists>run2 w2 r1 w3 r2 w4. claim_run i t w1 = (Inr run2, w2) \<and>
    mark_run_succeeded run1 w2 = (Inr (), r1, w3) \<and> mark_run_failed cat msg retry run2 w3 = (Inr (), r2, w4) \<and>
    map_option pr_status (get_run w3 i) = Some SUCCEEDED \<and> map_option pr_status (get_run w4 i) = Some FAILED"
proof -
  from claim_run_Inr [OF assms] obtain row where row: "get_run w i = Some row" "run1 = claimed t (w_clock w) row"
    "get_run w1 i = Some (run1\<lparr>pr_updated_at := w_clock w\<rparr>)" "unlocked i w" "w1 = w\<lparr>w_runs := w_runs w1\<rparr>"
    by blast
  have run1: "pr_id run1 = i" "pr_status run1 = RUNNING" "pr_celery_task_id run1 = t"
    using row(2) get_run_id [OF row(1)] by simp_all
  note row1 = row(3)
  have "w_locked w1 = w_locked w" "w_pipelines w1 = w_pipelines w" "w_connections w1 = w_connections w"
    by (subst row(5), simp)+
  then have free: "unlocked i w1"
    using unlocked_frame [of w1 w i] row by (simp add: claimed_def Let_def)
  from claim_run_ok [of i w1 _ t, OF free row1] run1
  obtain w2 row2 where c2: "claim_run i t w1 = (Inr (claimed t (w_clock w1) (run1\<lparr>pr_updated_at := w_clock w\<rparr>)), w2)"
    "get_run w2 i = Some row2" by (auto simp: claimable_def)
  let ?run2 = "claimed t (w_clock w1) (run1\<lparr>pr_updated_at := w_clock w\<rparr>)"
  obtain r1 w3 where s: "mark_run_succeeded run1 w2 = (Inr (), r1, w3)"
    using c2(2) run1 by (simp add: mark_run_succeeded_def saved_def save_run_def)
  from mark_succeeded_row [OF s] obtain row3 where r3: "get_run w3 i = Some row3" "pr_status row3 = SUCCEEDED"
    unfolding run1(1) by blast
  obtain r2 w4 where f: "mark_run_failed cat msg retry ?run2 w3 = (Inr (), r2, w4)"
    using r3(1) run1 by (simp add: mark_run_failed_def saved_def save_run_def)
  from mark_failed_row [OF f] obtain row4 where r4: "get_run w4 i = Some row4" "pr_status row4 = FAILED"
    using run1(1) by auto
  from c2(1) s f r3 r4 show ?thesis by auto
qed

subsection \<open>One dispatch per key\<close>

text \<open>The run under a key has left its pending state. No write of the program takes this back.\<close>

definition key_spent :: "string \<Rightarrow> world \<Rightarrow> bool" where
  "key_spent key w = (\<exists>row. find_key key w = Some row \<and> pr_status row \<noteq> PENDING)"

lemma key_spent_update:
  assumes "key_spent key w" "w_runs w' = update_row pr_id i f (w_runs w)"
    and "\<And>r. pr_idempotency_key (f r) = pr_idempotency_key r"
    and "\<And>r. pr_status r \<noteq> PENDING \<Longrightarrow> pr_status (f r) \<noteq> PENDING"
  shows "key_spent key w'"
proof -
  from assms(1) obtain row where row: "find_key key w = Some row" "pr_status row \<noteq> PENDING"
    by (auto simp: key_spent_def)
  have "find_key key w' = map_option (\<lambda>r. if pr_id r = i then f r else r) (find_key key w)"
    using find_row_update_other [of pr_idempotency_key f, OF assms(3)] assms(2) by (simp add: find_key_def)
  with row assms(4) show ?thesis by (simp add: key_spent_def)
qed

lemma key_spent_saved:
  assumes "key_spent key w" "save_run copy run w = Inr w'"
    and "\<And>row. pr_idempotency_key (copy run row) = pr_idempotency_key row"
    and "\<And>row. pr_status row \<noteq> PENDING \<Longrightarrow> pr_status (copy run row) \<noteq> PENDING"
  shows "key_spent key w'"
proof (rule key_spent_update [OF assms(1)])
  show "w_runs w' = update_row pr_id (pr_id run) (\<lambda>row. (copy run row)\<lparr>pr_updated_at := w_clock w\<rparr>) (w_runs w)"
    using assms(2) by (auto simp: save_run_def split: option.splits)
qed (use assms(3,4) in simp_all)

lemma key_spent_same: "key_spent key w \<Longrightarrow> w_runs w' = w_runs w \<Longrightarrow> key_spent key w'"
  by (simp add: key_spent_def find_key_def)

lemma worker_step_key_spent:
  assumes "worker_step ids c c'" and spent: "key_spent key (cl_world c)"
  shows "key_spent key (cl_world c')"
  using assms(1)
proof (cases rule: worker_stepE)
  case (claims n i t run w)
  from claim_run_rows [OF claims(3)] obtain f where "w = (cl_world c)\<lparr>w_runs := update_row pr_id i f (w_runs (cl_world c))\<rparr>"
    "\<And>r. pr_idempotency_key (f r) = pr_idempotency_key r" "\<And>r. pr_status (f r) = RUNNING" by blast
  from key_spent_update [OF spent, of w i f] this show ?thesis by (simp add: claims(1))
next
  case (counts n run k page m)
  with spent show ?thesis by simp
next
  case (progresses n run w)
  from key_spent_saved [OF spent progresses(3)] show ?thesis by (simp add: progresses(1) copy_progress_def)
next
  case (succeeds n run run' w)
  let ?run = "run\<lparr>pr_status := SUCCEEDED, pr_finished_at := Some (w_clock (cl_world c)), pr_error_category := None,
                 pr_error_message := None, pr_error_is_retryable := None\<rparr>"
  have "save_run copy_finish ?run (cl_world c) = Inr w"
    using succeeds(3) saved_Inr [of copy_finish ?run "cl_world c"] by (auto simp: mark_run_succeeded_def split: if_splits)
  from key_spent_saved [OF spent this] show ?thesis by (simp add: succeeds(1) copy_finish_def)
next
  case (fails n run category message retry run' w)
  let ?run = "run\<lparr>pr_status := FAILED, pr_finished_at := Some (w_clock (cl_world c)), pr_error_category := Some category,
                 pr_error_message := Some message, pr_error_is_retryable := Some retry\<rparr>"
  have "save_run copy_finish ?run (cl_world c) = Inr w"
    using fails(3) saved_Inr [of copy_finish ?run "cl_world c"] by (auto simp: mark_run_failed_def split: if_splits)
  from key_spent_saved [OF spent this] show ?thesis by (simp add: fails(1) copy_finish_def)
next
  case (pauses n run category message retry run' w)
  let ?run = "run\<lparr>pr_error_category := Some category, pr_error_message := Some message, pr_error_is_retryable := Some retry\<rparr>"
  have "save_run copy_error ?run (cl_world c) = Inr w"
    using pauses(3) saved_Inr [of copy_error ?run "cl_world c"] by (simp add: record_pending_retry_def)
  from key_spent_saved [OF spent this] show ?thesis by (simp add: pauses(1) copy_error_def)
next
  case (dies n)
  with spent show ?thesis by simp
next
  case (triggers pl s key' cont r w)
  have "w_runs w = w_runs (cl_world c) \<or> (\<exists>new. w_runs w = w_runs (cl_world c) @ [new])"
    using trigger_spec [where ids = ids and pl = pl and s = s and key = key' and cont = cont and w = "cl_world c"]
      triggers(2) by (cases r) (auto split: option.splits)
  with spent show ?thesis
    by (auto simp: triggers(1) key_spent_def find_key_def find_row_append)
next
  case (elsewhere w)
  with spent show ?thesis using key_spent_same by simp
qed

lemma worker_steps_key_spent:
  "worker_steps ids c c' \<Longrightarrow> key_spent key (cl_world c) \<Longrightarrow> key_spent key (cl_world c')"
  by (induction rule: rtranclp_induct) (auto dest: worker_step_key_spent)

text \<open>C36: A key that is spent stays spent. Once the run under a key is running, succeeded or failed, then
  after whatever steps of workers and of other triggers, redelivered tasks and dying workers
  included, a trigger with that key, by whatever caller and for whatever pipeline, changes
  nothing: it creates no row and gives nothing to the broker, and answers with the run of the key,
  not dispatched, or refuses with a configuration error.\<close>

theorem key_dispatches_once:
  assumes "key \<noteq> []" and "find_key key (cl_world c) = Some row" and "pr_status row \<noteq> PENDING"
    and "worker_steps ids c c'"
  shows "\<exists>r row'. find_key key (cl_world c') = Some row' \<and> pr_status row' \<noteq> PENDING \<and>
    trigger_manual_run ids pl s (Some key) cont (cl_world c') = (r, cl_world c') \<and>
    (case r of Inl e \<Rightarrow> raised_class e = Some ConfigurationError | Inr x \<Rightarrow> x = (row', False))"
proof -
  obtain a as where key: "key = a # as" using assms(1) by (cases key) auto
  have "key_spent key (cl_world c')"
    using worker_steps_key_spent [OF assms(4)] assms(2,3) by (auto simp: key_spent_def)
  then obtain row' where "find_key (a # as) (cl_world c') = Some row'" "pr_status row' \<noteq> PENDING"
    by (auto simp: key_spent_def key)
  with trigger_used_key [OF this, of ids pl s cont] show ?thesis unfolding key by blast
qed

subsection \<open>Workers at work\<close>

definition start_cluster :: cluster where
  "start_cluster = \<lparr>cl_world = example_world, cl_workers = (\<lambda>n. None)\<rparr>"

lemma start_at_rest: "at_rest start_cluster"
  by (simp add: at_rest_def start_cluster_def)

lemma first_claim:
  obtains run w where "claim_run ''r1'' (Some ''t1'') example_world = (Inr run, w)" "pr_id run = ''r1''"
    "pr_celery_task_id run = Some ''t1''" "brokered_step str_of_nat start_cluster (goes_on start_cluster 0 (Some run) w)"
proof -
  have ok: "claimable (Some ''t1'') example_run"
    by (simp add: claimable_def example_run_def)
  from claim_run_ok [OF example_unlocked(1) example_rows(1) ok] obtain w
    where c: "claim_run ''r1'' (Some ''t1'') example_world =
      (Inr (claimed (Some ''t1'') (w_clock example_world) example_run), w)" by blast
  show ?thesis
  proof (rule that [OF c])
    let ?run = "claimed (Some ''t1'') (w_clock example_world) example_run"
    have "worker_step str_of_nat start_cluster (goes_on start_cluster 0 (Some ?run) w)"
      by (rule worker_step.claims [where i = "''r1''" and t = "Some ''t1''"])
        (use c in \<open>simp_all add: start_cluster_def\<close>)
    moreover have "one_delivery start_cluster (goes_on start_cluster 0 (Some ?run) w)"
      by (simp add: one_delivery_def not_at_work_def start_cluster_def)
    ultimately show "brokered_step str_of_nat start_cluster (goes_on start_cluster 0 (Some ?run) w)"
      by (simp add: brokered_step_def)
  qed (simp_all add: example_run_def)
qed

theorem runs_execute_once_witness:
  "\<exists>c'. brokered_steps str_of_nat start_cluster c' \<and> run_owner (cl_world c') ''r1'' = Some (Some ''t1'')"
proof (rule first_claim)
  fix run w
  assume run: "pr_id run = ''r1''" "pr_celery_task_id run = Some ''t1''"
    and step: "brokered_step str_of_nat start_cluster (goes_on start_cluster 0 (Some run) w)"
  let ?c = "goes_on start_cluster 0 (Some run) w"
  have busy: "cl_workers ?c 0 = Some run" by simp
  have steps: "brokered_steps str_of_nat start_cluster ?c" using step by blast
  from runs_execute_once [OF start_at_rest steps busy busy refl] run steps show ?thesis by auto
qed

theorem runs_move_forward_witness:
  "\<exists>c'. brokered_steps str_of_nat start_cluster c' \<and>
     get_run (cl_world c') ''r2'' = Some (example_run\<lparr>pr_id := ''r2'', pr_status := SUCCEEDED\<rparr>)"
proof (rule first_claim)
  fix run w
  assume step: "brokered_step str_of_nat start_cluster (goes_on start_cluster 0 (Some run) w)"
  then have steps: "brokered_steps str_of_nat start_cluster (goes_on start_cluster 0 (Some run) w)" by blast
  have row: "get_run (cl_world start_cluster) ''r2'' = Some (example_run\<lparr>pr_id := ''r2'', pr_status := SUCCEEDED\<rparr>)"
    using example_rows(2) by (simp add: start_cluster_def)
  from runs_move_forward [OF start_at_rest rtranclp.rtrancl_refl steps row] steps show ?thesis by auto
qed

theorem run_pipeline_is_steps_witness:
  "\<exists>c'. brokered_steps str_of_nat (start_cluster\<lparr>cl_world := pipeline_world\<rparr>) c' \<and> at_rest c' \<and>
     cl_world c' = sy_world (snd (run_pipeline example_platform ''r1'' (Some ''t1'') False example_system))"
proof -
  let ?c = "start_cluster\<lparr>cl_world := pipeline_world\<rparr>"
  obtain r sy' where run: "run_pipeline example_platform ''r1'' (Some ''t1'') False example_system = (r, sy')" by fastforce
  have rest: "cl_world ?c = sy_world example_system" "cl_workers ?c 0 = None"
      "not_at_work ''r1'' (Some ''t1'') ?c"
    by (simp_all add: start_cluster_def example_system_def not_at_work_def)
  from run_pipeline_is_steps [OF run rest, of str_of_nat] run start_at_rest show ?thesis
    by (auto simp: at_rest_def)
qed

theorem second_delivery_overwrites_witness:
  "\<exists>w3 w4. map_option pr_status (get_run w3 ''r1'') = Some SUCCEEDED \<and>
     map_option pr_status (get_run w4 ''r1'') = Some FAILED"
proof (rule first_claim)
  fix run w
  assume "claim_run ''r1'' (Some ''t1'') example_world = (Inr run, w)"
  from second_delivery_overwrites [OF this] show ?thesis by blast
qed

theorem key_dispatches_once_witness:
  "\<exists>c'. worker_steps str_of_nat start_cluster c' \<and> cl_workers c' 0 \<noteq> None \<and>
     snd (trigger_manual_run str_of_nat manual_pipeline ''acme'' (Some ''k1'') None (cl_world c')) = cl_world c'"
proof (rule first_claim)
  fix run w
  assume c: "claim_run ''r1'' (Some ''t1'') example_world = (Inr run, w)"
    and step: "brokered_step str_of_nat start_cluster (goes_on start_cluster 0 (Some run) w)"
  let ?c = "goes_on start_cluster 0 (Some run) w"
  have first: "worker_steps str_of_nat start_cluster ?c" using step by (auto simp: brokered_step_def)
  from claim_run_rows [OF c] obtain f where f: "w = example_world\<lparr>w_runs := update_row pr_id ''r1'' f (w_runs example_world)\<rparr>"
    "\<And>r. pr_idempotency_key (f r) = pr_idempotency_key r" "\<And>r. pr_status (f r) = RUNNING" by blast
  have "find_key ''k1'' (cl_world ?c) = Some (f example_run)" "pr_status (f example_run) \<noteq> PENDING"
    using f by (simp_all add: find_key_def find_row_def update_row_def example_world_def example_run_def)
  from key_dispatches_once [OF _ this rtranclp.rtrancl_refl, of str_of_nat manual_pipeline "''acme''" None] first
  show ?thesis by (intro exI [of _ ?c]) auto
qed

end
