(* ===== verification/Migration.thy ===== *)
theory Migration
  imports Orchestration Dispatch
begin

text \<open>
  \<^verbatim>\<open>apps/rawstore/migration.py\<close>: moving raw payloads from the two legacy kinds of object key to
  the current one, and the two management commands around the store. The callbacks act on a
  state of their own, that of the caller's job.
\<close>

subsection \<open>Results\<close>

datatype migration_category =
    ALREADY_MIGRATED | LEGACY_UNPREFIXED | SCHEMA_PREFIXED | MISSING | CHECKSUM_CONFLICT

fun category_text :: "migration_category \<Rightarrow> string" where
  "category_text ALREADY_MIGRATED = ''already_migrated''"
| "category_text LEGACY_UNPREFIXED = ''legacy_unprefixed''"
| "category_text SCHEMA_PREFIXED = ''schema_prefixed''"
| "category_text MISSING = ''missing''"
| "category_text CHECKSUM_CONFLICT = ''checksum_conflict''"

record problem_entry =
  pe_record_id :: uuid
  pe_run_id :: uuid
  pe_sequence :: nat
  pe_checksum_prefix :: string
  pe_category :: string
  pe_reason :: string

record migration_result =
  mr_inspected :: nat
  mr_already :: nat
  mr_legacy :: nat
  mr_schema_prefixed :: nat
  mr_missing :: nat
  mr_conflicts :: nat
  mr_ready :: nat
  mr_migrated :: nat
  mr_skipped :: nat
  mr_problems :: "problem_entry list"

definition new_result :: migration_result where
  "new_result = \<lparr>mr_inspected = 0, mr_already = 0, mr_legacy = 0, mr_schema_prefixed = 0, mr_missing = 0,
     mr_conflicts = 0, mr_ready = 0, mr_migrated = 0, mr_skipped = 0, mr_problems = []\<rparr>"

definition MIGRATION_BATCH_SIZE :: nat where "MIGRATION_BATCH_SIZE = 100"
definition MAX_SAMPLE_PROBLEM_RECORDS :: nat where "MAX_SAMPLE_PROBLEM_RECORDS = 200"

subsection \<open>Classification\<close>

definition expected_logical_key :: "uuid \<Rightarrow> raw_payload_record \<Rightarrow> string" where
  "expected_logical_key pipeline r = storage_key pipeline (rp_run r) (rp_sequence r) (rp_checksum r)"

definition safe_problem_entry :: "raw_payload_record \<Rightarrow> migration_category \<Rightarrow> string \<Rightarrow> problem_entry" where
  "safe_problem_entry r category reason =
     \<lparr>pe_record_id = rp_id r, pe_run_id = rp_run r, pe_sequence = rp_sequence r,
      pe_checksum_prefix = take 12 (rp_checksum r), pe_category = category_text category, pe_reason = reason\<rparr>"

definition classify ::
  "store_env \<Rightarrow> uuid \<Rightarrow> uuid \<Rightarrow> raw_payload_record \<Rightarrow> migration_category \<times> string option" where
  "classify env tenant pipeline r =
     (case parse_uri env (rp_storage_uri r) of
        Inl e \<Rightarrow> (CHECKSUM_CONFLICT, None)
      | Inr (bucket, key) \<Rightarrow>
          if bucket \<noteq> se_bucket env then (CHECKSUM_CONFLICT, None)
          else (let expected = expected_logical_key pipeline r in
                if key = tenant_key tenant expected then (ALREADY_MIGRATED, Some key)
                else if key = se_schema env @ ''/'' @ expected then (SCHEMA_PREFIXED, Some key)
                else if key = expected then (LEGACY_UNPREFIXED, Some key)
                else (CHECKSUM_CONFLICT, None)))"

subsection \<open>One record\<close>

record ('s, 'j) migration_state =
  ms_result :: migration_result
  ms_world :: world
  ms_cache :: uuid_cache
  ms_objects :: 's
  ms_job :: 'j

definition verify_and_maybe_migrate ::
  "store_env \<Rightarrow> 's s3_lib \<Rightarrow> bool \<Rightarrow> string \<Rightarrow> uuid \<Rightarrow> raw_payload_record \<Rightarrow> uuid_cache \<times> 's \<Rightarrow>
   (exn + bool \<times> string option) \<times> uuid_cache \<times> 's" where
  "verify_and_maybe_migrate env lib dry_run key pipeline r st =
     (case get_raw_by_key env lib key (snd st) of
        Inl e \<Rightarrow> (Inl e, st)
      | Inr (data, content_type) \<Rightarrow>
          if sha256 lib data \<noteq> rp_checksum r then (Inr (False, None), st)
          else if dry_run then (Inr (True, None), st)
          else (case store_put env lib (expected_logical_key pipeline r) data
                       (case content_type of Some (c # cs) \<Rightarrow> c # cs | _ \<Rightarrow> ''application/json'') st of
                  (Inl e, st') \<Rightarrow> (Inl e, st')
                | (Inr uri, st') \<Rightarrow> (Inr (True, Some uri), st')))"

definition add_problem :: "raw_payload_record \<Rightarrow> migration_category \<Rightarrow> string \<Rightarrow> migration_result \<Rightarrow> migration_result" where
  "add_problem r category reason result =
     (if length (mr_problems result) < MAX_SAMPLE_PROBLEM_RECORDS
      then result\<lparr>mr_problems := mr_problems result @ [safe_problem_entry r category reason]\<rparr> else result)"

definition add_conflict :: "raw_payload_record \<Rightarrow> string \<Rightarrow> migration_result \<Rightarrow> migration_result" where
  "add_conflict r reason result =
     add_problem r CHECKSUM_CONFLICT reason (result\<lparr>mr_conflicts := mr_conflicts result + 1\<rparr>)"

definition copy_uri :: "raw_payload_record \<Rightarrow> raw_payload_record \<Rightarrow> raw_payload_record" where
  "copy_uri r row = row\<lparr>rp_storage_uri := rp_storage_uri r\<rparr>"

definition migrate_record ::
  "store_env \<Rightarrow> 's s3_lib \<Rightarrow> bool \<Rightarrow> uuid \<Rightarrow> uuid \<times> raw_payload_record \<Rightarrow> ('s, 'j) migration_state \<Rightarrow>
   (exn + unit) \<times> ('s, 'j) migration_state" where
  "migrate_record env lib dry_run tenant pr st0 =
     (let pipeline = fst pr; r = snd pr;
          result = (ms_result st0)\<lparr>mr_inspected := mr_inspected (ms_result st0) + 1\<rparr>;
          st = st0\<lparr>ms_result := result\<rparr>
      in case classify env tenant pipeline r of
           (ALREADY_MIGRATED, _) \<Rightarrow> (Inr (), st\<lparr>ms_result := result\<lparr>mr_already := mr_already result + 1\<rparr>\<rparr>)
         | (_, None) \<Rightarrow> (Inr (), st\<lparr>ms_result := add_conflict r
               ''storage_uri does not match any recognized key shape for this record'' result\<rparr>)
         | (category, Some key) \<Rightarrow>
             (case key_exists env lib key (ms_objects st) of
                Inl e \<Rightarrow> (Inl e, st)
              | Inr False \<Rightarrow> (Inr (), st\<lparr>ms_result := add_problem r MISSING
                    ''object not found in storage at the legacy key''
                    (result\<lparr>mr_missing := mr_missing result + 1\<rparr>)\<rparr>)
              | Inr True \<Rightarrow>
                  (let counted = (if category = LEGACY_UNPREFIXED
                         then result\<lparr>mr_legacy := mr_legacy result + 1\<rparr>
                         else result\<lparr>mr_schema_prefixed := mr_schema_prefixed result + 1\<rparr>)
                   in case verify_and_maybe_migrate env lib dry_run key pipeline r (ms_cache st, ms_objects st) of
                        (Inl e, cache, s) \<Rightarrow>
                          (Inl e, st\<lparr>ms_result := counted, ms_cache := cache, ms_objects := s\<rparr>)
                      | (Inr (False, _), cache, s) \<Rightarrow>
                          (Inr (), st\<lparr>ms_result := add_conflict r
                              ''downloaded object checksum does not match the recorded checksum'' counted,
                            ms_cache := cache, ms_objects := s\<rparr>)
                      | (Inr (True, new_uri), cache, s) \<Rightarrow>
                          (let ready = counted\<lparr>mr_ready := mr_ready counted + 1\<rparr>;
                               st' = st\<lparr>ms_result := ready, ms_cache := cache, ms_objects := s\<rparr>
                           in case new_uri of
                                None \<Rightarrow> (Inr (), st')
                              | Some uri \<Rightarrow>
                                  if dry_run then (Inr (), st')
                                  else (case save_raw copy_uri (r\<lparr>rp_storage_uri := uri\<rparr>) (ms_world st') of
                                          Inl e \<Rightarrow> (Inl e, st')
                                        | Inr w \<Rightarrow> (Inr (), st'\<lparr>ms_world := w,
                                            ms_result := ready\<lparr>mr_migrated := mr_migrated ready + 1\<rparr>\<rparr>))))))"

subsection \<open>The whole table\<close>

text \<open>What the caller passes: \<^verbatim>\<open>progress_callback\<close> and \<^verbatim>\<open>cancel_check\<close>, which may both raise.\<close>

record 'j callbacks =
  on_progress :: "migration_result \<Rightarrow> 'j \<Rightarrow> (exn + unit) \<times> 'j"
  is_cancelled :: "'j \<Rightarrow> (exn + bool) \<times> 'j"

definition report :: "'j callbacks \<Rightarrow> ('s, 'j) migration_state \<Rightarrow> (exn + unit) \<times> ('s, 'j) migration_state" where
  "report cb st =
     (case on_progress cb (ms_result st) (ms_job st) of (r, j) \<Rightarrow> (r, st\<lparr>ms_job := j\<rparr>))"

fun migrate_records ::
  "store_env \<Rightarrow> 's s3_lib \<Rightarrow> bool \<Rightarrow> nat \<Rightarrow> 'j callbacks \<Rightarrow> uuid \<Rightarrow> (uuid \<times> raw_payload_record) list \<Rightarrow> nat \<Rightarrow>
   ('s, 'j) migration_state \<Rightarrow> (exn + unit) \<times> ('s, 'j) migration_state" where
  "migrate_records env lib dry_run batch_size cb tenant [] since st = (Inr (), st)"
| "migrate_records env lib dry_run batch_size cb tenant (r # rs) since st =
     (case migrate_record env lib dry_run tenant r st of
        (Inl e, st1) \<Rightarrow> (Inl e, st1)
      | (Inr _, st1) \<Rightarrow>
          if since + 1 \<ge> batch_size
          then (case report cb st1 of
                  (Inl e, st2) \<Rightarrow> (Inl e, st2)
                | (Inr _, st2) \<Rightarrow>
                    (case is_cancelled cb (ms_job st2) of
                       (Inl e, j) \<Rightarrow> (Inl e, st2\<lparr>ms_job := j\<rparr>)
                     | (Inr True, j) \<Rightarrow> (Inr (), st2\<lparr>ms_job := j\<rparr>)
                     | (Inr False, j) \<Rightarrow>
                         migrate_records env lib dry_run batch_size cb tenant rs 0 (st2\<lparr>ms_job := j\<rparr>)))
          else migrate_records env lib dry_run batch_size cb tenant rs (since + 1) st1)"

text \<open>The rows with their runs, in the order of their identifiers.\<close>

definition inspected_rows :: "world \<Rightarrow> (uuid \<times> raw_payload_record) list" where
  "inspected_rows w = List.map_filter
     (\<lambda>r. map_option (\<lambda>run. (pr_pipeline_id run, r)) (get_run w (rp_run r))) (sort_key rp_id (w_raw w))"

definition run_raw_payload_migration ::
  "store_env \<Rightarrow> 's s3_lib \<Rightarrow> bool \<Rightarrow> nat \<Rightarrow> 'j callbacks \<Rightarrow> world \<times> uuid_cache \<times> 's \<times> 'j \<Rightarrow>
   (exn + migration_result) \<times> ('s, 'j) migration_state" where
  "run_raw_payload_migration env lib dry_run batch_size cb start =
     (case start of (w, cache, s, j) \<Rightarrow>
      let st0 = \<lparr>ms_result = new_result, ms_world = w, ms_cache = cache, ms_objects = s, ms_job = j\<rparr>
      in case tenant_uuid env cache of
           (Inl e, cache') \<Rightarrow> (Inl e, st0\<lparr>ms_cache := cache'\<rparr>)
         | (Inr tenant, cache') \<Rightarrow>
             (case migrate_records env lib dry_run batch_size cb tenant (inspected_rows w) 0 (st0\<lparr>ms_cache := cache'\<rparr>) of
                (Inl e, st1) \<Rightarrow> (Inl e, st1)
              | (Inr _, st1) \<Rightarrow>
                  (let result = (ms_result st1)\<lparr>mr_skipped := mr_already (ms_result st1) +
                         mr_missing (ms_result st1) + mr_conflicts (ms_result st1)\<rparr>
                   in case report cb (st1\<lparr>ms_result := result\<rparr>) of
                        (Inl e, st2) \<Rightarrow> (Inl e, st2)
                      | (Inr _, st2) \<Rightarrow> (Inr result, st2))))"

subsection \<open>The commands\<close>

definition progress_line :: "migration_result \<Rightarrow> string" where
  "progress_line result = ''  ...'' @ str_of_nat (mr_inspected result) @ '' records inspected so far''"

definition command_callbacks :: "string list callbacks" where
  "command_callbacks = \<lparr>on_progress = (\<lambda>result lines. (Inr (), lines @ [progress_line result])),
     is_cancelled = (\<lambda>lines. (Inr False, lines))\<rparr>"

definition summary_lines :: "bool \<Rightarrow> string \<Rightarrow> migration_result \<Rightarrow> string list" where
  "summary_lines dry_run schema_name result =
     [(if dry_run then ''Dry-run inspection'' else ''Migration'') @ '' complete for schema '' @ py_repr schema_name @ '':'',
      ''  records inspected:     '' @ str_of_nat (mr_inspected result),
      ''  already migrated:      '' @ str_of_nat (mr_already result),
      ''  legacy unprefixed:     '' @ str_of_nat (mr_legacy result),
      ''  schema-prefixed:       '' @ str_of_nat (mr_schema_prefixed result),
      ''  missing objects:       '' @ str_of_nat (mr_missing result),
      ''  checksum conflicts:    '' @ str_of_nat (mr_conflicts result),
      ''  ready for migration:   '' @ str_of_nat (mr_ready result),
      ''  records migrated:      '' @ str_of_nat (mr_migrated result),
      ''  records skipped:       '' @ str_of_nat (mr_skipped result)]"

definition review_warning :: string where
  "review_warning = ''Some records need manual review (missing objects and/or checksum '' @
     ''conflicts) -- see the operator UI's job detail page for a sample of '' @
     ''affected record identifiers, or re-run with the operator UI for a full review before a real migration.''"

text \<open>\<^verbatim>\<open>migrate_raw_payload_storage\<close>, with the tables of the schema it names; the lines it prints are
  the job.\<close>

definition handle_migrate_raw_payload_storage ::
  "store_env \<Rightarrow> 's s3_lib \<Rightarrow> string \<Rightarrow> bool \<Rightarrow> world \<times> uuid_cache \<times> 's \<Rightarrow>
   command_result \<times> ('s, string list) migration_state" where
  "handle_migrate_raw_payload_storage env lib schema_name dry_run start =
     (case start of (w, cache, s) \<Rightarrow>
      (case run_raw_payload_migration (env\<lparr>se_schema := schema_name\<rparr>) lib dry_run MIGRATION_BATCH_SIZE
              command_callbacks (w, cache, s, []) of
         (Inl e, st) \<Rightarrow> (if catches ConfigurationError e then CommandError (exn_text e) else Crashed e, st)
       | (Inr result, st) \<Rightarrow>
           (Printed (join_with [CHR 0x0A] (ms_job st @ summary_lines dry_run schema_name result @
              (if mr_missing result \<noteq> 0 \<or> mr_conflicts result \<noteq> 0 then [review_warning] else []))), st)))"

definition handle_provision_raw_store :: "store_env \<Rightarrow> 's s3_lib \<Rightarrow> 's \<Rightarrow> command_result \<times> 's" where
  "handle_provision_raw_store env lib s =
     (case ensure_bucket env lib s of
        (Inl e, s') \<Rightarrow> (Crashed e, s')
      | (Inr _, s') \<Rightarrow> (Printed ''Raw payload store provisioned.'', s'))"

subsection \<open>What one record does\<close>

text \<open>The problems counted so far, and the two ways in which the storage is used.\<close>

definition problems_counted :: "migration_result \<Rightarrow> nat" where
  "problems_counted res = mr_missing res + mr_conflicts res"

abbreviation stored :: "('s, 'j) migration_state \<Rightarrow> uuid_cache \<times> 's" where
  "stored st \<equiv> (ms_cache st, ms_objects st)"

definition touched ::
  "store_env \<Rightarrow> 's s3_lib \<Rightarrow> bool \<Rightarrow> uuid \<times> raw_payload_record \<Rightarrow> ('s, 'j) migration_state \<Rightarrow> ('s, 'j) migration_state \<Rightarrow> bool" where
  "touched env lib dry_run pr st st' =
     (stored st' = stored st \<or>
      (\<not> dry_run \<and> (\<exists>data ct x. store_put env lib (expected_logical_key (fst pr) (snd pr)) data ct (stored st) =
         (x, stored st'))))"

lemma add_problem_counts [simp]:
  "mr_inspected (add_problem r c m res) = mr_inspected res" "mr_already (add_problem r c m res) = mr_already res"
  "mr_missing (add_problem r c m res) = mr_missing res" "mr_conflicts (add_problem r c m res) = mr_conflicts res"
  "mr_ready (add_problem r c m res) = mr_ready res" "mr_migrated (add_problem r c m res) = mr_migrated res"
  "mr_legacy (add_problem r c m res) = mr_legacy res"
  "mr_schema_prefixed (add_problem r c m res) = mr_schema_prefixed res"
  "length (mr_problems (add_problem r c m res)) = min (Suc (length (mr_problems res)))
     (max (length (mr_problems res)) MAX_SAMPLE_PROBLEM_RECORDS)"
  by (simp_all add: add_problem_def)

lemma add_conflict_counts [simp]:
  "mr_inspected (add_conflict r m res) = mr_inspected res" "mr_already (add_conflict r m res) = mr_already res"
  "mr_missing (add_conflict r m res) = mr_missing res" "mr_conflicts (add_conflict r m res) = mr_conflicts res + 1"
  "mr_ready (add_conflict r m res) = mr_ready res" "mr_migrated (add_conflict r m res) = mr_migrated res"
  "mr_legacy (add_conflict r m res) = mr_legacy res"
  "mr_schema_prefixed (add_conflict r m res) = mr_schema_prefixed res"
  "length (mr_problems (add_conflict r m res)) = min (Suc (length (mr_problems res)))
     (max (length (mr_problems res)) MAX_SAMPLE_PROBLEM_RECORDS)"
  by (simp_all add: add_conflict_def)

lemma verify_cases:
  assumes "verify_and_maybe_migrate env lib dry_run key pl r cs = (x, cs')"
  obtains (error) e where "x = Inl e" "cs' = cs \<or> (\<not> dry_run \<and> (\<exists>data ct y. store_put env lib (expected_logical_key pl r) data ct cs = (y, cs')))"
  | (mismatch) "x = Inr (False, None)" "cs' = cs"
  | (dry) "x = Inr (True, None)" "cs' = cs" "dry_run"
  | (put) data ct ct' uri where "x = Inr (True, Some uri)" "\<not> dry_run" "get_raw_by_key env lib key (snd cs) = Inr (data, ct)"
      "sha256 lib data = rp_checksum r" "store_put env lib (expected_logical_key pl r) data ct' cs = (Inr uri, cs')"
proof (cases "get_raw_by_key env lib key (snd cs)")
  case (Inl e)
  with assms show ?thesis by (intro error [of e]) (simp_all add: verify_and_maybe_migrate_def)
next
  case (Inr dc)
  obtain data ct where dc: "dc = (data, ct)" by fastforce
  let ?ct = "case ct of Some (c # cs) \<Rightarrow> c # cs | _ \<Rightarrow> ''application/json''"
  obtain y cs1 where p: "store_put env lib (expected_logical_key pl r) data ?ct cs = (y, cs1)" by (metis surj_pair)
  show ?thesis
  proof (cases "sha256 lib data = rp_checksum r \<and> \<not> dry_run")
    case True
    with assms Inr dc p have c: "cs' = cs1" "x = (case y of Inl e \<Rightarrow> Inl e | Inr uri \<Rightarrow> Inr (True, Some uri))"
      by (auto simp: verify_and_maybe_migrate_def split: sum.splits)
    show ?thesis
    proof (cases y)
      case (Inl e)
      with c p True show ?thesis by (intro error [of e]) auto
    next
      case (Inr uri)
      with c p True \<open>get_raw_by_key env lib key (snd cs) = Inr dc\<close> dc show ?thesis
        by (intro put [of uri data ct ?ct]) auto
    qed
  next
    case False
    with assms Inr dc mismatch dry show ?thesis
      by (auto simp: verify_and_maybe_migrate_def split: if_splits)
  qed
qed

text \<open>A record at a legacy key, whichever of the two kinds it is.\<close>

definition count_kind :: "migration_category \<Rightarrow> migration_result \<Rightarrow> migration_result" where
  "count_kind category res =
     (if category = LEGACY_UNPREFIXED then res\<lparr>mr_legacy := mr_legacy res + 1\<rparr>
      else res\<lparr>mr_schema_prefixed := mr_schema_prefixed res + 1\<rparr>)"

lemma count_kind_counts [simp]:
  "mr_inspected (count_kind c res) = mr_inspected res" "mr_already (count_kind c res) = mr_already res"
  "mr_missing (count_kind c res) = mr_missing res" "mr_conflicts (count_kind c res) = mr_conflicts res"
  "mr_ready (count_kind c res) = mr_ready res" "mr_migrated (count_kind c res) = mr_migrated res"
  "mr_problems (count_kind c res) = mr_problems res"
  "mr_legacy (count_kind c res) + mr_schema_prefixed (count_kind c res) = Suc (mr_legacy res + mr_schema_prefixed res)"
  by (simp_all add: count_kind_def)

definition inspect :: "('s, 'j) migration_state \<Rightarrow> migration_result" where
  "inspect st = (ms_result st)\<lparr>mr_inspected := mr_inspected (ms_result st) + 1\<rparr>"

lemma inspect_counts [simp]:
  "mr_inspected (inspect st) = Suc (mr_inspected (ms_result st))" "mr_already (inspect st) = mr_already (ms_result st)"
  "mr_missing (inspect st) = mr_missing (ms_result st)" "mr_conflicts (inspect st) = mr_conflicts (ms_result st)"
  "mr_ready (inspect st) = mr_ready (ms_result st)" "mr_migrated (inspect st) = mr_migrated (ms_result st)"
  "mr_legacy (inspect st) = mr_legacy (ms_result st)" "mr_schema_prefixed (inspect st) = mr_schema_prefixed (ms_result st)"
  "mr_problems (inspect st) = mr_problems (ms_result st)"
  by (simp_all add: inspect_def)

lemma migrate_record_already:
  "classify env tenant pl r = (ALREADY_MIGRATED, k) \<Longrightarrow> migrate_record env lib dry_run tenant (pl, r) st =
     (Inr (), st\<lparr>ms_result := (inspect st)\<lparr>mr_already := mr_already (ms_result st) + 1\<rparr>\<rparr>)"
  by (simp add: migrate_record_def inspect_def Let_def)

lemma migrate_record_unrecognized:
  "classify env tenant pl r = (c, None) \<Longrightarrow> c \<noteq> ALREADY_MIGRATED \<Longrightarrow> \<exists>m.
   migrate_record env lib dry_run tenant (pl, r) st = (Inr (), st\<lparr>ms_result := add_conflict r m (inspect st)\<rparr>)"
  by (cases c) (auto simp: migrate_record_def inspect_def Let_def)

lemma migrate_record_legacy:
  assumes "classify env tenant pl r = (c, Some key)" "c \<noteq> ALREADY_MIGRATED"
  shows "migrate_record env lib dry_run tenant (pl, r) st =
    (case key_exists env lib key (ms_objects st) of
       Inl e \<Rightarrow> (Inl e, st\<lparr>ms_result := inspect st\<rparr>)
     | Inr False \<Rightarrow> (Inr (), st\<lparr>ms_result := add_problem r MISSING ''object not found in storage at the legacy key''
           ((inspect st)\<lparr>mr_missing := mr_missing (ms_result st) + 1\<rparr>)\<rparr>)
     | Inr True \<Rightarrow>
         (case verify_and_maybe_migrate env lib dry_run key pl r (stored st) of
            (Inl e, cache, s) \<Rightarrow> (Inl e, st\<lparr>ms_result := count_kind c (inspect st), ms_cache := cache, ms_objects := s\<rparr>)
          | (Inr (False, _), cache, s) \<Rightarrow> (Inr (), st\<lparr>ms_result := add_conflict r
                ''downloaded object checksum does not match the recorded checksum'' (count_kind c (inspect st)),
                ms_cache := cache, ms_objects := s\<rparr>)
          | (Inr (True, new_uri), cache, s) \<Rightarrow>
              (let ready = (count_kind c (inspect st))\<lparr>mr_ready := mr_ready (ms_result st) + 1\<rparr>;
                   st' = st\<lparr>ms_result := ready, ms_cache := cache, ms_objects := s\<rparr>
               in case new_uri of
                    None \<Rightarrow> (Inr (), st')
                  | Some uri \<Rightarrow>
                      if dry_run then (Inr (), st')
                      else (case save_raw copy_uri (r\<lparr>rp_storage_uri := uri\<rparr>) (ms_world st) of
                              Inl e \<Rightarrow> (Inl e, st')
                            | Inr w \<Rightarrow> (Inr (), st'\<lparr>ms_world := w, ms_result := ready\<lparr>mr_migrated := mr_migrated ready + 1\<rparr>\<rparr>)))))"
  using assms(2)
  by (cases c) (simp_all add: migrate_record_def assms(1) inspect_def count_kind_def Let_def split: sum.split bool.split option.split prod.split)

lemma migrate_record_cases:
  fixes st st' :: "('s, 'j) migration_state"
  assumes m: "migrate_record env lib dry_run tenant (pl, r) st = (x, st')"
  obtains (failed) e where "x = Inl e" "ms_world st' = ms_world st" "touched env lib dry_run (pl, r) st st'"
  | (already) k where "x = Inr ()" "classify env tenant pl r = (ALREADY_MIGRATED, k)" "ms_world st' = ms_world st"
      "stored st' = stored st" "problems_counted (ms_result st') = problems_counted (ms_result st)"
  | (problem) "x = Inr ()" "ms_world st' = ms_world st" "stored st' = stored st"
      "problems_counted (ms_result st') = problems_counted (ms_result st) + 1"
  | (ready) "x = Inr ()" "dry_run" "ms_world st' = ms_world st" "stored st' = stored st"
      "problems_counted (ms_result st') = problems_counted (ms_result st)"
  | (moved) c key data ct ct' uri w where "x = Inr ()" "\<not> dry_run" "classify env tenant pl r = (c, Some key)"
      "get_raw_by_key env lib key (ms_objects st) = Inr (data, ct)" "sha256 lib data = rp_checksum r"
      "store_put env lib (expected_logical_key pl r) data ct' (stored st) = (Inr uri, stored st')"
      "save_raw copy_uri (r\<lparr>rp_storage_uri := uri\<rparr>) (ms_world st) = Inr w" "ms_world st' = w"
      "problems_counted (ms_result st') = problems_counted (ms_result st)"
proof -
  obtain c k where c: "classify env tenant pl r = (c, k)" by fastforce
  show ?thesis
  proof (cases "c = ALREADY_MIGRATED")
    case True
    with m show ?thesis
      by (intro already [of k]) (auto simp: migrate_record_already [OF c [unfolded True]] c problems_counted_def)
  next
    case na: False
    show ?thesis
    proof (cases k)
      case None
      from migrate_record_unrecognized [OF c [unfolded None] na, of lib dry_run st] m show ?thesis
        by (intro problem) (auto simp: problems_counted_def)
    next
      case (Some key)
      note eq = migrate_record_legacy [OF c [unfolded Some] na, of lib dry_run st, unfolded m]
      obtain v cache s where v: "verify_and_maybe_migrate env lib dry_run key pl r (stored st) = (v, cache, s)"
        by (metis prod.collapse)
      consider e where "key_exists env lib key (ms_objects st) = Inl e" | "key_exists env lib key (ms_objects st) = Inr False"
        | "key_exists env lib key (ms_objects st) = Inr True"
        by (metis (full_types) sum.exhaust)
      then show ?thesis
      proof cases
        case (1 e)
        then show ?thesis using eq by (intro failed [of e]) (simp_all add: touched_def)
      next
        case 2
        then show ?thesis using eq by (intro problem) (simp_all add: problems_counted_def)
      next
        case 3
        note eq = eq [unfolded 3 v, simplified]
        from v show ?thesis
        proof (cases rule: verify_cases)
          case (error e)
          then show ?thesis using eq by (intro failed [of e]) (simp_all add: touched_def)
        next
          case mismatch
          then show ?thesis using eq by (intro problem) (simp_all add: problems_counted_def)
        next
          case dry
          then show ?thesis using eq by (intro ready) (simp_all add: problems_counted_def Let_def)
        next
          case (put data ct ct' uri)
          show ?thesis
          proof (cases "save_raw copy_uri (r\<lparr>rp_storage_uri := uri\<rparr>) (ms_world st)")
            case (Inl e)
            with put eq show ?thesis by (intro failed [of e]) (auto simp: touched_def Let_def)
          next
            case (Inr w)
            with put eq show ?thesis
              by (intro moved [of c key data ct ct' uri w]) (simp_all add: problems_counted_def Let_def c Some)
          qed
        qed
      qed
    qed
  qed
qed

subsection \<open>Dry runs\<close>

lemma report_frame [simp]:
  "report cb st = (r, st') \<Longrightarrow> ms_world st' = ms_world st \<and> stored st' = stored st \<and> ms_result st' = ms_result st"
  by (auto simp: report_def split: prod.splits)

lemma report_job:
  assumes "report cb st = (z, st')"
  shows "ms_job st' = snd (on_progress cb (ms_result st) (ms_job st))"
proof -
  obtain y j where p: "on_progress cb (ms_result st) (ms_job st) = (y, j)" by fastforce
  then have "st' = st\<lparr>ms_job := j\<rparr>" using assms by (simp add: report_def)
  then show ?thesis unfolding p by simp
qed

lemma migrate_record_dry:
  assumes "migrate_record env lib True tenant pr st = (x, st')"
  shows "ms_world st' = ms_world st \<and> stored st' = stored st"
proof -
  obtain pl r where pr: "pr = (pl, r)" by fastforce
  from assms show ?thesis unfolding pr by (cases rule: migrate_record_cases) (auto simp: touched_def)
qed

text \<open>What holds between the state before and after each record, and is not touched by the callbacks,
  holds over the table.\<close>

lemma migrate_records_relation:
  fixes R :: "('s, 'j) migration_state \<Rightarrow> ('s, 'j) migration_state \<Rightarrow> bool"
  assumes "migrate_records env lib dry_run n cb tenant rs since st = (x, st')"
    and "\<And>st. R st st" and "\<And>st st1 st2. R st st1 \<Longrightarrow> R st1 st2 \<Longrightarrow> R st st2"
    and step: "\<And>r st x st'. r \<in> set rs \<Longrightarrow> migrate_record env lib dry_run tenant r st = (x, st') \<Longrightarrow> R st st'"
    and job: "\<And>st st' j. ms_world st' = ms_world st \<Longrightarrow> stored st' = stored st \<Longrightarrow> ms_result st' = ms_result st \<Longrightarrow> R st st'"
  shows "R st st'"
  using assms(1) step
proof (induction rs arbitrary: since st)
  case (Cons r rs)
  obtain y st1 where m: "migrate_record env lib dry_run tenant r st = (y, st1)" by fastforce
  have R1: "R st st1" using Cons.prems(2) [OF _ m] by simp
  show ?case
  proof (cases y)
    case (Inl e)
    with m R1 Cons.prems(1) show ?thesis by simp
  next
    case (Inr u)
    obtain z st2 where rep: "report cb st1 = (z, st2)" by fastforce
    obtain b j where c: "is_cancelled cb (ms_job st2) = (b, j)" by fastforce
    have R2: "R st st2" "R st (st2\<lparr>ms_job := j\<rparr>)"
      using report_frame [OF rep] assms(3) [OF R1] job by simp_all
    have IH: "R st st'" if "migrate_records env lib dry_run n cb tenant rs k st3 = (x, st')" "R st st3" for k st3
    proof -
      have "R st3 st'"
      proof (rule Cons.IH [OF that(1)])
        fix q y and a b :: "('s, 'j) migration_state"
        assume q: "q \<in> set rs" "migrate_record env lib dry_run tenant q a = (y, b)"
        show "R a b" by (rule Cons.prems(2) [OF _ q(2)]) (use q(1) in simp)
      qed
      with assms(3) that(2) show ?thesis by blast
    qed
    show ?thesis
    proof (cases "n \<le> Suc since")
      case True
      with Cons.prems(1) m Inr rep c R2 IH show ?thesis
        by (cases z) (auto split: sum.splits bool.splits)
    next
      case False
      with Cons.prems(1) m Inr R1 IH show ?thesis by auto
    qed
  qed
qed (use assms(2) in simp)

text \<open>The pieces of a whole run.\<close>

lemma run_migration_cases:
  assumes "run_raw_payload_migration env lib dry_run n cb (w, cache, s, j) = (x, st')"
  obtains (no_tenant) e where "x = Inl e" "ms_world st' = w" "ms_objects st' = s"
  | (ran) tenant cache' y st1 where "tenant_uuid env cache = (Inr tenant, cache')"
      "migrate_records env lib dry_run n cb tenant (inspected_rows w) 0
         \<lparr>ms_result = new_result, ms_world = w, ms_cache = cache', ms_objects = s, ms_job = j\<rparr> = (y, st1)"
      "ms_world st' = ms_world st1" "stored st' = stored st1"
      "\<And>res. x = Inr res \<Longrightarrow> y = Inr () \<and> res = (ms_result st1)\<lparr>mr_skipped := mr_already (ms_result st1) +
         mr_missing (ms_result st1) + mr_conflicts (ms_result st1)\<rparr> \<and>
         ms_job st' = snd (on_progress cb res (ms_job st1))"
proof -
  let ?st0 = "\<lambda>c. \<lparr>ms_result = new_result, ms_world = w, ms_cache = c, ms_objects = s, ms_job = j\<rparr>"
  obtain t cache' where t: "tenant_uuid env cache = (t, cache')" by fastforce
  show ?thesis
  proof (cases t)
    case (Inl e)
    with assms t show ?thesis by (intro no_tenant [of e]) (auto simp: run_raw_payload_migration_def)
  next
    case (Inr tenant)
    obtain y st1 where m: "migrate_records env lib dry_run n cb tenant (inspected_rows w) 0 (?st0 cache') = (y, st1)"
      by fastforce
    let ?res = "(ms_result st1)\<lparr>mr_skipped := mr_already (ms_result st1) +
         mr_missing (ms_result st1) + mr_conflicts (ms_result st1)\<rparr>"
    obtain z st2 where rep: "report cb (st1\<lparr>ms_result := ?res\<rparr>) = (z, st2)" by fastforce
    note f = report_frame [OF rep]
    show ?thesis
    proof (cases y)
      case (Inl e)
      with assms t Inr m show ?thesis
        by (intro ran [of tenant cache' y st1]) (auto simp: run_raw_payload_migration_def Let_def)
    next
      case (Inr u)
      have r: "x = (case z of Inl e \<Rightarrow> Inl e | Inr _ \<Rightarrow> Inr ?res) \<and> st' = st2"
        using assms t \<open>t = Inr tenant\<close> m Inr rep
        by (auto simp: run_raw_payload_migration_def Let_def split: sum.splits)
      have job: "ms_job st2 = snd (on_progress cb ?res (ms_job st1))"
        using report_job [OF rep] by simp
      show ?thesis
      proof (rule ran [OF _ m])
        show "tenant_uuid env cache = (Inr tenant, cache')" using t \<open>t = Inr tenant\<close> by simp
        show "ms_world st' = ms_world st1" "stored st' = stored st1" using r f by simp_all
        fix res assume "x = Inr res"
        then have res: "res = ?res" using r by (cases z) (simp_all only: sum.case sum.inject sum.distinct simp_thms)
        have "ms_job st' = snd (on_progress cb res (ms_job st1))" unfolding res using r job by (simp only:)
        with Inr res show "y = Inr () \<and> res = ?res \<and> ms_job st' = snd (on_progress cb res (ms_job st1))"
          by (intro conjI) simp_all
      qed
    qed
  qed
qed

text \<open>An inspection changes nothing. Whatever a dry run meets, and however it ends, the tenant's
  tables and the object storage are as they were.\<close>

theorem dry_run_changes_nothing:
  "ms_world (snd (run_raw_payload_migration env lib True n cb (w, cache, s, j))) = w \<and>
   ms_objects (snd (run_raw_payload_migration env lib True n cb (w, cache, s, j))) = s"
proof -
  obtain x st' where r: "run_raw_payload_migration env lib True n cb (w, cache, s, j) = (x, st')" by fastforce
  from r have "ms_world st' = w \<and> ms_objects st' = s"
  proof (cases rule: run_migration_cases)
    case (ran tenant cache' y st1)
    have "ms_world st1 = w \<and> stored st1 = (cache', s)"
      using migrate_records_relation [OF ran(2), where R = "\<lambda>a b. ms_world b = ms_world a \<and> stored b = stored a"]
        migrate_record_dry by fastforce
    with ran show ?thesis by simp
  qed simp
  with r show ?thesis by simp
qed

subsection \<open>The counts\<close>

definition counts_ok :: "bool \<Rightarrow> migration_result \<Rightarrow> bool" where
  "counts_ok dry_run res =
     (mr_inspected res = mr_already res + mr_missing res + mr_conflicts res + mr_ready res \<and>
      mr_migrated res = (if dry_run then 0 else mr_ready res) \<and>
      mr_ready res \<le> mr_legacy res + mr_schema_prefixed res \<and>
      mr_legacy res + mr_schema_prefixed res \<le> mr_ready res + mr_conflicts res \<and>
      length (mr_problems res) = min MAX_SAMPLE_PROBLEM_RECORDS (mr_missing res + mr_conflicts res))"

lemma migrate_record_counts:
  assumes m: "migrate_record env lib dry_run tenant (pl, r) st = (Inr u, st')" and c: "counts_ok dry_run (ms_result st)"
  shows "counts_ok dry_run (ms_result st') \<and> mr_inspected (ms_result st') = Suc (mr_inspected (ms_result st))"
proof -
  obtain cat k where cl: "classify env tenant pl r = (cat, k)" by fastforce
  consider "cat = ALREADY_MIGRATED" | "cat \<noteq> ALREADY_MIGRATED" "k = None"
    | key where "cat \<noteq> ALREADY_MIGRATED" "k = Some key" by (cases k) auto
  then show ?thesis
  proof cases
    case 1
    from m migrate_record_already [OF cl [unfolded 1], of lib dry_run st] c show ?thesis by (auto simp: counts_ok_def)
  next
    case 2
    from m migrate_record_unrecognized [OF cl [unfolded 2(2)] 2(1), of lib dry_run st] c show ?thesis
      by (auto simp: counts_ok_def)
  next
    case (3 key)
    note eq = migrate_record_legacy [OF cl [unfolded 3(2)] 3(1), of lib dry_run st, unfolded m]
    note kinds = count_kind_counts(8) [of cat "inspect st"]
    obtain v cache s where v: "verify_and_maybe_migrate env lib dry_run key pl r (stored st) = (v, cache, s)"
      by (metis prod.collapse)
    show ?thesis
    proof (cases "key_exists env lib key (ms_objects st) = Inr True")
      case False
      then show ?thesis using eq c by (auto simp: counts_ok_def split: sum.splits bool.splits)
    next
      case True
      note eq = eq [unfolded True v, simplified]
      from v show ?thesis
      proof (cases rule: verify_cases)
        case (put data ct ct' uri)
        then show ?thesis using eq c kinds by (auto simp: counts_ok_def Let_def split: sum.splits)
      qed (use eq c kinds in \<open>auto simp: counts_ok_def Let_def\<close>)+
    qed
  qed
qed

lemma migrate_records_counts:
  assumes "migrate_records env lib dry_run n cb tenant rs since st = (Inr u, st')" "counts_ok dry_run (ms_result st)"
  shows "counts_ok dry_run (ms_result st') \<and> mr_inspected (ms_result st') \<le> mr_inspected (ms_result st) + length rs"
  using assms
proof (induction rs arbitrary: since st)
  case (Cons pr rs)
  obtain pl r where pr: "pr = (pl, r)" by fastforce
  obtain y st1 where m: "migrate_record env lib dry_run tenant pr st = (y, st1)" by fastforce
  obtain v where y: "y = Inr v" using Cons.prems(1) m by (cases y) auto
  note c = migrate_record_counts [OF m [unfolded pr y] Cons.prems(2)]
  obtain z st2 where rep: "report cb st1 = (z, st2)" by fastforce
  obtain b j where k: "is_cancelled cb (ms_job st2) = (b, j)" by fastforce
  have same: "ms_result st2 = ms_result st1" using report_frame [OF rep] by simp
  have IH: ?case if "migrate_records env lib dry_run n cb tenant rs k st3 = (Inr u, st')" "ms_result st3 = ms_result st1" for k st3
    using Cons.IH [OF that(1)] that(2) c by simp
  show ?case
  proof (cases "n \<le> Suc since")
    case True
    show ?thesis
    proof (cases "z = Inr () \<and> b = Inr False")
      case True
      with \<open>n \<le> Suc since\<close> Cons.prems(1) m y rep k same show ?thesis by (intro IH [of 0 "st2\<lparr>ms_job := j\<rparr>"]) simp_all
    next
      case False
      with \<open>n \<le> Suc since\<close> Cons.prems(1) m y rep k have "ms_result st' = ms_result st2"
        by (cases z; cases b) (auto split: bool.splits)
      with same c show ?thesis by simp
    qed
  next
    case False
    with Cons.prems(1) m y show ?thesis by (intro IH [of "Suc since" st1]) simp_all
  qed
qed simp

text \<open>The counts add up. In every result that an inspection or a migration returns, the records
  inspected are those already migrated, missing, in conflict, or ready; a migration has migrated
  exactly the ready ones and an inspection none; skipped are all the others; no record is counted
  that is not in the table; and the sample of problems holds all of them up to its bound.\<close>

theorem migration_adds_up:
  "case run_raw_payload_migration env lib dry_run n cb (w, cache, s, j) of
     (Inr res, st') \<Rightarrow> counts_ok dry_run res \<and> mr_skipped res + mr_ready res = mr_inspected res \<and>
       mr_inspected res \<le> length (inspected_rows w)
   | (Inl e, st') \<Rightarrow> True"
proof -
  obtain x st' where r: "run_raw_payload_migration env lib dry_run n cb (w, cache, s, j) = (x, st')" by fastforce
  show ?thesis
  proof (cases x)
    case (Inr res)
    from r show ?thesis
    proof (cases rule: run_migration_cases)
      case (ran tenant cache' y st1)
      from ran(5) [OF Inr] have y: "y = Inr ()" and res: "res = (ms_result st1)\<lparr>mr_skipped := mr_already (ms_result st1) +
         mr_missing (ms_result st1) + mr_conflicts (ms_result st1)\<rparr>" by simp_all
      have "counts_ok dry_run new_result" "mr_inspected new_result = 0" by (simp_all add: counts_ok_def new_result_def)
      with migrate_records_counts [OF ran(2) [unfolded y]] r Inr res show ?thesis
        by (auto simp: counts_ok_def)
    qed (use Inr in simp)
  qed (simp add: r)
qed

subsection \<open>A legacy record\<close>

definition legacy_row :: raw_payload_record where
  "legacy_row = \<lparr>rp_id = ''i1'', rp_run = ''r1'', rp_storage_uri = object_uri example_store
       (storage_key ''p1'' ''r1'' 1 (sha256 memory_s3 ''data'')),
     rp_content_type = ''application/json'', rp_size_bytes = 4, rp_checksum = sha256 memory_s3 ''data'',
     rp_sequence = 1, rp_loaded = True, rp_cursor_used = None, rp_next_cursor = None, rp_item_count = 0,
     rp_source_path = [], rp_http_status = Some 200, rp_updated_at = 0\<rparr>"

definition legacy_world :: world where
  "legacy_world = example_world\<lparr>w_raw := [legacy_row]\<rparr>"

definition legacy_objects :: "((string \<times> string) \<times> bytes) list" where
  "legacy_objects = [((''raw'', storage_key ''p1'' ''r1'' 1 (sha256 memory_s3 ''data'')), ''data'')]"

definition legacy_run ::
  "(exn + migration_result) \<times> (((string \<times> string) \<times> bytes) list, string list) migration_state" where
  "legacy_run = run_raw_payload_migration example_store memory_s3 False 100 command_callbacks
     (legacy_world, [], legacy_objects, [])"

text \<open>What the migration of that record does, by evaluation.\<close>

lemma legacy_run_moves:
  "(\<lambda>r. (mr_inspected r, mr_legacy r, mr_migrated r, mr_missing r, mr_conflicts r)) (projr (fst legacy_run)) =
     (1, 1, 1, 0, 0) \<and>
   isl (fst legacy_run) = False \<and>
   map rp_storage_uri (w_raw (ms_world (snd legacy_run))) =
     [object_uri example_store (tenant_key ''u1'' (storage_key ''p1'' ''r1'' 1 (sha256 memory_s3 ''data'')))] \<and>
   map snd (ms_objects (snd legacy_run)) = [''data'', ''data'']"
  by code_simp

lemma legacy_ids: "distinct (map rp_id (w_raw legacy_world))"
  by (simp add: legacy_world_def)

subsection \<open>Nothing is lost\<close>

definition objects_kept :: "('s \<Rightarrow> string \<Rightarrow> string \<Rightarrow> bytes option) \<Rightarrow> 's \<Rightarrow> 's \<Rightarrow> bool" where
  "objects_kept obj s s' = (\<forall>b k d. obj s b k = Some d \<longrightarrow> obj s' b k = Some d)"

definition tenant_known :: "store_env \<Rightarrow> uuid \<Rightarrow> ('s, 'j) migration_state \<Rightarrow> bool" where
  "tenant_known env tenant st = (map_of (ms_cache st) (se_schema env) = Some tenant)"

text \<open>The object at a new key is the verified one, or was there already and was accepted on a write.\<close>

definition good_copy ::
  "store_env \<Rightarrow> 's s3_lib \<Rightarrow> ('s \<Rightarrow> string \<Rightarrow> string \<Rightarrow> bytes option) \<Rightarrow> string \<Rightarrow> bytes \<Rightarrow> 's \<Rightarrow> bool" where
  "good_copy env lib obj key data s' =
     (\<exists>d'. obj s' (se_bucket env) key = Some d' \<and>
        (d' = data \<or> (\<exists>s. obj s (se_bucket env) key = Some d' \<and> verify_existing_object env lib key data s = Inr ())))"

lemma good_copy_kept: "good_copy env lib obj key data s \<Longrightarrow> objects_kept obj s s' \<Longrightarrow> good_copy env lib obj key data s'"
  unfolding good_copy_def objects_kept_def by metis

lemma verified_object:
  assumes "s3_laws lib obj" "verify_existing_object env lib key data s = Inr ()"
  shows "\<exists>d. obj s (se_bucket env) key = Some d"
proof (cases "s3_head lib (se_bucket env) key s")
  case (Inr sz)
  with head_ok [OF assms(1)] show ?thesis by blast
next
  case (Inl e)
  with assms(2) show ?thesis
    by (auto simp: verify_existing_object_def split: s3_error.splits option.splits if_splits)
qed

lemma put_effect:
  assumes laws: "s3_laws lib obj" and known: "tenant_known env tenant st"
    and p: "store_put env lib lk data ct (stored st) = (x, stored st')"
  shows "tenant_known env tenant st' \<and> objects_kept obj (ms_objects st) (ms_objects st') \<and>
    (\<forall>uri. x = Inr uri \<longrightarrow> uri = object_uri env (tenant_key tenant lk) \<and>
       good_copy env lib obj (tenant_key tenant lk) data (ms_objects st'))"
proof -
  have t: "tenant_uuid env (ms_cache st) = (Inr tenant, ms_cache st)"
    using known by (simp add: tenant_uuid_def tenant_known_def)
  from store_put_cases [OF laws p] t obtain written where c: "ms_cache st' = ms_cache st"
    "grows obj env (tenant_key tenant lk) data written (ms_objects st) (ms_objects st')"
    "\<forall>uri. x = Inr uri \<longrightarrow> uri = object_uri env (tenant_key tenant lk) \<and>
          (written \<or> verify_existing_object env lib (tenant_key tenant lk) data (ms_objects st') = Inr ())" by auto
  have "good_copy env lib obj (tenant_key tenant lk) data (ms_objects st')"
    if "written \<or> verify_existing_object env lib (tenant_key tenant lk) data (ms_objects st') = Inr ()"
  proof (cases written)
    case True
    with c(2) show ?thesis by (simp add: grows_def good_copy_def)
  next
    case False
    with that verified_object [OF laws] show ?thesis unfolding good_copy_def by blast
  qed
  with c known grows_old [OF c(2)] show ?thesis by (auto simp: tenant_known_def objects_kept_def)
qed

lemma touched_effect:
  "s3_laws lib obj \<Longrightarrow> tenant_known env tenant st \<Longrightarrow> touched env lib dry_run pr st st' \<Longrightarrow>
   tenant_known env tenant st' \<and> objects_kept obj (ms_objects st) (ms_objects st')"
  using put_effect [of lib obj env tenant st _ _ _ _ st']
  by (auto simp: touched_def tenant_known_def objects_kept_def)


text \<open>A record that a migration moved: its payload is where the record said, still, and has the
  checksum of the record; and the new place, the tenant's own, holds a good copy of it.\<close>

definition relocated ::
  "store_env \<Rightarrow> 's s3_lib \<Rightarrow> ('s \<Rightarrow> string \<Rightarrow> string \<Rightarrow> bytes option) \<Rightarrow> uuid \<Rightarrow> uuid \<Rightarrow> 's \<Rightarrow>
   raw_payload_record \<Rightarrow> string \<Rightarrow> bool" where
  "relocated env lib obj tenant pl s' r uri =
     (uri = object_uri env (tenant_key tenant (expected_logical_key pl r)) \<and>
      (\<exists>key data. rp_storage_uri r = object_uri env key \<and> obj s' (se_bucket env) key = Some data \<and>
         sha256 lib data = rp_checksum r \<and>
         good_copy env lib obj (tenant_key tenant (expected_logical_key pl r)) data s'))"

definition row_safe ::
  "store_env \<Rightarrow> 's s3_lib \<Rightarrow> ('s \<Rightarrow> string \<Rightarrow> string \<Rightarrow> bytes option) \<Rightarrow> uuid \<Rightarrow> world \<Rightarrow> 's \<Rightarrow>
   raw_payload_record \<Rightarrow> raw_payload_record \<Rightarrow> bool" where
  "row_safe env lib obj tenant w s' r r' =
     (r' = r\<lparr>rp_storage_uri := rp_storage_uri r', rp_updated_at := rp_updated_at r'\<rparr> \<and>
      (rp_storage_uri r' = rp_storage_uri r \<or>
       (\<exists>run. get_run w (rp_run r) = Some run \<and>
          relocated env lib obj tenant (pr_pipeline_id run) s' r (rp_storage_uri r'))))"

lemma relocated_kept:
  "relocated env lib obj tenant pl s r uri \<Longrightarrow> objects_kept obj s s' \<Longrightarrow> relocated env lib obj tenant pl s' r uri"
  using good_copy_kept [of env lib obj _ _ s s'] unfolding relocated_def objects_kept_def by blast

lemma row_safe_kept:
  "row_safe env lib obj tenant w s r r' \<Longrightarrow> objects_kept obj s s' \<Longrightarrow> row_safe env lib obj tenant w s' r r'"
  using relocated_kept [of env lib obj tenant _ s r _ s'] unfolding row_safe_def by blast

lemma objects_kept_trans: "objects_kept obj s s1 \<Longrightarrow> objects_kept obj s1 s2 \<Longrightarrow> objects_kept obj s s2"
  by (simp add: objects_kept_def)

lemma classify_key:
  assumes "classify env tenant pl r = (c, Some key)"
  shows "rp_storage_uri r = object_uri env key"
proof (cases "parse_uri env (rp_storage_uri r)")
  case (Inr bk)
  obtain b k where bk: "bk = (b, k)" by fastforce
  with assms Inr have "k = key" by (auto simp: classify_def Let_def split: if_splits)
  with parse_uri_Inr [of env "rp_storage_uri r" b k] Inr bk show ?thesis by simp
qed (use assms in \<open>simp add: classify_def\<close>)

lemma inspected_row:
  "(pl, r) \<in> set (inspected_rows w) \<longleftrightarrow>
     r \<in> set (w_raw w) \<and> (\<exists>run. get_run w (rp_run r) = Some run \<and> pl = pr_pipeline_id run)"
  by (auto simp: inspected_rows_def List.map_filter_def intro!: image_eqI)

lemma find_own_row: "distinct (map key rows) \<Longrightarrow> r \<in> set rows \<Longrightarrow> find_row key (key r) rows = Some r"
  by (induction rows) (auto simp: find_row_def)

lemma save_raw_find:
  assumes "save_raw copy r w = Inr w'" and "\<And>row. rp_id (copy r row) = rp_id row"
  shows "find_row rp_id i (w_raw w') =
    (if i = rp_id r then map_option (\<lambda>row. (copy r row)\<lparr>rp_updated_at := w_clock w\<rparr>) (find_row rp_id i (w_raw w))
     else find_row rp_id i (w_raw w))"
  using assms(1) by (auto simp: save_raw_def find_update_row assms(2) split: option.splits)

text \<open>What a migration of the rows of \<open>w\<close> keeps.\<close>

definition migrating ::
  "store_env \<Rightarrow> 's s3_lib \<Rightarrow> ('s \<Rightarrow> string \<Rightarrow> string \<Rightarrow> bytes option) \<Rightarrow> uuid \<Rightarrow> world \<Rightarrow> 's \<Rightarrow>
   ('s, 'j) migration_state \<Rightarrow> bool" where
  "migrating env lib obj tenant w s st =
     (tenant_known env tenant st \<and> objects_kept obj s (ms_objects st) \<and>
      ms_world st = w\<lparr>w_raw := w_raw (ms_world st)\<rparr> \<and>
      (\<forall>i r. find_row rp_id i (w_raw w) = Some r \<longrightarrow>
         (\<exists>r'. find_row rp_id i (w_raw (ms_world st)) = Some r' \<and>
            row_safe env lib obj tenant w (ms_objects st) r r')))"

lemma migrating_objects:
  assumes "migrating env lib obj tenant w s st" "tenant_known env tenant st'"
    "objects_kept obj (ms_objects st) (ms_objects st')" "ms_world st' = ms_world st"
  shows "migrating env lib obj tenant w s st'"
  using assms row_safe_kept [of env lib obj tenant w "ms_objects st"] objects_kept_trans [of obj s "ms_objects st"]
  unfolding migrating_def by metis

lemma migrate_record_safe:
  assumes laws: "s3_laws lib obj" and ids: "distinct (map rp_id (w_raw w))"
    and pr: "pr \<in> set (inspected_rows w)"
    and m: "migrate_record env lib dry_run tenant pr st = (x, st')"
    and inv: "migrating env lib obj tenant w s st"
  shows "migrating env lib obj tenant w s st'"
proof -
  obtain pl r where p: "pr = (pl, r)" by fastforce
  have known: "tenant_known env tenant st" using inv by (simp add: migrating_def)
  have same: "migrating env lib obj tenant w s st'" if "stored st' = stored st" "ms_world st' = ms_world st"
    by (rule migrating_objects [OF inv]) (use that known in \<open>simp_all add: tenant_known_def objects_kept_def\<close>)
  from m [unfolded p] show ?thesis
  proof (cases rule: migrate_record_cases)
    case (failed e)
    with touched_effect [OF laws known failed(3)] show ?thesis by (intro migrating_objects [OF inv]) auto
  next
    case (moved c key data ct ct' uri w1)
    let ?k = "tenant_key tenant (expected_logical_key pl r)"
    from put_effect [OF laws known moved(6)] have put: "tenant_known env tenant st'"
      "objects_kept obj (ms_objects st) (ms_objects st')" "uri = object_uri env ?k"
      "good_copy env lib obj ?k data (ms_objects st')" by auto
    have data: "obj (ms_objects st) (se_bucket env) key = Some data"
      using moved(4) get_ok [OF laws] by (auto simp: get_raw_by_key_def split: sum.splits)
    obtain run where r: "find_row rp_id (rp_id r) (w_raw w) = Some r" "get_run w (rp_run r) = Some run"
      "pl = pr_pipeline_id run"
      using pr find_own_row [OF ids] unfolding p inspected_row by blast
    have rel: "relocated env lib obj tenant pl (ms_objects st') r uri"
      using put data moved(5) classify_key [OF moved(3)] unfolding relocated_def objects_kept_def by blast
    have find: "find_row rp_id i (w_raw (ms_world st')) = (if i = rp_id r
        then map_option (\<lambda>row. row\<lparr>rp_storage_uri := uri, rp_updated_at := w_clock (ms_world st)\<rparr>)
               (find_row rp_id i (w_raw (ms_world st)))
        else find_row rp_id i (w_raw (ms_world st)))" for i
      using save_raw_find [OF moved(7), of i] moved(8) by (simp add: copy_uri_def)
    have "\<exists>r1. find_row rp_id i (w_raw (ms_world st')) = Some r1 \<and>
        row_safe env lib obj tenant w (ms_objects st') r0 r1" if r0: "find_row rp_id i (w_raw w) = Some r0" for i r0
    proof -
      obtain r1 where r1: "find_row rp_id i (w_raw (ms_world st)) = Some r1"
        "row_safe env lib obj tenant w (ms_objects st) r0 r1"
        using inv r0 unfolding migrating_def by blast
      show ?thesis
      proof (cases "i = rp_id r")
        case True
        with r0 r have "r0 = r" by simp
        with r1(2) obtain u t where u: "r1 = r\<lparr>rp_storage_uri := u, rp_updated_at := t\<rparr>"
          unfolding row_safe_def by blast
        with r1(1) find True rel r(2,3) \<open>r0 = r\<close> show ?thesis by (simp add: row_safe_def)
      next
        case False
        with find r1 row_safe_kept [OF r1(2) put(2)] show ?thesis by simp
      qed
    qed
    moreover have "ms_world st' = w\<lparr>w_raw := w_raw (ms_world st')\<rparr>"
    proof -
      obtain a where a: "ms_world st = w\<lparr>w_raw := a\<rparr>" using inv unfolding migrating_def by blast
      obtain b where b: "ms_world st' = (ms_world st)\<lparr>w_raw := b\<rparr>"
        using save_raw_frame [OF moved(7)] moved(8) by blast
      show ?thesis unfolding b a by simp
    qed
    moreover have "objects_kept obj s (ms_objects st')"
      using inv put(2) objects_kept_trans [of obj s "ms_objects st"] by (simp add: migrating_def)
    ultimately show ?thesis using put(1) unfolding migrating_def by blast
  qed (use same in auto)
qed


lemma run_migration_migrating:
  assumes laws: "s3_laws lib obj" and ids: "distinct (map rp_id (w_raw w))"
    and run: "run_raw_payload_migration env lib dry_run n cb (w, cache, s, j) = (x, st')"
  shows "(ms_world st' = w \<and> ms_objects st' = s) \<or> (\<exists>tenant. migrating env lib obj tenant w s st')"
  using run
proof (cases rule: run_migration_cases)
  case (ran tenant cache' y st1)
  let ?st0 = "\<lparr>ms_result = new_result, ms_world = w, ms_cache = cache', ms_objects = s, ms_job = j\<rparr>"
  let ?I = "migrating env lib obj tenant w s"
  have "?I ?st0 \<longrightarrow> ?I st1"
  proof (rule migrate_records_relation [OF ran(2), where R = "\<lambda>a b. ?I a \<longrightarrow> ?I b"])
    show "?I a \<longrightarrow> ?I b" if "r \<in> set (inspected_rows w)" "migrate_record env lib dry_run tenant r a = (q, b)" for r a q b
      using migrate_record_safe [OF laws ids that] by simp
    show "?I a \<longrightarrow> ?I b" if "ms_world b = ms_world a" "stored b = stored a" for a b
      using that by (simp add: migrating_def tenant_known_def)
  qed simp_all
  moreover have "?I ?st0"
  proof -
    have "map_of cache' (se_schema env) = Some tenant"
      using ran(1) by (auto simp: tenant_uuid_def update_conv' split: option.splits)
    then show ?thesis by (auto simp: migrating_def tenant_known_def objects_kept_def row_safe_def)
  qed
  ultimately have "?I st'" using ran(3,4) by (simp add: migrating_def tenant_known_def)
  then show ?thesis by blast
qed simp

text \<open>A migration loses nothing. Whatever happens to a migration, be it run, failed in the
  middle or cancelled, every object that was in the storage is there with the same bytes, the
  other tables are untouched, and each row is still there with all its columns except the place
  of the payload. That is as it was, or it is the tenant's own key for the record, which then
  holds the payload: the bytes at the old key had the checksum of the record, and the new key
  holds the same bytes (or an object that the store accepted as the same).\<close>

theorem migration_loses_nothing:
  assumes "s3_laws lib obj" and "distinct (map rp_id (w_raw w))"
    and "run_raw_payload_migration env lib dry_run n cb (w, cache, s, j) = (x, st')"
  shows "objects_kept obj s (ms_objects st') \<and> ms_world st' = w\<lparr>w_raw := w_raw (ms_world st')\<rparr> \<and>
    (\<forall>i r. find_row rp_id i (w_raw w) = Some r \<longrightarrow>
       (\<exists>r' tenant. find_row rp_id i (w_raw (ms_world st')) = Some r' \<and>
          row_safe env lib obj tenant w (ms_objects st') r r'))"
  using run_migration_migrating [OF assms]
proof
  assume same: "ms_world st' = w \<and> ms_objects st' = s"
  then show ?thesis by (auto simp: objects_kept_def row_safe_def)
next
  assume "\<exists>tenant. migrating env lib obj tenant w s st'"
  then show ?thesis unfolding migrating_def by blast
qed

theorem migration_loses_nothing_witness:
  "objects_kept memory_obj legacy_objects (ms_objects (snd legacy_run)) \<and>
   (\<exists>r' tenant. find_row rp_id ''i1'' (w_raw (ms_world (snd legacy_run))) = Some r' \<and>
      row_safe example_store memory_s3 memory_obj tenant legacy_world (ms_objects (snd legacy_run)) legacy_row r')"
proof -
  have f: "find_row rp_id ''i1'' (w_raw legacy_world) = Some legacy_row"
    by (simp add: legacy_world_def find_row_def legacy_row_def)
  have run: "run_raw_payload_migration example_store memory_s3 False 100 command_callbacks
     (legacy_world, [], legacy_objects, []) = (fst legacy_run, snd legacy_run)" by (simp add: legacy_run_def)
  show ?thesis using migration_loses_nothing [OF memory_laws legacy_ids run] f by blast
qed

subsection \<open>Once is enough\<close>

definition usable_bucket :: "store_env \<Rightarrow> bool" where
  "usable_bucket env = (se_bucket env \<noteq> [] \<and> CHR ''/'' \<notin> set (se_bucket env))"

lemma classify_migrated:
  assumes "usable_bucket env" "rp_storage_uri r = object_uri env (tenant_key tenant (expected_logical_key pl r))"
  shows "\<exists>k. classify env tenant pl r = (ALREADY_MIGRATED, k)"
proof -
  have "parse_uri env (rp_storage_uri r) = Inr (se_bucket env, tenant_key tenant (expected_logical_key pl r))"
    unfolding assms(2) using assms(1) by (intro parse_object_uri) (auto simp: usable_bucket_def tenant_key_def)
  then show ?thesis by (simp add: classify_def Let_def)
qed

text \<open>\<open>r\<close>'s row is where it should be.\<close>

definition migrated_in :: "store_env \<Rightarrow> uuid \<Rightarrow> uuid \<Rightarrow> raw_payload_record \<Rightarrow> world \<Rightarrow> bool" where
  "migrated_in env tenant pl r w =
     (\<exists>r' k. find_row rp_id (rp_id r) (w_raw w) = Some r' \<and> rp_run r' = rp_run r \<and>
        classify env tenant pl r' = (ALREADY_MIGRATED, k))"

lemma migrate_record_done:
  assumes laws: "s3_laws lib obj" and bucket: "usable_bucket env" and known: "tenant_known env tenant st"
    and m: "migrate_record env lib False tenant (pl, r) st = (Inr u, st')"
    and none: "problems_counted (ms_result st') = problems_counted (ms_result st)"
    and row: "find_row rp_id (rp_id r) (w_raw (ms_world st)) = Some r"
  shows "migrated_in env tenant pl r (ms_world st') \<and> tenant_known env tenant st' \<and>
    (\<forall>i. i \<noteq> rp_id r \<longrightarrow> find_row rp_id i (w_raw (ms_world st')) = find_row rp_id i (w_raw (ms_world st)))"
  using m
proof (cases rule: migrate_record_cases)
  case (already k)
  with row known show ?thesis by (auto simp: migrated_in_def tenant_known_def)
next
  case (moved c key data ct ct' uri w1)
  from put_effect [OF laws known moved(6)] have put: "tenant_known env tenant st'"
    "uri = object_uri env (tenant_key tenant (expected_logical_key pl r))" by auto
  have find: "find_row rp_id i (w_raw (ms_world st')) = (if i = rp_id r
      then Some (r\<lparr>rp_storage_uri := uri, rp_updated_at := w_clock (ms_world st)\<rparr>)
      else find_row rp_id i (w_raw (ms_world st)))" for i
    using save_raw_find [OF moved(7), of i] moved(8) row by (simp add: copy_uri_def)
  let ?r' = "r\<lparr>rp_storage_uri := uri, rp_updated_at := w_clock (ms_world st)\<rparr>"
  have "\<exists>k. classify env tenant pl ?r' = (ALREADY_MIGRATED, k)"
    by (rule classify_migrated [OF bucket]) (simp add: put(2) expected_logical_key_def)
  with find put(1) show ?thesis by (auto simp: migrated_in_def)
next
  case problem
  with none show ?thesis by linarith
next
  case (failed e)
  then show ?thesis by blast
next
  case ready
  then show ?thesis by blast
qed

lemma migrate_record_problems_mono:
  assumes "migrate_record env lib dry_run tenant (pl, r) st = (Inr u, st')"
  shows "problems_counted (ms_result st) \<le> problems_counted (ms_result st')"
  using assms by (cases rule: migrate_record_cases) simp_all

text \<open>A cancellation leaves a mark \<open>Q\<close> in the job, which nothing removes.\<close>

definition cancel_marks :: "'j callbacks \<Rightarrow> ('j \<Rightarrow> bool) \<Rightarrow> bool" where
  "cancel_marks cb Q =
     ((\<forall>j. fst (is_cancelled cb j) = Inr True \<longrightarrow> Q (snd (is_cancelled cb j))) \<and>
      (\<forall>j. Q j \<longrightarrow> Q (snd (is_cancelled cb j))) \<and> (\<forall>res j. Q j \<longrightarrow> Q (snd (on_progress cb res j))))"

lemma report_marks:
  "cancel_marks cb Q \<Longrightarrow> report cb st = (z, st') \<Longrightarrow> Q (ms_job st) \<Longrightarrow> Q (ms_job st')"
  by (simp add: cancel_marks_def report_job)

text \<open>The loop when no mark is left and no callback raises: every record is handled.\<close>

lemma migrate_records_Cons:
  assumes "migrate_records env lib dry_run n cb tenant (pr # rs) since st = (Inr u, st')"
    and marks: "cancel_marks cb Q" and unmarked: "\<not> Q (ms_job st')"
  obtains st1 st2 k v where "migrate_record env lib dry_run tenant pr st = (Inr v, st1)"
    "ms_world st2 = ms_world st1" "stored st2 = stored st1" "ms_result st2 = ms_result st1"
    "migrate_records env lib dry_run n cb tenant rs k st2 = (Inr u, st')"
proof -
  obtain y st1 where m: "migrate_record env lib dry_run tenant pr st = (y, st1)" by fastforce
  obtain v where y: "y = Inr v" using assms(1) m by (cases y) auto
  obtain z st2 where rep: "report cb st1 = (z, st2)" by fastforce
  obtain b j where c: "is_cancelled cb (ms_job st2) = (b, j)" by fastforce
  show ?thesis
  proof (cases "n \<le> Suc since")
    case True
    have z: "z = Inr ()" using assms(1) m y rep True by (cases z) auto
    have "b \<noteq> Inr True"
    proof
      assume b: "b = Inr True"
      with assms(1) m y rep True c z have "st' = st2\<lparr>ms_job := j\<rparr>" by simp
      moreover have "Q j" using marks c b unfolding cancel_marks_def by (metis fst_conv snd_conv)
      ultimately show False using unmarked by simp
    qed
    then have b: "b = Inr False" using assms(1) m y rep True c z by (cases b) (auto split: bool.splits)
    show ?thesis
      by (rule that [of v st1 "st2\<lparr>ms_job := j\<rparr>" 0]) (use report_frame [OF rep] assms(1) m y rep True c z b in simp_all)
  next
    case False
    show ?thesis by (rule that [of v st1 st1 "Suc since"]) (use assms(1) m y False in simp_all)
  qed
qed

lemma migrate_records_problems_mono:
  assumes "migrate_records env lib dry_run n cb tenant rs since st = (Inr u, st')"
    and "cancel_marks cb Q" "\<not> Q (ms_job st')"
  shows "problems_counted (ms_result st) \<le> problems_counted (ms_result st')"
  using assms(1)
proof (induction rs arbitrary: since st)
  case (Cons pr rs)
  obtain pl r where pr: "pr = (pl, r)" by fastforce
  from Cons.prems assms(2,3) show ?case
  proof (rule migrate_records_Cons)
    fix st1 st2 k v
    assume "migrate_record env lib dry_run tenant pr st = (Inr v, st1)" "ms_result st2 = ms_result st1"
      "migrate_records env lib dry_run n cb tenant rs k st2 = (Inr u, st')"
    with migrate_record_problems_mono [of env lib dry_run tenant pl r st v st1] Cons.IH [of k st2] pr
    show ?case by simp
  qed
qed simp

lemma migrate_records_done:
  assumes laws: "s3_laws lib obj" and bucket: "usable_bucket env"
    and nc: "cancel_marks cb Q" "\<not> Q (ms_job st')"
    and "migrate_records env lib False n cb tenant rs since st = (Inr u, st')"
    and "problems_counted (ms_result st') = 0" and "tenant_known env tenant st"
    and "distinct (map (rp_id \<circ> snd) rs)"
    and "\<And>pl r. (pl, r) \<in> set rs \<Longrightarrow> find_row rp_id (rp_id r) (w_raw (ms_world st)) = Some r"
  shows "(\<forall>pl r. (pl, r) \<in> set rs \<longrightarrow> migrated_in env tenant pl r (ms_world st')) \<and>
    (\<forall>i. i \<notin> (rp_id \<circ> snd) ` set rs \<longrightarrow> find_row rp_id i (w_raw (ms_world st')) = find_row rp_id i (w_raw (ms_world st)))"
  using assms(5-)
proof (induction rs arbitrary: since st)
  case (Cons pr rs)
  obtain pl r where pr: "pr = (pl, r)" by fastforce
  from Cons.prems(1) nc show ?case
  proof (rule migrate_records_Cons)
    fix st1 st2 k v
    assume m: "migrate_record env lib False tenant pr st = (Inr v, st1)"
      and same: "ms_world st2 = ms_world st1" "stored st2 = stored st1" "ms_result st2 = ms_result st1"
      and rest: "migrate_records env lib False n cb tenant rs k st2 = (Inr u, st')"
    have "problems_counted (ms_result st1) = 0"
      using migrate_records_problems_mono [OF rest nc] same(3) Cons.prems(2) by simp
    with migrate_record_problems_mono [OF m [unfolded pr]]
    have none: "problems_counted (ms_result st1) = problems_counted (ms_result st)" by simp
    note d = migrate_record_done [OF laws bucket Cons.prems(3) m [unfolded pr] none Cons.prems(5) [of pl r, unfolded pr, simplified]]
    have ids: "rp_id r \<notin> (rp_id \<circ> snd) ` set rs" "distinct (map (rp_id \<circ> snd) rs)"
      using Cons.prems(4) pr by (simp_all add: comp_def)
    have IH: "(\<forall>pl r. (pl, r) \<in> set rs \<longrightarrow> migrated_in env tenant pl r (ms_world st')) \<and>
      (\<forall>i. i \<notin> (rp_id \<circ> snd) ` set rs \<longrightarrow> find_row rp_id i (w_raw (ms_world st')) = find_row rp_id i (w_raw (ms_world st2)))"
    proof (rule Cons.IH [OF rest Cons.prems(2) _ ids(2)])
      show "tenant_known env tenant st2" using d same(2) by (simp add: tenant_known_def)
      fix pl' r' assume q: "(pl', r') \<in> set rs"
      then have "rp_id r' \<noteq> rp_id r" using ids(1) by force
      with d same(1) Cons.prems(5) [of pl' r'] q show "find_row rp_id (rp_id r') (w_raw (ms_world st2)) = Some r'" by simp
    qed
    then have "migrated_in env tenant pl r (ms_world st')"
      using d ids(1) same(1) unfolding migrated_in_def by metis
    with IH d same(1) pr show ?case by auto
  qed
qed simp

text \<open>A pass over rows that are all migrated.\<close>

lemma migrate_records_idle:
  assumes "migrate_records env lib dry_run n cb tenant rs since st = (x, st')"
    and "\<And>pl r. (pl, r) \<in> set rs \<Longrightarrow> \<exists>k. classify env tenant pl r = (ALREADY_MIGRATED, k)"
  shows "ms_world st' = ms_world st \<and> stored st' = stored st \<and>
    mr_ready (ms_result st') = mr_ready (ms_result st) \<and>
    problems_counted (ms_result st') = problems_counted (ms_result st)"
proof (rule migrate_records_relation [OF assms(1), where R = "\<lambda>a b. ms_world b = ms_world a \<and> stored b = stored a \<and>
    mr_ready (ms_result b) = mr_ready (ms_result a) \<and> problems_counted (ms_result b) = problems_counted (ms_result a)"])
  fix r a y b
  assume r: "r \<in> set rs" "migrate_record env lib dry_run tenant r a = (y, b)"
  obtain pl q where pq: "r = (pl, q)" by fastforce
  with r assms(2) obtain k where "classify env tenant pl q = (ALREADY_MIGRATED, k)" by blast
  with r(2) pq show "ms_world b = ms_world a \<and> stored b = stored a \<and>
    mr_ready (ms_result b) = mr_ready (ms_result a) \<and> problems_counted (ms_result b) = problems_counted (ms_result a)"
    by (auto simp: migrate_record_def Let_def problems_counted_def)
qed auto


text \<open>What stays through a migration whatever it meets.\<close>

definition frame_kept :: "store_env \<Rightarrow> uuid \<Rightarrow> ('s, 'j) migration_state \<Rightarrow> ('s, 'j) migration_state \<Rightarrow> bool" where
  "frame_kept env tenant st st' =
     (w_runs (ms_world st') = w_runs (ms_world st) \<and>
      map rp_id (w_raw (ms_world st')) = map rp_id (w_raw (ms_world st)) \<and>
      (tenant_known env tenant st \<longrightarrow> tenant_known env tenant st'))"

lemma migrate_record_frame:
  assumes laws: "s3_laws lib obj" and m: "migrate_record env lib dry_run tenant pr st = (x, st')"
  shows "frame_kept env tenant st st'"
proof -
  obtain pl r where pr: "pr = (pl, r)" by fastforce
  have same: "frame_kept env tenant st st'" if "ms_world st' = ms_world st" "tenant_known env tenant st \<Longrightarrow> tenant_known env tenant st'"
    using that by (simp add: frame_kept_def)
  from m [unfolded pr] show ?thesis
  proof (cases rule: migrate_record_cases)
    case (failed e)
    with same touched_effect [OF laws _ failed(3)] show ?thesis by blast
  next
    case (moved c key data ct ct' uri w)
    have "w_runs w = w_runs (ms_world st) \<and> map rp_id (w_raw w) = map rp_id (w_raw (ms_world st))"
      using moved(7) by (auto simp: save_raw_def copy_uri_def split: option.splits)
    with moved(8) put_effect [OF laws _ moved(6)] show ?thesis unfolding frame_kept_def by blast
  qed (use same in \<open>auto simp: tenant_known_def\<close>)
qed

lemma migrate_records_frame:
  assumes "s3_laws lib obj" and "migrate_records env lib dry_run n cb tenant rs since st = (x, st')"
  shows "frame_kept env tenant st st'"
proof (rule migrate_records_relation [OF assms(2)])
  show "frame_kept env tenant a b" if "migrate_record env lib dry_run tenant r a = (y, b)" for r a y b
    by (rule migrate_record_frame [OF assms(1) that])
qed (auto simp: frame_kept_def tenant_known_def)

lemma inspected_rows_distinct:
  assumes "distinct (map rp_id (w_raw w))"
  shows "distinct (map (rp_id \<circ> snd) (inspected_rows w))"
proof -
  have m: "map (rp_id \<circ> snd) (List.map_filter (\<lambda>r. map_option (\<lambda>run. (pr_pipeline_id run, r)) (get_run w (rp_run r))) rs) =
      map rp_id (filter (\<lambda>r. get_run w (rp_run r) \<noteq> None) rs)" for rs
    by (induction rs) (auto simp: List.map_filter_simps split: option.splits)
  have "distinct (map rp_id (sort_key rp_id (w_raw w)))"
    using assms by (simp add: distinct_map)
  then show ?thesis unfolding inspected_rows_def m by (rule distinct_map_filter)
qed

lemma migrated_rows_classified:
  assumes ids: "distinct (map rp_id (w_raw w))"
    and same: "w_runs w' = w_runs w" "map rp_id (w_raw w') = map rp_id (w_raw w)"
    and moved: "\<And>pl r. (pl, r) \<in> set (inspected_rows w) \<Longrightarrow> migrated_in env tenant pl r w'"
    and rest: "\<And>i. i \<notin> (rp_id \<circ> snd) ` set (inspected_rows w) \<Longrightarrow>
      find_row rp_id i (w_raw w') = find_row rp_id i (w_raw w)"
    and q: "(pl, r') \<in> set (inspected_rows w')"
  shows "\<exists>k. classify env tenant pl r' = (ALREADY_MIGRATED, k)"
proof -
  have run: "get_run w' i = get_run w i" for i using same(1) by (simp add: get_run_def)
  obtain run where r': "r' \<in> set (w_raw w')" "get_run w (rp_run r') = Some run" "pl = pr_pipeline_id run"
    using q run by (auto simp: inspected_row)
  have f': "find_row rp_id (rp_id r') (w_raw w') = Some r'"
    using find_own_row [of rp_id "w_raw w'"] ids same(2) r'(1) by simp
  have "rp_id r' \<in> rp_id ` set (w_raw w)" using r'(1) same(2) by (metis image_eqI list.set_map)
  then obtain r where r: "r \<in> set (w_raw w)" "rp_id r = rp_id r'" by auto
  have f: "find_row rp_id (rp_id r') (w_raw w) = Some r"
    using find_own_row [OF ids r(1)] r(2) by simp
  show ?thesis
  proof (cases "rp_id r' \<in> (rp_id \<circ> snd) ` set (inspected_rows w)")
    case True
    then obtain pl0 r0 where r0: "(pl0, r0) \<in> set (inspected_rows w)" "rp_id r0 = rp_id r'" by auto
    from moved [OF r0(1)] r0(2) f' obtain k where k: "rp_run r' = rp_run r0"
      "classify env tenant pl0 r' = (ALREADY_MIGRATED, k)" by (auto simp: migrated_in_def)
    moreover have "pl0 = pl" using r0(1) k(1) r'(2,3) by (auto simp: inspected_row)
    ultimately show ?thesis by blast
  next
    case False
    with rest f f' have "r' = r" by simp
    with r r'(2,3) have "(pl, r) \<in> set (inspected_rows w)" by (simp add: inspected_row)
    with False r(2) show ?thesis by force
  qed
qed

lemma tenant_uuid_known:
  "tenant_uuid env cache = (Inr tenant, cache') \<Longrightarrow> map_of cache' (se_schema env) = Some tenant"
  by (auto simp: tenant_uuid_def update_conv' split: option.splits)

lemma complete_migration:
  assumes laws: "s3_laws lib obj" and bucket: "usable_bucket env" and ids: "distinct (map rp_id (w_raw w))"
    and marks: "cancel_marks cb Q" "\<not> Q (ms_job st')"
    and run: "run_raw_payload_migration env lib False n cb (w, cache, s, j) = (Inr res, st')"
    and clean: "mr_missing res = 0" "mr_conflicts res = 0"
  obtains tenant where "tenant_uuid env (ms_cache st') = (Inr tenant, ms_cache st')"
    "\<And>pl r. (pl, r) \<in> set (inspected_rows (ms_world st')) \<Longrightarrow> \<exists>k. classify env tenant pl r = (ALREADY_MIGRATED, k)"
    "fst (tenant_uuid env cache) = Inr tenant"
  using run
proof (cases rule: run_migration_cases)
  case (ran tenant cache' y st1)
  let ?st0 = "\<lparr>ms_result = new_result, ms_world = w, ms_cache = cache', ms_objects = s, ms_job = j\<rparr>"
  have y: "y = Inr ()" and res: "mr_missing (ms_result st1) = 0" "mr_conflicts (ms_result st1) = 0"
    using ran(5) [of res] clean by simp_all
  have unmarked: "\<not> Q (ms_job st1)"
    using marks ran(5) [of res] unfolding cancel_marks_def by metis
  have known: "tenant_known env tenant ?st0"
    using tenant_uuid_known [OF ran(1)] by (simp add: tenant_known_def)
  have frame: "frame_kept env tenant ?st0 st1" by (rule migrate_records_frame [OF laws ran(2)])
  have all: "(\<forall>pl r. (pl, r) \<in> set (inspected_rows w) \<longrightarrow> migrated_in env tenant pl r (ms_world st1)) \<and>
    (\<forall>i. i \<notin> (rp_id \<circ> snd) ` set (inspected_rows w) \<longrightarrow>
       find_row rp_id i (w_raw (ms_world st1)) = find_row rp_id i (w_raw (ms_world ?st0)))"
    by (rule migrate_records_done [OF laws bucket marks(1) unmarked ran(2) [unfolded y] _ known
          inspected_rows_distinct [OF ids]])
      (use res find_own_row [OF ids] in \<open>auto simp: problems_counted_def inspected_row\<close>)
  show ?thesis
  proof (rule that)
    show "fst (tenant_uuid env cache) = Inr tenant" using ran(1) by simp
    show "tenant_uuid env (ms_cache st') = (Inr tenant, ms_cache st')"
      using frame known ran(4) by (simp add: frame_kept_def tenant_known_def tenant_uuid_def)
    fix pl r assume q: "(pl, r) \<in> set (inspected_rows (ms_world st'))"
    show "\<exists>k. classify env tenant pl r = (ALREADY_MIGRATED, k)"
      by (rule migrated_rows_classified [OF ids _ _ _ _ q]) (use all frame ran(3) in \<open>auto simp: frame_kept_def\<close>)
  qed
qed simp

text \<open>C19: Migrating once is enough. After a migration that found nothing missing and nothing in
  conflict, and that no one cancelled, every record is in its place: another pass, dry or not,
  finds each of them already migrated, and changes neither the tables nor the storage.\<close>

theorem second_migration_is_idle:
  assumes laws: "s3_laws lib obj" and bucket: "usable_bucket env" and ids: "distinct (map rp_id (w_raw w))"
    and nc: "\<And>j. fst (is_cancelled cb j) \<noteq> Inr True"
    and first: "run_raw_payload_migration env lib False n cb (w, cache, s, j) = (Inr res, st')"
    and clean: "mr_missing res = 0" "mr_conflicts res = 0"
    and second: "run_raw_payload_migration env lib dry_run n' cb' (ms_world st', ms_cache st', ms_objects st', j') = (x, st2)"
  shows "ms_world st2 = ms_world st' \<and> ms_objects st2 = ms_objects st' \<and>
    (case x of Inr res2 \<Rightarrow> mr_already res2 = mr_inspected res2 | Inl e \<Rightarrow> True)"
proof -
  have marks: "cancel_marks cb (\<lambda>j. False)" using nc by (simp add: cancel_marks_def)
  obtain tenant where t: "tenant_uuid env (ms_cache st') = (Inr tenant, ms_cache st')"
    and cls: "\<And>pl r. (pl, r) \<in> set (inspected_rows (ms_world st')) \<Longrightarrow> \<exists>k. classify env tenant pl r = (ALREADY_MIGRATED, k)"
    by (rule complete_migration [OF laws bucket ids marks _ first clean]) auto
  from second show ?thesis
  proof (cases rule: run_migration_cases)
    case (no_tenant e)
    then show ?thesis by simp
  next
    case (ran tenant2 cache2 y2 st3)
    with t have eq: "tenant2 = tenant" "cache2 = ms_cache st'" by simp_all
    note idle = migrate_records_idle [OF ran(2), unfolded eq, OF cls, simplified]
    have "mr_already res2 = mr_inspected res2" if x: "x = Inr res2" for res2
    proof -
      have y2: "y2 = Inr ()" and r2: "mr_already res2 = mr_already (ms_result st3)"
          "mr_inspected res2 = mr_inspected (ms_result st3)"
        using ran(5) [OF x] by simp_all
      have "counts_ok dry_run new_result" by (simp add: counts_ok_def new_result_def)
      with migrate_records_counts [OF ran(2) [unfolded y2]] have "counts_ok dry_run (ms_result st3)" by simp
      with idle r2 show ?thesis by (auto simp: counts_ok_def problems_counted_def new_result_def)
    qed
    with idle ran(3,4) show ?thesis by (auto split: sum.splits)
  qed
qed

theorem second_migration_is_idle_witness:
  "ms_world (snd (run_raw_payload_migration example_store memory_s3 False 100 command_callbacks
     (ms_world (snd legacy_run), ms_cache (snd legacy_run), ms_objects (snd legacy_run), []))) =
   ms_world (snd legacy_run)"
proof -
  have r: "fst legacy_run = Inr (projr (fst legacy_run))"
    using legacy_run_moves by (cases "fst legacy_run") auto
  then have run: "run_raw_payload_migration example_store memory_s3 False 100 command_callbacks
     (legacy_world, [], legacy_objects, []) = (Inr (projr (fst legacy_run)), snd legacy_run)"
    by (metis legacy_run_def prod.collapse)
  have "ms_world st2 = ms_world (snd legacy_run)"
    if "run_raw_payload_migration example_store memory_s3 False 100 command_callbacks
      (ms_world (snd legacy_run), ms_cache (snd legacy_run), ms_objects (snd legacy_run), []) = (x, st2)" for x st2
    using second_migration_is_idle [OF memory_laws _ legacy_ids _ run _ _ that] legacy_run_moves
    by (simp add: usable_bucket_def example_store_def command_callbacks_def)
  then show ?thesis by (metis prod.collapse)
qed

end
