(* ===== verification/MigrationJobs.thy ===== *)
theory MigrationJobs
  imports Migration
begin

text \<open>
  Migration jobs, in the public schema: \<^verbatim>\<open>apps/opsui/models.py\<close>, the lifecycle of
  \<^verbatim>\<open>apps/opsui/services.py\<close> and the Celery task of \<^verbatim>\<open>apps/opsui/tasks.py\<close>. Other web processes
  and workers commit to the same tables between the transactions of an operation: they are the
  argument \<open>others\<close>, which says what they did before its n-th transaction.
\<close>

subsection \<open>The public schema\<close>

datatype job_status = JPENDING | JRUNNING | JSUCCEEDED | JPARTIALLY_FAILED | JFAILED | JCANCELLED

fun job_status_display :: "job_status \<Rightarrow> string" where
  "job_status_display JPENDING = ''Pending''"
| "job_status_display JRUNNING = ''Running''"
| "job_status_display JSUCCEEDED = ''Succeeded''"
| "job_status_display JPARTIALLY_FAILED = ''Partially failed''"
| "job_status_display JFAILED = ''Failed''"
| "job_status_display JCANCELLED = ''Cancelled''"

definition job_active :: "job_status \<Rightarrow> bool" where
  "job_active s = (s \<in> {JPENDING, JRUNNING})"

definition job_terminal :: "job_status \<Rightarrow> bool" where
  "job_terminal s = (s \<in> {JSUCCEEDED, JPARTIALLY_FAILED, JFAILED, JCANCELLED})"

lemma job_terminal_iff: "job_terminal s \<longleftrightarrow> \<not> job_active s"
  by (cases s) (simp_all add: job_terminal_def job_active_def)

record organization =
  og_id :: int
  og_name :: string
  og_schema_name :: string
  og_tenant_uuid :: uuid

datatype role = OWNER | ADMIN | ENGINEER | ANALYST

record membership =
  mb_user :: int
  mb_organization :: int
  mb_role :: role

text \<open>\<^verbatim>\<open>RawPayloadMigrationJob\<close>; its nine counts and its sample of problems are the fields of a
  result.\<close>

record migration_job =
  mj_id :: uuid
  mj_organization :: int
  mj_initiated_by :: "int option"
  mj_dry_run :: bool
  mj_status :: job_status
  mj_celery_task_id :: "string option"
  mj_cancel_requested :: bool
  mj_started_at :: "timestamp option"
  mj_finished_at :: "timestamp option"
  mj_result :: migration_result
  mj_error_message :: "string option"
  mj_updated_at :: timestamp

text \<open>The tables, the clock in seconds, the number of identifiers drawn, and the broker's queue.
  New rows come last, so the order by \<^verbatim>\<open>-created_at\<close> is the reverse of the list.\<close>

record public =
  pb_orgs :: "organization list"
  pb_memberships :: "membership list"
  pb_jobs :: "migration_job list"
  pb_clock :: timestamp
  pb_drawn :: nat
  pb_queue :: "uuid list"

definition get_job :: "public \<Rightarrow> uuid \<Rightarrow> migration_job option" where
  "get_job p i = find_row mj_id i (pb_jobs p)"

definition get_org :: "public \<Rightarrow> int \<Rightarrow> organization option" where
  "get_org p i = find_row og_id i (pb_orgs p)"

definition does_not_exist :: "string \<Rightarrow> exn" where
  "does_not_exist model = PyExn OtherException (model @ '' matching query does not exist.'')"

definition active_job_of :: "int \<Rightarrow> migration_job \<Rightarrow> bool" where
  "active_job_of org j = (mj_organization j = org \<and> job_active (mj_status j))"

text \<open>The unique constraint \<^verbatim>\<open>one_active_raw_payload_migration_job_per_org\<close>, checked on each write.\<close>

definition violates_one_active :: "migration_job \<Rightarrow> migration_job list \<Rightarrow> bool" where
  "violates_one_active j rows =
     (job_active (mj_status j) \<and>
      list_ex (\<lambda>r. mj_id r \<noteq> mj_id j \<and> active_job_of (mj_organization j) r) rows)"

definition integrity_error :: exn where
  "integrity_error = PyExn DatabaseError
     ''duplicate key value violates unique constraint \"one_active_raw_payload_migration_job_per_org\"''"

definition create_job :: "(nat \<Rightarrow> uuid) \<Rightarrow> int \<Rightarrow> int option \<Rightarrow> bool \<Rightarrow> public \<Rightarrow> exn + migration_job \<times> public" where
  "create_job ids org initiated_by dry_run p =
     (let j = \<lparr>mj_id = ids (pb_drawn p), mj_organization = org, mj_initiated_by = initiated_by,
               mj_dry_run = dry_run, mj_status = JPENDING, mj_celery_task_id = None, mj_cancel_requested = False,
               mj_started_at = None, mj_finished_at = None, mj_result = new_result, mj_error_message = None,
               mj_updated_at = pb_clock p\<rparr>
      in if violates_one_active j (pb_jobs p) then Inl integrity_error
         else Inr (j, p\<lparr>pb_jobs := pb_jobs p @ [j], pb_drawn := pb_drawn p + 1\<rparr>))"

text \<open>\<^verbatim>\<open>save(update_fields=[..., "updated_at"])\<close> of a job in memory.\<close>

definition save_job ::
  "(migration_job \<Rightarrow> migration_job \<Rightarrow> migration_job) \<Rightarrow> migration_job \<Rightarrow> public \<Rightarrow> exn + migration_job \<times> public" where
  "save_job copy job p =
     (case get_job p (mj_id job) of
        None \<Rightarrow> Inl (PyExn DatabaseError ''Save with update_fields did not affect any rows.'')
      | Some row \<Rightarrow>
          if violates_one_active (copy job row) (pb_jobs p) then Inl integrity_error
          else Inr (job\<lparr>mj_updated_at := pb_clock p\<rparr>,
                    p\<lparr>pb_jobs := update_row mj_id (mj_id job)
                        (\<lambda>row. (copy job row)\<lparr>mj_updated_at := pb_clock p\<rparr>) (pb_jobs p)\<rparr>))"

subsection \<open>The lifecycle\<close>

definition get_active_job :: "int \<Rightarrow> public \<Rightarrow> migration_job option" where
  "get_active_job org p = find (active_job_of org) (rev (pb_jobs p))"

definition latest_job :: "int \<Rightarrow> public \<Rightarrow> migration_job option" where
  "latest_job org p = find (\<lambda>j. mj_organization j = org) (rev (pb_jobs p))"

definition start_migration_job ::
  "(nat \<Rightarrow> uuid) \<Rightarrow> (nat \<Rightarrow> public \<Rightarrow> public) \<Rightarrow> int \<Rightarrow> int option \<Rightarrow> bool \<Rightarrow> public \<Rightarrow>
   (exn + migration_job \<times> bool) \<times> public" where
  "start_migration_job ids others org initiated_by dry_run p =
     (case get_active_job org p of
        Some active \<Rightarrow> (Inr (active, False), p)
      | None \<Rightarrow>
          (let p1 = others 0 p in
           case create_job ids org initiated_by dry_run p1 of
             Inr (job, p2) \<Rightarrow> (Inr (job, True), p2)
           | Inl e \<Rightarrow>
               (let p2 = others 1 p1 in
                case get_active_job org p2 of
                  Some existing \<Rightarrow> (Inr (existing, False), p2)
                | None \<Rightarrow> (Inl e, p2))))"

definition STALE_JOB_THRESHOLD :: nat where
  "STALE_JOB_THRESHOLD = 15 * 60"

definition is_stale :: "timestamp \<Rightarrow> migration_job \<Rightarrow> bool" where
  "is_stale now j = (mj_status j = JRUNNING \<and> now > mj_updated_at j + STALE_JOB_THRESHOLD)"

definition copy_superseded :: "migration_job \<Rightarrow> migration_job \<Rightarrow> migration_job" where
  "copy_superseded job row = row\<lparr>mj_status := mj_status job, mj_error_message := mj_error_message job,
     mj_finished_at := mj_finished_at job\<rparr>"

definition superseded_text :: string where
  "superseded_text = ''marked cancelled: appeared stalled (no progress for longer than '' @
     ''the configured staleness threshold) and was superseded by a manual retry''"

definition supersede :: "migration_job \<Rightarrow> migration_job" where
  "supersede job = job\<lparr>mj_status := JCANCELLED, mj_error_message := Some superseded_text,
     mj_finished_at := Some (mj_updated_at job)\<rparr>"

text \<open>The job is the row that the view has read.\<close>

definition retry_migration_job ::
  "(nat \<Rightarrow> uuid) \<Rightarrow> (nat \<Rightarrow> public \<Rightarrow> public) \<Rightarrow> migration_job \<Rightarrow> int option \<Rightarrow> public \<Rightarrow>
   (exn + migration_job \<times> bool) \<times> public" where
  "retry_migration_job ids others job initiated_by p =
     (if mj_status job = JRUNNING
      then if \<not> is_stale (pb_clock p) job
           then (Inl (configuration_error (''migration job '' @ mj_id job @
                  '' is still running; wait for it to finish or cancel it'')), p)
           else (case save_job copy_superseded (supersede job) p of
                   Inl e \<Rightarrow> (Inl e, p)
                 | Inr (job', p') \<Rightarrow>
                     start_migration_job ids others (mj_organization job) initiated_by (mj_dry_run job) p')
      else start_migration_job ids others (mj_organization job) initiated_by (mj_dry_run job) p)"

definition copy_cancel :: "migration_job \<Rightarrow> migration_job \<Rightarrow> migration_job" where
  "copy_cancel job row = row\<lparr>mj_cancel_requested := mj_cancel_requested job\<rparr>"

definition request_cancel :: "migration_job \<Rightarrow> public \<Rightarrow> (exn + migration_job) \<times> public" where
  "request_cancel job p =
     (if mj_status job \<notin> {JPENDING, JRUNNING}
      then (Inl (configuration_error (''migration job '' @ mj_id job @ '' is not running; cannot cancel it'')), p)
      else (case save_job copy_cancel (job\<lparr>mj_cancel_requested := True\<rparr>) p of
              Inl e \<Rightarrow> (Inl e, p)
            | Inr (job', p') \<Rightarrow> (Inr job', p')))"

subsection \<open>The task\<close>

definition copy_started :: "migration_job \<Rightarrow> migration_job \<Rightarrow> migration_job" where
  "copy_started job row = row\<lparr>mj_status := mj_status job, mj_celery_task_id := mj_celery_task_id job,
     mj_started_at := mj_started_at job\<rparr>"

definition copy_result :: "migration_job \<Rightarrow> migration_job \<Rightarrow> migration_job" where
  "copy_result job row = row\<lparr>mj_result := mj_result job\<rparr>"

definition copy_job_failed :: "migration_job \<Rightarrow> migration_job \<Rightarrow> migration_job" where
  "copy_job_failed job row = row\<lparr>mj_status := mj_status job, mj_error_message := mj_error_message job,
     mj_finished_at := mj_finished_at job\<rparr>"

definition copy_job_finished :: "migration_job \<Rightarrow> migration_job \<Rightarrow> migration_job" where
  "copy_job_finished job row = row\<lparr>mj_status := mj_status job, mj_finished_at := mj_finished_at job\<rparr>"

definition apply_result :: "migration_job \<Rightarrow> migration_result \<Rightarrow> public \<Rightarrow> exn + migration_job \<times> public" where
  "apply_result job result p = save_job copy_result (job\<lparr>mj_result := result\<rparr>) p"

definition refresh_cancel :: "migration_job \<Rightarrow> public \<Rightarrow> exn + migration_job" where
  "refresh_cancel job p =
     (case get_job p (mj_id job) of
        None \<Rightarrow> Inl (does_not_exist ''RawPayloadMigrationJob'')
      | Some row \<Rightarrow> Inr (job\<lparr>mj_cancel_requested := mj_cancel_requested row\<rparr>))"

text \<open>The state of the callbacks: how many transactions there were, the job in memory, and the public
  tables.\<close>

type_synonym job_state = "nat \<times> migration_job \<times> public"

definition task_callbacks :: "(nat \<Rightarrow> public \<Rightarrow> public) \<Rightarrow> job_state callbacks" where
  "task_callbacks others =
     \<lparr>on_progress = (\<lambda>result st. case st of (n, job, p) \<Rightarrow>
        (case apply_result job result (others n p) of
           Inl e \<Rightarrow> (Inl e, n + 1, job\<lparr>mj_result := result\<rparr>, others n p)
         | Inr (job', p') \<Rightarrow> (Inr (), n + 1, job', p'))),
      is_cancelled = (\<lambda>st. case st of (n, job, p) \<Rightarrow>
        (case refresh_cancel job (others n p) of
           Inl e \<Rightarrow> (Inl e, n + 1, job, others n p)
         | Inr job' \<Rightarrow> (Inr (mj_cancel_requested job'), n + 1, job', others n p)))\<rparr>"

definition final_status :: "migration_job \<Rightarrow> migration_result \<Rightarrow> job_status" where
  "final_status job result =
     (if mj_cancel_requested job then JCANCELLED
      else if mj_dry_run job then JSUCCEEDED
      else if mr_missing result \<noteq> 0 \<or> mr_conflicts result \<noteq> 0 then JPARTIALLY_FAILED
      else JSUCCEEDED)"

record 's job_system =
  js_public :: public
  js_tenant :: "string \<Rightarrow> world" \<comment> \<open>the tables of each schema\<close>
  js_objects :: 's
  js_cache :: uuid_cache

definition tenant_env :: "store_env \<Rightarrow> public \<Rightarrow> string \<Rightarrow> store_env" where
  "tenant_env env p schema_name =
     env\<lparr>se_schema := schema_name, se_orgs := map (\<lambda>org. (og_schema_name org, og_tenant_uuid org)) (pb_orgs p)\<rparr>"

definition start_job :: "string option \<Rightarrow> migration_job \<Rightarrow> public \<Rightarrow> exn + migration_job \<times> public" where
  "start_job task_id job p = save_job copy_started
     (job\<lparr>mj_status := JRUNNING, mj_celery_task_id := task_id, mj_started_at := Some (pb_clock p)\<rparr>) p"

definition fail_job :: "exn \<Rightarrow> migration_job \<Rightarrow> public \<Rightarrow> exn + migration_job \<times> public" where
  "fail_job e job p = save_job copy_job_failed
     (job\<lparr>mj_status := JFAILED, mj_error_message := Some (sanitize_error_message (exn_text e)),
          mj_finished_at := Some (pb_clock p)\<rparr>) p"

definition finish_job :: "migration_result \<Rightarrow> migration_job \<Rightarrow> public \<Rightarrow> exn + migration_job \<times> public" where
  "finish_job result job p = save_job copy_job_finished
     (job\<lparr>mj_status := final_status job result, mj_finished_at := Some (pb_clock p)\<rparr>) p"

text \<open>After the migration: the result, the last look at \<^verbatim>\<open>cancel_requested\<close>, and the final status.\<close>

definition conclude_job ::
  "(nat \<Rightarrow> public \<Rightarrow> public) \<Rightarrow> (exn + migration_result) \<Rightarrow> job_state \<Rightarrow> (exn + unit) \<times> public" where
  "conclude_job others outcome st =
     (case st of (n, job, p) \<Rightarrow>
      (case outcome of
         Inl e \<Rightarrow> (case fail_job e job (others n p) of Inl e' \<Rightarrow> (Inl e', others n p) | Inr (_, p') \<Rightarrow> (Inr (), p'))
       | Inr result \<Rightarrow>
           (case apply_result job result (others n p) of
              Inl e' \<Rightarrow> (Inl e', others n p)
            | Inr (job1, p1) \<Rightarrow>
                (let p2 = others (n + 1) p1 in
                 case refresh_cancel job1 p2 of
                   Inl e' \<Rightarrow> (Inl e', p2)
                 | Inr job2 \<Rightarrow>
                     (let p3 = others (n + 2) p2 in
                      case finish_job result job2 p3 of Inl e' \<Rightarrow> (Inl e', p3) | Inr (_, p') \<Rightarrow> (Inr (), p'))))))"

definition run_raw_payload_migration_task ::
  "store_env \<Rightarrow> 's s3_lib \<Rightarrow> (nat \<Rightarrow> public \<Rightarrow> public) \<Rightarrow> uuid \<Rightarrow> string option \<Rightarrow> 's job_system \<Rightarrow>
   (exn + unit) \<times> 's job_system" where
  "run_raw_payload_migration_task env lib others job_id task_id sys =
     (case get_job (js_public sys) job_id of
        None \<Rightarrow> (Inl (does_not_exist ''RawPayloadMigrationJob''), sys)
      | Some job \<Rightarrow>
          (case get_org (js_public sys) (mj_organization job) of
             None \<Rightarrow> (Inl (does_not_exist ''Organization''), sys)
           | Some org \<Rightarrow>
               (let schema_name = og_schema_name org; p0 = others 0 (js_public sys) in
                case start_job task_id job p0 of
                  Inl e \<Rightarrow> (Inl e, sys\<lparr>js_public := p0\<rparr>)
                | Inr (job1, p1) \<Rightarrow>
                    (case run_raw_payload_migration (tenant_env env p1 schema_name) lib (mj_dry_run job1)
                            MIGRATION_BATCH_SIZE (task_callbacks others)
                            (js_tenant sys schema_name, js_cache sys, js_objects sys, (1, job1, p1)) of
                       (outcome, st) \<Rightarrow>
                         (case conclude_job others outcome (ms_job st) of
                            (r, p') \<Rightarrow> (r, sys\<lparr>js_public := p',
                               js_tenant := (js_tenant sys)(schema_name := ms_world st),
                               js_objects := ms_objects st, js_cache := ms_cache st\<rparr>))))))"

subsection \<open>Transactions on the public tables\<close>

definition job_writes :: "(migration_job \<Rightarrow> migration_job \<Rightarrow> migration_job) set" where
  "job_writes = {copy_superseded, copy_cancel, copy_started, copy_result, copy_job_failed, copy_job_finished}"

lemmas job_write_defs = job_writes_def copy_superseded_def copy_cancel_def copy_started_def copy_result_def
  copy_job_failed_def copy_job_finished_def

text \<open>One committed transaction: a new job, a save of some process's copy of a job, whatever that copy
  says, or something that leaves the jobs alone.\<close>

inductive job_step :: "(nat \<Rightarrow> uuid) \<Rightarrow> public \<Rightarrow> public \<Rightarrow> bool" for ids where
  created: "create_job ids org initiated_by dry_run p = Inr (j, p') \<Longrightarrow> job_step ids p p'"
| written: "save_job copy job p = Inr (j, p') \<Longrightarrow> copy \<in> job_writes \<Longrightarrow> job_step ids p p'"
| elsewhere: "pb_jobs p' = pb_jobs p \<Longrightarrow> pb_drawn p \<le> pb_drawn p' \<Longrightarrow> job_step ids p p'"

inductive_cases job_stepE: "job_step ids p p'"

abbreviation job_steps :: "(nat \<Rightarrow> uuid) \<Rightarrow> public \<Rightarrow> public \<Rightarrow> bool" where
  "job_steps ids \<equiv> (job_step ids)\<^sup>*\<^sup>*"

text \<open>What other processes may do between the transactions of an operation: any transactions.\<close>

definition transactions :: "(nat \<Rightarrow> uuid) \<Rightarrow> (nat \<Rightarrow> public \<Rightarrow> public) \<Rightarrow> bool" where
  "transactions ids others = (\<forall>n p. job_steps ids p (others n p))"

definition jobs_ok :: "(nat \<Rightarrow> uuid) \<Rightarrow> public \<Rightarrow> bool" where
  "jobs_ok ids p =
     (distinct (map mj_id (pb_jobs p)) \<and> (\<forall>j \<in> set (pb_jobs p). \<exists>n < pb_drawn p. mj_id j = ids n) \<and>
      (\<forall>a \<in> set (pb_jobs p). \<forall>b \<in> set (pb_jobs p). job_active (mj_status a) \<longrightarrow> job_active (mj_status b) \<longrightarrow>
         mj_organization a = mj_organization b \<longrightarrow> mj_id a = mj_id b))"

lemma job_writes_members [simp]:
  "copy_superseded \<in> job_writes" "copy_cancel \<in> job_writes" "copy_started \<in> job_writes" "copy_result \<in> job_writes"
  "copy_job_failed \<in> job_writes" "copy_job_finished \<in> job_writes"
  by (simp_all add: job_writes_def)

lemma job_write_frame:
  "copy \<in> job_writes \<Longrightarrow> mj_id (copy job row) = mj_id row \<and> mj_organization (copy job row) = mj_organization row \<and>
     mj_dry_run (copy job row) = mj_dry_run row \<and> mj_initiated_by (copy job row) = mj_initiated_by row"
  by (auto simp: job_write_defs)

lemma violates_iff:
  "violates_one_active j rows \<longleftrightarrow> job_active (mj_status j) \<and>
     (\<exists>r \<in> set rows. mj_id r \<noteq> mj_id j \<and> mj_organization r = mj_organization j \<and> job_active (mj_status r))"
  by (auto simp: violates_one_active_def list_ex_iff active_job_of_def)

lemma get_job_in: "get_job p i = Some j \<Longrightarrow> j \<in> set (pb_jobs p) \<and> mj_id j = i"
  using find_row_key by (fastforce simp: get_job_def)

lemma create_job_ok:
  assumes "inj ids" "jobs_ok ids p" "create_job ids org u d p = Inr (j, p')"
  shows "jobs_ok ids p'"
proof -
  from assms(3) have j: "mj_id j = ids (pb_drawn p)" "\<not> violates_one_active j (pb_jobs p)"
    "p' = p\<lparr>pb_jobs := pb_jobs p @ [j], pb_drawn := pb_drawn p + 1\<rparr>"
    by (auto simp: create_job_def Let_def split: if_splits)
  have fresh: "mj_id r \<noteq> mj_id j" if "r \<in> set (pb_jobs p)" for r
    using assms(1,2) that j(1) unfolding jobs_ok_def by (metis injD less_irrefl)
  have old: "distinct (map mj_id (pb_jobs p))" "\<forall>r \<in> set (pb_jobs p). \<exists>n < pb_drawn p. mj_id r = ids n"
    "\<forall>a \<in> set (pb_jobs p). \<forall>b \<in> set (pb_jobs p). job_active (mj_status a) \<longrightarrow> job_active (mj_status b) \<longrightarrow>
         mj_organization a = mj_organization b \<longrightarrow> mj_id a = mj_id b"
    using assms(2) unfolding jobs_ok_def by blast+
  have one: "mj_id r = mj_id j"
    if "r \<in> set (pb_jobs p)" "job_active (mj_status r)" "job_active (mj_status j)" "mj_organization r = mj_organization j" for r
    using j(2) that unfolding violates_iff by blast
  show ?thesis
    unfolding jobs_ok_def j(3)
  proof (intro conjI)
    show "distinct (map mj_id (pb_jobs (p\<lparr>pb_jobs := pb_jobs p @ [j], pb_drawn := pb_drawn p + 1\<rparr>)))"
      using old(1) by (auto dest: fresh)
    show "\<forall>r \<in> set (pb_jobs (p\<lparr>pb_jobs := pb_jobs p @ [j], pb_drawn := pb_drawn p + 1\<rparr>)).
        \<exists>n < pb_drawn (p\<lparr>pb_jobs := pb_jobs p @ [j], pb_drawn := pb_drawn p + 1\<rparr>). mj_id r = ids n"
      using old(2) j(1) by (auto intro: less_SucI)
    show "\<forall>a \<in> set (pb_jobs (p\<lparr>pb_jobs := pb_jobs p @ [j], pb_drawn := pb_drawn p + 1\<rparr>)).
        \<forall>b \<in> set (pb_jobs (p\<lparr>pb_jobs := pb_jobs p @ [j], pb_drawn := pb_drawn p + 1\<rparr>)).
          job_active (mj_status a) \<longrightarrow> job_active (mj_status b) \<longrightarrow> mj_organization a = mj_organization b \<longrightarrow>
          mj_id a = mj_id b"
    proof (intro ballI impI)
      fix a b
      assume "a \<in> set (pb_jobs (p\<lparr>pb_jobs := pb_jobs p @ [j], pb_drawn := pb_drawn p + 1\<rparr>))"
        "b \<in> set (pb_jobs (p\<lparr>pb_jobs := pb_jobs p @ [j], pb_drawn := pb_drawn p + 1\<rparr>))"
        and ab: "job_active (mj_status a)" "job_active (mj_status b)" "mj_organization a = mj_organization b"
      then consider "a \<in> set (pb_jobs p)" "b \<in> set (pb_jobs p)" | "a = j" "b \<in> set (pb_jobs p)"
        | "b = j" "a \<in> set (pb_jobs p)" | "a = j" "b = j" by auto
      then show "mj_id a = mj_id b"
      proof cases
        case 1
        with old(3) ab show ?thesis by blast
      next
        case 2
        with one [of b] ab show ?thesis by simp
      next
        case 3
        with one [of a] ab show ?thesis by simp
      qed simp
    qed
  qed
qed

lemma save_job_Inr:
  assumes "save_job copy job p = Inr (j, p')"
  obtains row where "get_job p (mj_id job) = Some row" "\<not> violates_one_active (copy job row) (pb_jobs p)"
    "j = job\<lparr>mj_updated_at := pb_clock p\<rparr>"
    "p' = p\<lparr>pb_jobs := update_row mj_id (mj_id job) (\<lambda>row. (copy job row)\<lparr>mj_updated_at := pb_clock p\<rparr>) (pb_jobs p)\<rparr>"
  using assms by (auto simp: save_job_def split: option.splits if_splits)

lemma save_job_ok:
  assumes ok: "jobs_ok ids p" and copy: "copy \<in> job_writes" and saved: "save_job copy job p = Inr (j, p')"
  shows "jobs_ok ids p'"
proof -
  let ?f = "\<lambda>row. (copy job row)\<lparr>mj_updated_at := pb_clock p\<rparr>"
  note w = job_write_frame [OF copy, of job]
  from saved obtain row where row: "get_job p (mj_id job) = Some row" "\<not> violates_one_active (copy job row) (pb_jobs p)"
    and p': "p' = p\<lparr>pb_jobs := update_row mj_id (mj_id job) ?f (pb_jobs p)\<rparr>" by (rule save_job_Inr)
  have ids: "map mj_id (pb_jobs p') = map mj_id (pb_jobs p)" using w by (simp add: p')
  have row': "row \<in> set (pb_jobs p)" "mj_id row = mj_id job" using get_job_in [OF row(1)] by auto
  have old: "r \<in> set (pb_jobs p) \<and> mj_id r \<noteq> mj_id job \<or> r = ?f row" if "r \<in> set (pb_jobs p')" for r
  proof -
    from that obtain r0 where r0: "r0 \<in> set (pb_jobs p)" "r = (if mj_id r0 = mj_id job then ?f r0 else r0)"
      by (auto simp: p' in_update_row)
    moreover have "r0 = row" if "mj_id r0 = mj_id job"
      using ok row' r0(1) that unfolding jobs_ok_def by (metis distinct_map inj_onD)
    ultimately show ?thesis by auto
  qed
  have one: "mj_id a = mj_id b"
    if "a \<in> set (pb_jobs p')" "b \<in> set (pb_jobs p')" "job_active (mj_status a)" "job_active (mj_status b)"
      "mj_organization a = mj_organization b" for a b
  proof (cases "mj_id a = mj_id b")
    case False
    have new: "mj_id (?f row) = mj_id job" "mj_organization (?f row) = mj_organization (copy job row)"
      "mj_status (?f row) = mj_status (copy job row)" "mj_id (copy job row) = mj_id job" using w row'(2) by simp_all
    from old [OF that(1)] old [OF that(2)] False consider
      "a \<in> set (pb_jobs p)" "b \<in> set (pb_jobs p)" | "a = ?f row" "b \<in> set (pb_jobs p)" "mj_id b \<noteq> mj_id job"
      | "b = ?f row" "a \<in> set (pb_jobs p)" "mj_id a \<noteq> mj_id job" by auto
    then show ?thesis
    proof cases
      case 1
      with ok that show ?thesis unfolding jobs_ok_def by blast
    next
      case 2
      with that row(2) new show ?thesis by (auto simp: violates_iff)
    next
      case 3
      with that row(2) new show ?thesis by (auto simp: violates_iff)
    qed
  qed
  have "\<forall>i \<in> set (map mj_id (pb_jobs p)). \<exists>n < pb_drawn p. i = ids n" using ok by (auto simp: jobs_ok_def)
  then have "\<forall>r \<in> set (pb_jobs p'). \<exists>n < pb_drawn p'. mj_id r = ids n"
    unfolding ids [symmetric] by (auto simp: p')
  moreover have "distinct (map mj_id (pb_jobs p'))" using ok unfolding ids jobs_ok_def by blast
  ultimately show ?thesis using one unfolding jobs_ok_def by blast
qed

lemma job_step_ok: "inj ids \<Longrightarrow> job_step ids p p' \<Longrightarrow> jobs_ok ids p \<Longrightarrow> jobs_ok ids p'"
proof (elim job_stepE)
  assume "pb_jobs p' = pb_jobs p" "pb_drawn p \<le> pb_drawn p'" "jobs_ok ids p"
  then show "jobs_ok ids p'" unfolding jobs_ok_def by (metis order_less_le_trans)
qed (auto intro: create_job_ok save_job_ok)

lemma job_steps_ok: "job_steps ids p p' \<Longrightarrow> inj ids \<Longrightarrow> jobs_ok ids p \<Longrightarrow> jobs_ok ids p'"
  by (induction rule: rtranclp_induct) (auto dest: job_step_ok)

text \<open>A job stays in the table, for its organization and in its mode.\<close>

definition same_job :: "migration_job \<Rightarrow> migration_job \<Rightarrow> bool" where
  "same_job a b = (mj_id a = mj_id b \<and> mj_organization a = mj_organization b \<and> mj_dry_run a = mj_dry_run b \<and>
     mj_initiated_by a = mj_initiated_by b)"

lemma save_job_get:
  assumes "save_job copy job p = Inr (j, p')" "copy \<in> job_writes"
  shows "get_job p' i = (if i = mj_id job
      then map_option (\<lambda>row. (copy job row)\<lparr>mj_updated_at := pb_clock p\<rparr>) (get_job p i) else get_job p i)"
  using assms(1)
  by (rule save_job_Inr) (simp add: get_job_def find_update_row job_write_frame [OF assms(2)])

lemma job_step_keeps: "job_step ids p p' \<Longrightarrow> get_job p i = Some j \<Longrightarrow> \<exists>j'. get_job p' i = Some j' \<and> same_job j j'"
proof (elim job_stepE)
  fix copy job j1
  assume s: "save_job copy job p = Inr (j1, p')" "copy \<in> job_writes" and j: "get_job p i = Some j"
  show "\<exists>j'. get_job p' i = Some j' \<and> same_job j j'"
    using save_job_get [OF s] j job_write_frame [OF s(2)] by (auto simp: same_job_def)
qed (auto simp: create_job_def get_job_def find_row_append same_job_def Let_def split: if_splits)

lemma job_steps_keep:
  "job_steps ids p p' \<Longrightarrow> get_job p i = Some j \<Longrightarrow> \<exists>j'. get_job p' i = Some j' \<and> same_job j j'"
proof (induction rule: rtranclp_induct)
  case (step p1 p2)
  then show ?case using job_step_keeps unfolding same_job_def by metis
qed (simp add: same_job_def)

text \<open>Saving a copy that does not make a finished job active succeeds.\<close>

lemma save_job_succeeds:
  assumes ok: "jobs_ok ids p" and row: "get_job p (mj_id job) = Some row" and copy: "copy \<in> job_writes"
    and act: "job_active (mj_status (copy job row)) \<Longrightarrow> job_active (mj_status row)"
  obtains p' where "save_job copy job p = Inr (job\<lparr>mj_updated_at := pb_clock p\<rparr>, p')"
    "get_job p' (mj_id job) = Some ((copy job row)\<lparr>mj_updated_at := pb_clock p\<rparr>)"
proof -
  have "\<not> violates_one_active (copy job row) (pb_jobs p)"
    using ok act job_write_frame [OF copy, of job row] get_job_in [OF row] unfolding violates_iff jobs_ok_def by metis
  then obtain p' where s: "save_job copy job p = Inr (job\<lparr>mj_updated_at := pb_clock p\<rparr>, p')"
    using row by (simp add: save_job_def)
  with that save_job_get [OF s copy, of "mj_id job"] row show ?thesis by simp
qed

subsection \<open>Starting, retrying, cancelling\<close>

lemma others_step: "transactions ids others \<Longrightarrow> job_steps ids p (others n p)"
  by (simp add: transactions_def)

lemma start_is_steps:
  assumes "transactions ids others" and "start_migration_job ids others org u d p = (r, p')"
  shows "job_steps ids p p'"
proof (cases "get_active_job org p")
  case None
  note o = others_step [OF assms(1)]
  show ?thesis
  proof (cases "create_job ids org u d (others 0 p)")
    case (Inl e)
    with assms(2) None have "p' = others 1 (others 0 p)"
      by (auto simp: start_migration_job_def Let_def split: option.splits)
    with o [of p 0] o [of "others 0 p" 1] show ?thesis by simp
  next
    case (Inr jp)
    obtain j p2 where jp: "jp = (j, p2)" by fastforce
    with assms(2) None Inr have "p' = p2" by (simp add: start_migration_job_def Let_def)
    with Inr jp o [of p 0] show ?thesis by (auto intro: rtranclp.rtrancl_into_rtrancl job_step.created)
  qed
qed (use assms(2) in \<open>simp add: start_migration_job_def\<close>)

lemma retry_is_steps:
  assumes "transactions ids others" and "retry_migration_job ids others job u p = (r, p')"
  shows "job_steps ids p p'"
proof (cases "mj_status job = JRUNNING \<and> is_stale (pb_clock p) job")
  case True
  show ?thesis
  proof (cases "save_job copy_superseded (supersede job) p")
    case (Inl e)
    with assms(2) True show ?thesis by (simp add: retry_migration_job_def)
  next
    case (Inr jp)
    obtain j p1 where jp: "jp = (j, p1)" by fastforce
    have "job_step ids p p1" using Inr jp by (auto intro: job_step.written)
    moreover have "job_steps ids p1 p'"
      using start_is_steps [OF assms(1)] assms(2) True Inr jp by (auto simp: retry_migration_job_def)
    ultimately show ?thesis by (rule converse_rtranclp_into_rtranclp)
  qed
next
  case False
  with assms(2) start_is_steps [OF assms(1)] show ?thesis
    by (auto simp: retry_migration_job_def split: if_splits)
qed

lemma cancel_is_step:
  assumes "request_cancel job p = (r, p')"
  shows "job_steps ids p p'"
proof (cases "save_job copy_cancel (job\<lparr>mj_cancel_requested := True\<rparr>) p")
  case (Inr jp)
  obtain j p1 where jp: "jp = (j, p1)" by fastforce
  have "job_step ids p p1" using Inr jp by (auto intro: job_step.written)
  with assms Inr jp show ?thesis by (auto simp: request_cancel_def split: if_splits)
qed (use assms in \<open>auto simp: request_cancel_def split: if_splits\<close>)

lemma active_jobs_count:
  assumes "jobs_ok ids p"
  shows "length (filter (active_job_of org) (pb_jobs p)) \<le> 1"
proof (rule ccontr)
  assume "\<not> ?thesis"
  then obtain a b rest where l: "filter (active_job_of org) (pb_jobs p) = a # b # rest"
    by (cases "filter (active_job_of org) (pb_jobs p)"; cases "tl (filter (active_job_of org) (pb_jobs p))") auto
  have "distinct (map mj_id (filter (active_job_of org) (pb_jobs p)))"
    using assms distinct_map_filter unfolding jobs_ok_def by blast
  then have ne: "mj_id a \<noteq> mj_id b" unfolding l by simp
  have "a \<in> set (filter (active_job_of org) (pb_jobs p))" "b \<in> set (filter (active_job_of org) (pb_jobs p))"
    unfolding l by simp_all
  with assms ne show False unfolding jobs_ok_def active_job_of_def by auto
qed

lemma get_active_job_Some:
  "get_active_job org p = Some j \<Longrightarrow> j \<in> set (pb_jobs p) \<and> active_job_of org j"
  by (auto simp: get_active_job_def find_Some_iff) (metis nth_mem set_rev length_rev)

lemma get_active_job_None: "get_active_job org p = None \<longleftrightarrow> (\<forall>j \<in> set (pb_jobs p). \<not> active_job_of org j)"
  by (auto simp: get_active_job_def find_None_iff)

text \<open>With no one else at work: a job is created exactly when there is no active one.\<close>

definition undisturbed :: "nat \<Rightarrow> public \<Rightarrow> public" where
  "undisturbed n p = p"

lemma undisturbed_transactions: "transactions ids undisturbed"
  by (simp add: transactions_def undisturbed_def)

lemma start_alone:
  "start_migration_job ids undisturbed org u d p =
     (case get_active_job org p of
        Some active \<Rightarrow> (Inr (active, False), p)
      | None \<Rightarrow> (case create_job ids org u d p of Inr (j, p') \<Rightarrow> (Inr (j, True), p') | Inl e \<Rightarrow> (Inl e, p)))"
  by (auto simp: start_migration_job_def undisturbed_def Let_def split: option.splits sum.splits prod.splits)

lemma create_alone:
  assumes "get_active_job org p = None"
  shows "\<exists>j. create_job ids org u d p = Inr (j, p\<lparr>pb_jobs := pb_jobs p @ [j], pb_drawn := pb_drawn p + 1\<rparr>) \<and>
    mj_id j = ids (pb_drawn p) \<and> mj_organization j = org \<and> mj_status j = JPENDING \<and> mj_dry_run j = d \<and>
    mj_initiated_by j = u \<and> \<not> mj_cancel_requested j"
  using assms by (auto simp: create_job_def Let_def violates_iff get_active_job_None active_job_of_def)

text \<open>C20: At most one migration per organization. Whatever transactions web processes and workers
  commit, on whatever stale copies of the rows, no organization ever has two jobs that are
  pending or running.\<close>

theorem one_active_job_per_org:
  assumes "inj ids" and "jobs_ok ids p" and "job_steps ids p p'"
  shows "length (filter (active_job_of org) (pb_jobs p')) \<le> 1"
  by (rule active_jobs_count [OF job_steps_ok [OF assms(3,1,2)]])

subsection \<open>What the task leaves in the job\<close>

text \<open>The callbacks are the only ones to touch the job.\<close>

lemma migrate_record_job:
  assumes "migrate_record env lib dry_run tenant (pl, r) st = (x, st')"
  shows "ms_job st' = ms_job st"
proof -
  obtain c k where c: "classify env tenant pl r = (c, k)" by fastforce
  consider "c = ALREADY_MIGRATED" | "c \<noteq> ALREADY_MIGRATED" "k = None"
    | key where "c \<noteq> ALREADY_MIGRATED" "k = Some key" by (cases k) auto
  then show ?thesis
  proof cases
    case 1
    from assms migrate_record_already [OF c [unfolded 1], of lib dry_run st] show ?thesis by auto
  next
    case 2
    from assms migrate_record_unrecognized [OF c [unfolded 2(2)] 2(1), of lib dry_run st] show ?thesis by auto
  next
    case (3 key)
    from assms migrate_record_legacy [OF c [unfolded 3(2)] 3(1), of lib dry_run st] show ?thesis
      by (auto simp: Let_def split: sum.splits bool.splits option.splits prod.splits if_splits)
  qed
qed

definition callbacks_keep :: "'j callbacks \<Rightarrow> ('j \<Rightarrow> bool) \<Rightarrow> bool" where
  "callbacks_keep cb P =
     ((\<forall>res j. P j \<longrightarrow> P (snd (on_progress cb res j))) \<and> (\<forall>j. P j \<longrightarrow> P (snd (is_cancelled cb j))))"

lemma migrate_records_job:
  assumes "callbacks_keep cb P" and "migrate_records env lib dry_run n cb tenant rs since st = (x, st')" and "P (ms_job st)"
  shows "P (ms_job st')"
  using assms(2,3)
proof (induction rs arbitrary: since st)
  case (Cons pr rs)
  obtain pl r where pr: "pr = (pl, r)" by fastforce
  obtain y st1 where m: "migrate_record env lib dry_run tenant pr st = (y, st1)" by fastforce
  have P1: "P (ms_job st1)" using migrate_record_job [OF m [unfolded pr]] Cons.prems(2) by simp
  obtain z st2 where rep: "report cb st1 = (z, st2)" by fastforce
  have P2: "P (ms_job st2)" using assms(1) P1 report_job [OF rep] by (simp add: callbacks_keep_def)
  obtain b j where c: "is_cancelled cb (ms_job st2) = (b, j)" by fastforce
  have P3: "P j" using assms(1) P2 c unfolding callbacks_keep_def by (metis snd_conv)
  show ?case
  proof (cases y)
    case (Inl e)
    with Cons.prems(1) m P1 show ?thesis by simp
  next
    case (Inr v)
    show ?thesis
    proof (cases "n \<le> Suc since")
      case True
      show ?thesis
      proof (cases "z = Inr () \<and> b = Inr False")
        case True
        with \<open>n \<le> Suc since\<close> Cons.prems(1) m Inr rep c P3 show ?thesis
          by (intro Cons.IH [of 0 "st2\<lparr>ms_job := j\<rparr>"]) simp_all
      next
        case False
        with \<open>n \<le> Suc since\<close> Cons.prems(1) m Inr rep c have "st' = st2 \<or> st' = st2\<lparr>ms_job := j\<rparr>"
          by (cases z; cases b) (auto split: bool.splits)
        with P2 P3 show ?thesis by auto
      qed
    next
      case False
      with Cons.prems(1) m Inr P1 show ?thesis by (intro Cons.IH [of "Suc since" st1]) simp_all
    qed
  qed
qed simp

lemma run_migration_job:
  assumes keep: "callbacks_keep cb P" and "run_raw_payload_migration env lib dry_run n cb (w, cache, s, j) = (x, st')" and "P j"
  shows "P (ms_job st')"
proof -
  let ?st0 = "\<lambda>c. \<lparr>ms_result = new_result, ms_world = w, ms_cache = c, ms_objects = s, ms_job = j\<rparr>"
  obtain t cache' where t: "tenant_uuid env cache = (t, cache')" by fastforce
  show ?thesis
  proof (cases t)
    case (Inl e)
    with assms(2,3) t show ?thesis by (simp add: run_raw_payload_migration_def) (metis migration_state.select_convs(5) migration_state.update_convs(3) snd_conv)
  next
    case (Inr tenant)
    obtain y st1 where m: "migrate_records env lib dry_run n cb tenant (inspected_rows w) 0 (?st0 cache') = (y, st1)"
      by fastforce
    have P1: "P (ms_job st1)" by (rule migrate_records_job [OF keep m]) (simp add: assms(3))
    let ?res = "(ms_result st1)\<lparr>mr_skipped := mr_already (ms_result st1) +
         mr_missing (ms_result st1) + mr_conflicts (ms_result st1)\<rparr>"
    obtain z st2 where rep: "report cb (st1\<lparr>ms_result := ?res\<rparr>) = (z, st2)" by fastforce
    have P2: "P (ms_job st2)" using keep P1 report_job [OF rep] by (simp add: callbacks_keep_def)
    have "st' = st1 \<or> st' = st2"
      using assms(2) t Inr m rep by (auto simp: run_raw_payload_migration_def Let_def split: sum.splits)
    with P1 P2 show ?thesis by auto
  qed
qed

text \<open>While the task runs, it holds a copy of its job, and the tables have moved on by transactions.\<close>

definition running_from :: "(nat \<Rightarrow> uuid) \<Rightarrow> public \<Rightarrow> migration_job \<Rightarrow> job_state \<Rightarrow> bool" where
  "running_from ids p0 job0 st =
     (case st of (n, job, p) \<Rightarrow> same_job job0 job \<and> job_steps ids p0 p)"

lemma apply_result_step:
  "apply_result job res p = Inr (j, p') \<Longrightarrow> job_step ids p p' \<and> j = job\<lparr>mj_result := res, mj_updated_at := pb_clock p\<rparr>"
  unfolding apply_result_def by (frule job_step.written [OF _ job_writes_members(4)]) (auto elim!: save_job_Inr)

lemma refresh_cancel_same:
  "refresh_cancel job p = Inr j \<Longrightarrow> \<exists>b. j = job\<lparr>mj_cancel_requested := b\<rparr>"
  by (auto simp: refresh_cancel_def split: option.splits)

lemma task_callbacks_keep:
  assumes "transactions ids others"
  shows "callbacks_keep (task_callbacks others) (running_from ids p0 job0)"
  unfolding callbacks_keep_def
proof (intro conjI allI impI)
  fix res and st :: job_state
  assume r: "running_from ids p0 job0 st"
  obtain n job p where st: "st = (n, job, p)" by (metis surj_pair)
  have moved: "job_steps ids p0 (others n p)"
    using r st others_step [OF assms, of p n] by (auto simp: running_from_def intro: rtranclp_trans)
  show "running_from ids p0 job0 (snd (on_progress (task_callbacks others) res st))"
  proof (cases "apply_result job res (others n p)")
    case (Inl e)
    with r st moved show ?thesis by (simp add: task_callbacks_def running_from_def same_job_def)
  next
    case (Inr jp)
    obtain j p' where jp: "jp = (j, p')" by fastforce
    from apply_result_step [OF Inr [unfolded jp]] moved r st Inr jp show ?thesis
      by (auto simp: task_callbacks_def running_from_def same_job_def intro: rtranclp.rtrancl_into_rtrancl)
  qed
  show "running_from ids p0 job0 (snd (is_cancelled (task_callbacks others) st))"
    using r st moved refresh_cancel_same [of job "others n p"]
    by (cases "refresh_cancel job (others n p)") (auto simp: task_callbacks_def running_from_def same_job_def)
qed

text \<open>The writes that close a job succeed on any tables in which it is.\<close>

definition closed :: "public \<Rightarrow> uuid \<Rightarrow> bool" where
  "closed p i = (\<exists>row. get_job p i = Some row \<and> job_terminal (mj_status row) \<and> mj_finished_at row \<noteq> None)"

lemma same_job_id: "same_job a b \<Longrightarrow> mj_id b = mj_id a"
  by (simp add: same_job_def)

lemma fail_job_closes:
  assumes "jobs_ok ids p" "get_job p (mj_id job) = Some row"
  shows "\<exists>j p'. fail_job e job p = Inr (j, p') \<and> closed p' (mj_id job)"
proof -
  let ?job = "job\<lparr>mj_status := JFAILED, mj_error_message := Some (sanitize_error_message (exn_text e)),
          mj_finished_at := Some (pb_clock p)\<rparr>"
  have row: "get_job p (mj_id ?job) = Some row" using assms(2) by simp
  obtain p' where "save_job copy_job_failed ?job p = Inr (?job\<lparr>mj_updated_at := pb_clock p\<rparr>, p')"
    "get_job p' (mj_id ?job) = Some ((copy_job_failed ?job row)\<lparr>mj_updated_at := pb_clock p\<rparr>)"
    by (rule save_job_succeeds [OF assms(1) row job_writes_members(5)])
      (simp add: copy_job_failed_def job_active_def)
  then show ?thesis by (auto simp: fail_job_def closed_def copy_job_failed_def job_terminal_def)
qed

lemma final_status_terminal: "job_terminal (final_status job res)"
  by (simp add: final_status_def job_terminal_def)

lemma finish_job_closes:
  assumes "jobs_ok ids p" "get_job p (mj_id job) = Some row"
  shows "\<exists>j p'. finish_job res job p = Inr (j, p') \<and> closed p' (mj_id job) \<and>
    (\<exists>row'. get_job p' (mj_id job) = Some row' \<and> mj_status row' = final_status job res)"
proof -
  let ?job = "job\<lparr>mj_status := final_status job res, mj_finished_at := Some (pb_clock p)\<rparr>"
  have row: "get_job p (mj_id ?job) = Some row" using assms(2) by simp
  obtain p' where "save_job copy_job_finished ?job p = Inr (?job\<lparr>mj_updated_at := pb_clock p\<rparr>, p')"
    "get_job p' (mj_id ?job) = Some ((copy_job_finished ?job row)\<lparr>mj_updated_at := pb_clock p\<rparr>)"
    by (rule save_job_succeeds [OF assms(1) row job_writes_members(6)])
      (use final_status_terminal [of job res] in \<open>simp add: copy_job_finished_def job_terminal_iff\<close>)
  then show ?thesis
    using final_status_terminal [of job res] by (auto simp: finish_job_def closed_def copy_job_finished_def)
qed

lemma apply_result_succeeds:
  assumes "jobs_ok ids p" "get_job p (mj_id job) = Some row"
  shows "\<exists>j p'. apply_result job res p = Inr (j, p')"
proof -
  have row: "get_job p (mj_id (job\<lparr>mj_result := res\<rparr>)) = Some row" using assms(2) by simp
  show ?thesis unfolding apply_result_def
    by (rule save_job_succeeds [OF assms(1) row job_writes_members(4)]) (simp_all add: copy_result_def)
qed

lemma conclude_job_closes:
  assumes inj: "inj ids" and others: "transactions ids others" and ok: "jobs_ok ids p0"
    and row0: "get_job p0 (mj_id job0) = Some row0" and st: "running_from ids p0 job0 st"
  shows "\<exists>p'. conclude_job others outcome st = (Inr (), p') \<and> closed p' (mj_id job0) \<and>
    (\<forall>res. outcome = Inr res \<longrightarrow> (\<exists>job2 p2 row'. running_from ids p0 job0 (0, job2, p2) \<and>
       job_steps ids (snd (snd st)) p2 \<and>
       (\<exists>row2. get_job p2 (mj_id job0) = Some row2 \<and> mj_cancel_requested job2 = mj_cancel_requested row2) \<and>
       get_job p' (mj_id job0) = Some row' \<and> mj_status row' = final_status job2 res))"
proof -
  obtain n job p where eq: "st = (n, job, p)" by (metis surj_pair)
  have job: "same_job job0 job" "mj_id job = mj_id job0" and moved: "job_steps ids p0 p"
    using st eq by (auto simp: running_from_def same_job_def)
  have later: "jobs_ok ids q \<and> (\<exists>r. get_job q (mj_id job0) = Some r)" if "job_steps ids p0 q" for q
    using job_steps_ok [OF that inj ok] job_steps_keep [OF that row0] by auto
  note o = others_step [OF others]
  have m1: "job_steps ids p0 (others n p)" using moved o by (rule rtranclp_trans)
  show ?thesis
  proof (cases outcome)
    case (Inl e)
    from later [OF m1] obtain r where r: "jobs_ok ids (others n p)" "get_job (others n p) (mj_id job) = Some r"
      using job(2) by auto
    from fail_job_closes [OF r, of e] eq Inl job(2) show ?thesis by (auto simp: conclude_job_def)
  next
    case (Inr res)
    from later [OF m1] obtain r where r: "jobs_ok ids (others n p)" "get_job (others n p) (mj_id job) = Some r"
      using job(2) by auto
    from apply_result_succeeds [OF r, of res] obtain job1 p1 where a: "apply_result job res (others n p) = Inr (job1, p1)"
      by blast
    note a' = apply_result_step [OF a, of ids]
    have j1: "same_job job0 job1" "mj_id job1 = mj_id job0" using a' job by (auto simp: same_job_def)
    let ?p2 = "others (n + 1) p1"
    have m2: "job_steps ids p0 ?p2" "job_steps ids p ?p2"
      using m1 a' o [of p1 "n + 1"] o [of p n] by (auto intro: rtranclp_trans rtranclp.rtrancl_into_rtrancl)
    from later [OF m2(1)] obtain r2 where r2: "get_job ?p2 (mj_id job1) = Some r2" using j1(2) by auto
    let ?job2 = "job1\<lparr>mj_cancel_requested := mj_cancel_requested r2\<rparr>"
    have c: "refresh_cancel job1 ?p2 = Inr ?job2" using r2 by (simp add: refresh_cancel_def)
    let ?p3 = "others (n + 2) ?p2"
    have m3: "job_steps ids p0 ?p3" using m2(1) o by (rule rtranclp_trans)
    from later [OF m3] obtain r3 where r3: "jobs_ok ids ?p3" "get_job ?p3 (mj_id ?job2) = Some r3" using j1(2) by auto
    from finish_job_closes [OF r3, of res] obtain j3 p' row' where f: "finish_job res ?job2 ?p3 = Inr (j3, p')"
      "closed p' (mj_id ?job2)" "get_job p' (mj_id ?job2) = Some row'" "mj_status row' = final_status ?job2 res" by blast
    have "conclude_job others outcome st = (Inr (), p')"
      using eq Inr a c f(1) by (simp add: conclude_job_def Let_def)
    moreover have "running_from ids p0 job0 (0, ?job2, ?p2)"
      using m2(1) j1(1) by (simp add: running_from_def same_job_def)
    moreover have "get_job ?p2 (mj_id job0) = Some r2" using r2 j1(2) by simp
    moreover have "mj_cancel_requested ?job2 = mj_cancel_requested r2" by simp
    moreover have "closed p' (mj_id job0)" "get_job p' (mj_id job0) = Some row'" using f(2,3) j1(2) by simp_all
    moreover have "job_steps ids (snd (snd st)) ?p2" using m2(2) eq by simp
    ultimately show ?thesis using Inr f(4) by blast
  qed
qed

text \<open>The start: it succeeds, or the constraint rejects it, because the job was finished meanwhile and
  another one is active.\<close>

lemma start_job_cases:
  assumes ok: "jobs_ok ids p" and row: "get_job p (mj_id job) = Some row"
  obtains (started) p' where "start_job task_id job p = Inr (job\<lparr>mj_status := JRUNNING, mj_celery_task_id := task_id,
      mj_started_at := Some (pb_clock p), mj_updated_at := pb_clock p\<rparr>, p')" "job_step ids p p'"
      "get_job p' (mj_id job) = Some (row\<lparr>mj_status := JRUNNING, mj_celery_task_id := task_id,
         mj_started_at := Some (pb_clock p), mj_updated_at := pb_clock p\<rparr>)"
  | (rejected) "start_job task_id job p = Inl integrity_error" "job_terminal (mj_status row)"
proof -
  let ?job = "job\<lparr>mj_status := JRUNNING, mj_celery_task_id := task_id, mj_started_at := Some (pb_clock p)\<rparr>"
  have row': "get_job p (mj_id ?job) = Some row" using row by simp
  show ?thesis
  proof (cases "violates_one_active (copy_started ?job row) (pb_jobs p)")
    case True
    have "\<not> job_active (mj_status row)"
    proof
      assume act: "job_active (mj_status row)"
      obtain p1 where "save_job copy_started ?job p = Inr (?job\<lparr>mj_updated_at := pb_clock p\<rparr>, p1)"
        by (rule save_job_succeeds [OF ok row' job_writes_members(3) act])
      with True row' show False by (simp add: save_job_def)
    qed
    then show ?thesis by (intro rejected) (use True row' in \<open>simp_all add: start_job_def save_job_def job_terminal_iff\<close>)
  next
    case False
    then obtain p' where s: "save_job copy_started ?job p = Inr (?job\<lparr>mj_updated_at := pb_clock p\<rparr>, p')"
      using row' by (simp add: save_job_def)
    show ?thesis
    proof (rule started)
      show "job_step ids p p'" by (rule job_step.written [OF s]) simp
      show "get_job p' (mj_id job) = Some (row\<lparr>mj_status := JRUNNING, mj_celery_task_id := task_id,
         mj_started_at := Some (pb_clock p), mj_updated_at := pb_clock p\<rparr>)"
        using save_job_get [OF s, of "mj_id job"] row by (simp add: copy_started_def)
    qed (use s in \<open>simp add: start_job_def\<close>)
  qed
qed

lemma task_cases:
  fixes sys :: "'s job_system"
  assumes t: "run_raw_payload_migration_task env lib others job_id task_id sys = (r, sys')"
    and job: "get_job (js_public sys) job_id = Some job" and org: "get_org (js_public sys) (mj_organization job) = Some org"
  obtains (rejected) e where "start_job task_id job (others 0 (js_public sys)) = Inl e" "r = Inl e"
      "sys' = sys\<lparr>js_public := others 0 (js_public sys)\<rparr>"
  | (ran) job1 p1 outcome st p' where "start_job task_id job (others 0 (js_public sys)) = Inr (job1, p1)"
      "run_raw_payload_migration (tenant_env env p1 (og_schema_name org)) lib (mj_dry_run job1) MIGRATION_BATCH_SIZE
         (task_callbacks others) (js_tenant sys (og_schema_name org), js_cache sys, js_objects sys, (1, job1, p1)) =
         (outcome, st)"
      "conclude_job others outcome (ms_job st) = (r, p')"
      "sys' = sys\<lparr>js_public := p', js_tenant := (js_tenant sys)(og_schema_name org := ms_world st),
         js_objects := ms_objects st, js_cache := ms_cache st\<rparr>"
proof (cases "start_job task_id job (others 0 (js_public sys))")
  case (Inl e)
  with t job org show ?thesis
    by (intro rejected [of e]) (simp_all add: run_raw_payload_migration_task_def Let_def)
next
  case (Inr jp)
  obtain job1 p1 where jp: "jp = (job1, p1)" by fastforce
  obtain outcome st where m: "run_raw_payload_migration (tenant_env env p1 (og_schema_name org)) lib (mj_dry_run job1)
      MIGRATION_BATCH_SIZE (task_callbacks others)
      (js_tenant sys (og_schema_name org), js_cache sys, js_objects sys, (1, job1, p1)) = (outcome, st)" by fastforce
  obtain q p' where c: "conclude_job others outcome (ms_job st) = (q, p')" by fastforce
  have e: "run_raw_payload_migration_task env lib others job_id task_id sys = (q, sys\<lparr>js_public := p',
      js_tenant := (js_tenant sys)(og_schema_name org := ms_world st), js_objects := ms_objects st,
      js_cache := ms_cache st\<rparr>)"
    unfolding run_raw_payload_migration_task_def by (simp only: job org Inr jp m c option.case sum.case prod.case Let_def)
  note e = e [unfolded t]
  have "r = q" using arg_cong [OF e, of fst] by (simp only: fst_conv)
  moreover have "sys' = sys\<lparr>js_public := p', js_tenant := (js_tenant sys)(og_schema_name org := ms_world st),
         js_objects := ms_objects st, js_cache := ms_cache st\<rparr>"
    using arg_cong [OF e, of snd] by (simp only: snd_conv)
  ultimately show ?thesis using c by (intro ran [OF Inr [unfolded jp] m]) (simp_all only:)
qed

text \<open>Where a task stands when its start was committed.\<close>

lemma start_job_same: "start_job task_id job p = Inr (job1, p1) \<Longrightarrow> same_job job job1"
  unfolding start_job_def by (erule save_job_Inr) (simp add: same_job_def)

lemma task_started:
  assumes inj: "inj ids" and others: "transactions ids others" and ok: "jobs_ok ids p"
    and job: "get_job p job_id = Some job" and start: "start_job task_id job (others 0 p) = Inr (job1, p1)"
  obtains row1 where "jobs_ok ids p1" "get_job p1 (mj_id job1) = Some row1" "same_job job job1" "mj_id job1 = job_id"
proof -
  note o = others_step [OF others, of p 0]
  have id: "mj_id job = job_id" using get_job_in [OF job] by simp
  note same = start_job_same [OF start]
  have id1: "mj_id job1 = job_id" using same id by (simp add: same_job_def)
  have step: "job_step ids (others 0 p) p1" by (rule job_step.written [OF start [unfolded start_job_def]]) simp
  have ok0: "jobs_ok ids (others 0 p)" by (rule job_steps_ok [OF o inj ok])
  obtain row1 where "get_job p1 job_id = Some row1"
    using job_steps_keep [OF rtranclp.rtrancl_into_rtrancl [OF o step] job] by blast
  with id1 same job_step_ok [OF inj step ok0] that show ?thesis by blast
qed

lemma task_ran:
  assumes "transactions ids others" and "run_raw_payload_migration env lib d n (task_callbacks others)
    (w, cache, s, (k, job1, p1)) = (outcome, st)"
  shows "running_from ids p1 job1 (ms_job st)"
  by (rule run_migration_job [OF task_callbacks_keep [OF assms(1)] assms(2)]) (simp add: running_from_def same_job_def)

text \<open>C10: Every job comes to an end. Whatever the migration meets, an error of the storage, of the
  tables or of the code, and whatever other processes do to the jobs meanwhile, the invocation of
  the task leaves its job in a terminal status; it returns, except when the job had been
  finished by others and the constraint rejected its start, and then it has touched nothing.\<close>

theorem job_task_closes:
  assumes inj: "inj ids" and others: "transactions ids others" and ok: "jobs_ok ids (js_public sys)"
    and job: "get_job (js_public sys) job_id = Some job" and org: "get_org (js_public sys) (mj_organization job) = Some org"
    and t: "run_raw_payload_migration_task env lib others job_id task_id sys = (r, sys')"
  shows "(\<exists>row. get_job (js_public sys') job_id = Some row \<and> job_terminal (mj_status row)) \<and>
    (r = Inr () \<or> r = Inl integrity_error \<and> js_tenant sys' = js_tenant sys \<and> js_objects sys' = js_objects sys)"
proof -
  let ?p0 = "others 0 (js_public sys)"
  note o = others_step [OF others]
  have ok0: "jobs_ok ids ?p0" by (rule job_steps_ok [OF o inj ok])
  have id: "mj_id job = job_id" using get_job_in [OF job] by simp
  obtain row0 where row0: "get_job ?p0 (mj_id job) = Some row0"
    using job_steps_keep [OF o [of "js_public sys" 0] job] id by auto
  from t job org show ?thesis
  proof (cases rule: task_cases)
    case (rejected e)
    from ok0 row0 show ?thesis
      by (rule start_job_cases [where task_id = task_id]) (use rejected row0 id in auto)
  next
    case (ran job1 p1 outcome st p')
    obtain row1 where ok1: "jobs_ok ids p1" and row1: "get_job p1 (mj_id job1) = Some row1" and j1: "mj_id job1 = job_id"
      by (rule task_started [OF inj others ok job ran(1)])
    note st = task_ran [OF others ran(2)]
    from conclude_job_closes [OF inj others ok1 row1 st, of outcome] ran(3) j1
    show ?thesis by (auto simp: ran(4) closed_def)
  qed
qed

text \<open>The tables stay well-formed, whatever is done to them.\<close>

lemma conclude_is_steps:
  assumes others: "transactions ids others" and "conclude_job others outcome st = (r, p')"
  shows "job_steps ids (snd (snd st)) p'"
proof -
  obtain n job p where st: "st = (n, job, p)" by (metis surj_pair)
  note o = others_step [OF others]
  show ?thesis
  proof (cases outcome)
    case (Inl e)
    have "job_steps ids (others n p) p'"
    proof (cases "fail_job e job (others n p)")
      case (Inr jp)
      obtain j q where jp: "jp = (j, q)" by fastforce
      from Inr jp have "job_step ids (others n p) q"
        unfolding fail_job_def by (blast intro: job_step.written job_writes_members(5))
      with assms(2) st Inl Inr jp show ?thesis by (simp add: conclude_job_def)
    qed (use assms(2) st Inl in \<open>simp add: conclude_job_def\<close>)
    with o [of p n] st show ?thesis by simp
  next
    case (Inr res)
    note done1 = assms(2) [unfolded st Inr conclude_job_def prod.case sum.case]
    show ?thesis
    proof (cases "apply_result job res (others n p)")
      case (Inl e)
      with done1 o [of p n] st show ?thesis by simp
    next
      case (Inr jp)
      obtain job1 p1 where jp: "jp = (job1, p1)" by fastforce
      let ?p2 = "others (n + 1) p1" and ?p3 = "others (n + 2) (others (n + 1) p1)"
      have m1: "job_step ids (others n p) p1" using apply_result_step [OF Inr [unfolded jp], of ids] by blast
      have m2: "job_steps ids p ?p2"
        using o [of p n] m1 o [of p1 "n + 1"] by (meson converse_rtranclp_into_rtranclp rtranclp_trans)
      have m3: "job_steps ids p ?p3" using m2 o [of ?p2 "n + 2"] by (rule rtranclp_trans)
      show ?thesis
      proof (cases "refresh_cancel job1 ?p2")
        case (Inl e)
        with done1 Inr jp m2 st show ?thesis by (simp add: Let_def)
      next
        case ref: (Inr job2)
        show ?thesis
        proof (cases "finish_job res job2 ?p3")
          case (Inl e)
          with done1 Inr jp ref m3 st show ?thesis by (simp add: Let_def)
        next
          case fin: (Inr jq)
          obtain j3 q where jq: "jq = (j3, q)" by fastforce
          from fin jq have "job_step ids ?p3 q"
            unfolding finish_job_def by (blast intro: job_step.written job_writes_members(6))
          with done1 Inr jp ref fin jq m3 st show ?thesis by (simp add: Let_def)
        qed
      qed
    qed
  qed
qed

lemma task_is_steps:
  fixes sys :: "'s job_system"
  assumes others: "transactions ids others"
    and t: "run_raw_payload_migration_task env lib others job_id task_id sys = (r, sys')"
  shows "job_steps ids (js_public sys) (js_public sys')"
proof (cases "\<exists>job org. get_job (js_public sys) job_id = Some job \<and> get_org (js_public sys) (mj_organization job) = Some org")
  case False
  with t show ?thesis by (auto simp: run_raw_payload_migration_task_def split: option.splits)
next
  case True
  then obtain job org where job: "get_job (js_public sys) job_id = Some job"
    "get_org (js_public sys) (mj_organization job) = Some org" by blast
  note o = others_step [OF others, of "js_public sys" 0]
  from t job show ?thesis
  proof (cases rule: task_cases)
    case (rejected e)
    with o show ?thesis by simp
  next
    case (ran job1 p1 outcome st p')
    have s1: "job_step ids (others 0 (js_public sys)) p1"
      by (rule job_step.written [OF ran(1) [unfolded start_job_def]]) simp
    have s2: "job_steps ids p1 (snd (snd (ms_job st)))"
      using task_ran [OF others ran(2)] by (cases "ms_job st") (auto simp: running_from_def)
    from o s1 s2 conclude_is_steps [OF others ran(3)] have "job_steps ids (js_public sys) p'"
      by (meson converse_rtranclp_into_rtranclp rtranclp_trans)
    then show ?thesis by (simp add: ran(4))
  qed
qed

text \<open>What a task does to the organizations.\<close>

lemma env_bucket: "se_bucket (tenant_env env p n) = se_bucket env"
  by (simp add: tenant_env_def)

lemma object_uri_env: "object_uri (tenant_env env p n) = object_uri env"
  by (simp add: object_uri_def env_bucket fun_eq_iff)

lemma good_copy_env: "good_copy (tenant_env env p n) = good_copy env"
  unfolding good_copy_def verify_existing_object_def env_bucket ..

lemma row_safe_env: "row_safe (tenant_env env p n) = row_safe env"
  unfolding row_safe_def relocated_def object_uri_env good_copy_env env_bucket ..

text \<open>C18: A job works for its own organization only, and loses nothing there. The tables of every other
  organization are as they were; every object in the storage is kept; and each raw payload row of
  its own organization is still there, where it was or at the organization's own key with its payload.\<close>

theorem job_task_is_confined:
  assumes "s3_laws lib obj" and "distinct (map rp_id (w_raw (js_tenant sys (og_schema_name org))))"
    and "get_job (js_public sys) job_id = Some job" and "get_org (js_public sys) (mj_organization job) = Some org"
    and t: "run_raw_payload_migration_task env lib others job_id task_id sys = (r, sys')"
  shows "(\<forall>n. n \<noteq> og_schema_name org \<longrightarrow> js_tenant sys' n = js_tenant sys n) \<and>
    objects_kept obj (js_objects sys) (js_objects sys') \<and>
    (\<forall>i row. find_row rp_id i (w_raw (js_tenant sys (og_schema_name org))) = Some row \<longrightarrow>
       (\<exists>row' tenant. find_row rp_id i (w_raw (js_tenant sys' (og_schema_name org))) = Some row' \<and>
          row_safe env lib obj tenant (js_tenant sys (og_schema_name org)) (js_objects sys') row row'))"
  using t assms(3,4)
proof (cases rule: task_cases)
  case (rejected e)
  then show ?thesis by (auto simp: objects_kept_def row_safe_def)
next
  case (ran job1 p1 outcome st p')
  from run_migration_migrating [OF assms(1,2) ran(2)] show ?thesis
  proof
    assume "ms_world st = js_tenant sys (og_schema_name org) \<and> ms_objects st = js_objects sys"
    then show ?thesis by (auto simp: ran(4) objects_kept_def row_safe_def)
  next
    assume "\<exists>tenant. migrating (tenant_env env p1 (og_schema_name org)) lib obj tenant
      (js_tenant sys (og_schema_name org)) (js_objects sys) st"
    then obtain tenant where m: "objects_kept obj (js_objects sys) (ms_objects st)"
      "\<And>i row. find_row rp_id i (w_raw (js_tenant sys (og_schema_name org))) = Some row \<Longrightarrow>
         (\<exists>row'. find_row rp_id i (w_raw (ms_world st)) = Some row' \<and>
            row_safe env lib obj tenant (js_tenant sys (og_schema_name org)) (ms_objects st) row row')"
      unfolding migrating_def row_safe_env by blast
    then show ?thesis unfolding ran(4) by (simp; blast)
  qed
qed

text \<open>A cancellation that is requested stays requested.\<close>

definition flagged :: "uuid \<Rightarrow> public \<Rightarrow> bool" where
  "flagged i p = (\<exists>row. get_job p i = Some row \<and> mj_cancel_requested row)"

definition flags_stay :: "uuid \<Rightarrow> (nat \<Rightarrow> public \<Rightarrow> public) \<Rightarrow> bool" where
  "flags_stay i others = (\<forall>n p. flagged i p \<longrightarrow> flagged i (others n p))"

definition flag_mark :: "uuid \<Rightarrow> job_state \<Rightarrow> bool" where
  "flag_mark i st = (case st of (n, job, p) \<Rightarrow> mj_id job = i \<longrightarrow> flagged i p)"

lemma apply_result_flagged:
  "apply_result job res p = Inr (j, p') \<Longrightarrow> flagged i p \<Longrightarrow> flagged i p'"
  unfolding apply_result_def by (drule save_job_get [where i = i]) (auto simp: flagged_def copy_result_def)

lemma task_cancel_marks:
  assumes "flags_stay i others"
  shows "cancel_marks (task_callbacks others) (flag_mark i)"
  unfolding cancel_marks_def
proof (intro conjI allI impI)
  fix res and st :: job_state
  obtain n job p where st: "st = (n, job, p)" by (metis surj_pair)
  note stay = assms [unfolded flags_stay_def, rule_format, of p n]
  show "flag_mark i (snd (is_cancelled (task_callbacks others) st))"
    if "fst (is_cancelled (task_callbacks others) st) = Inr True"
    using that st by (auto simp: task_callbacks_def flag_mark_def refresh_cancel_def flagged_def split: option.splits sum.splits)
  show "flag_mark i (snd (is_cancelled (task_callbacks others) st))" if "flag_mark i st"
    using that st stay refresh_cancel_same [of job "others n p"]
    by (cases "refresh_cancel job (others n p)") (auto simp: task_callbacks_def flag_mark_def)
  show "flag_mark i (snd (on_progress (task_callbacks others) res st))" if "flag_mark i st"
  proof (cases "apply_result job res (others n p)")
    case (Inl e)
    with that st stay show ?thesis by (simp add: task_callbacks_def flag_mark_def)
  next
    case (Inr jp)
    obtain j p' where jp: "jp = (j, p')" by fastforce
    with that st stay Inr apply_result_step [of job res "others n p" j p'] apply_result_flagged [of job res "others n p" j p' i]
    show ?thesis by (auto simp: task_callbacks_def flag_mark_def)
  qed
qed

lemma conclude_flagged:
  assumes stay: "flags_stay i others" and f: "flagged i p" and i: "mj_id job = i"
    and c: "conclude_job others (Inr res) (n, job, p) = (Inr (), p')"
  shows "\<exists>row. get_job p' i = Some row \<and> mj_status row = JCANCELLED"
proof -
  from c obtain job1 p1 where a: "apply_result job res (others n p) = Inr (job1, p1)"
    by (auto simp: conclude_job_def split: sum.splits)
  note a' = apply_result_step [OF a]
  have "flagged i p1" using apply_result_flagged [OF a] stay f by (simp add: flags_stay_def)
  then obtain row where row: "get_job (others (n + 1) p1) i = Some row" "mj_cancel_requested row"
    using stay by (auto simp: flags_stay_def flagged_def)
  have i1: "mj_id job1 = i" using a' i by simp
  let ?job2 = "job1\<lparr>mj_cancel_requested := True\<rparr>"
  have r: "refresh_cancel job1 (others (n + 1) p1) = Inr ?job2" using row i1 by (simp add: refresh_cancel_def)
  let ?p3 = "others (n + 2) (others (n + 1) p1)"
  from c a r obtain j3 where fin: "finish_job res ?job2 ?p3 = Inr (j3, p')"
    by (auto simp: conclude_job_def Let_def split: sum.splits)
  then obtain row3 where "get_job ?p3 i = Some row3"
    unfolding finish_job_def by (elim save_job_Inr) (simp add: i1)
  with save_job_get [OF fin [unfolded finish_job_def], of i] show ?thesis
    by (auto simp: i1 copy_job_finished_def final_status_def)
qed

lemma conclude_failed:
  assumes "conclude_job others (Inl e) (n, job, p) = (Inr (), p')"
  shows "\<exists>row. get_job p' (mj_id job) = Some row \<and> mj_status row = JFAILED"
proof -
  from assms obtain j where f: "fail_job e job (others n p) = Inr (j, p')"
    by (auto simp: conclude_job_def split: sum.splits)
  then obtain row where "get_job (others n p) (mj_id job) = Some row"
    unfolding fail_job_def by (elim save_job_Inr) simp
  with save_job_get [OF f [unfolded fail_job_def], of "mj_id job"] show ?thesis by (auto simp: copy_job_failed_def)
qed

lemma classify_already_uri:
  "classify env tenant pl r = (ALREADY_MIGRATED, k) \<Longrightarrow>
   rp_storage_uri r = object_uri env (tenant_key tenant (expected_logical_key pl r))"
  by (auto simp: classify_def Let_def split: sum.splits prod.splits if_splits dest: parse_uri_Inr)

text \<open>An organization keeps its schema's name and its identifier: \<open>orgs\<close> are all there ever are, and the
  others at work add or remove organizations of these only.\<close>

definition org_ids :: "public \<Rightarrow> (string \<times> uuid) list" where
  "org_ids p = map (\<lambda>org. (og_schema_name org, og_tenant_uuid org)) (pb_orgs p)"

definition orgs_stay :: "(string \<times> uuid) list \<Rightarrow> (nat \<Rightarrow> public \<Rightarrow> public) \<Rightarrow> bool" where
  "orgs_stay orgs others =
     (\<forall>n p. map_of (org_ids p) \<subseteq>\<^sub>m map_of orgs \<longrightarrow> map_of (org_ids (others n p)) \<subseteq>\<^sub>m map_of orgs)"

lemma start_job_orgs: "start_job task_id job p = Inr (job1, p1) \<Longrightarrow> pb_orgs p1 = pb_orgs p"
  by (auto simp: start_job_def save_job_def Let_def split: option.splits if_splits)

lemma get_org_identifier:
  assumes "get_org p i = Some org" "distinct (map og_schema_name (pb_orgs p))" "map_of (org_ids p) \<subseteq>\<^sub>m map_of orgs"
  shows "map_of orgs (og_schema_name org) = Some (og_tenant_uuid org)"
proof -
  have "org \<in> set (pb_orgs p)" using assms(1) by (auto simp: get_org_def dest: find_row_key)
  then have "map_of (org_ids p) (og_schema_name org) = Some (og_tenant_uuid org)"
    using assms(2) by (intro map_of_is_SomeI) (auto simp: org_ids_def comp_def)
  with assms(3) show ?thesis by (auto simp: map_le_def dom_def)
qed

text \<open>C9: What a job that succeeded has done. When the task of a real migration returns and leaves the
  status succeeded, then each raw payload record of the organization is at its key under the
  organization's own identifier, whatever others did meanwhile to the public tables short of
  withdrawing a cancellation or changing an organization's identifier; the worker's cache of
  identifiers is right when it starts, as \<open>store_calls_true\<close> shows of the store's own calls.\<close>

theorem job_success_is_complete:
  assumes laws: "s3_laws lib obj" and bucket: "usable_bucket env"
    and ids: "distinct (map rp_id (w_raw (js_tenant sys (og_schema_name org))))"
    and inj: "inj ids" and others: "transactions ids others" and ok: "jobs_ok ids (js_public sys)"
    and stay: "flags_stay job_id others" "orgs_stay orgs others"
    and identifiers: "map_of (org_ids (js_public sys)) \<subseteq>\<^sub>m map_of orgs" "cache_true orgs (js_cache sys)"
      "distinct (map og_schema_name (pb_orgs (js_public sys)))"
    and job: "get_job (js_public sys) job_id = Some job" and real: "\<not> mj_dry_run job"
    and org: "get_org (js_public sys) (mj_organization job) = Some org"
    and t: "run_raw_payload_migration_task env lib others job_id task_id sys = (Inr (), sys')"
    and row: "get_job (js_public sys') job_id = Some row" "mj_status row = JSUCCEEDED"
  shows "\<forall>(pl, r) \<in> set (inspected_rows (js_tenant sys' (og_schema_name org))).
    rp_storage_uri r = object_uri env (tenant_key (og_tenant_uuid org) (expected_logical_key pl r))"
proof -
  from t job org show ?thesis
  proof (cases rule: task_cases)
    case (ran job1 p1 outcome st p')
    let ?env = "tenant_env env p1 (og_schema_name org)"
    obtain row1 where ok1: "jobs_ok ids p1" and row1: "get_job p1 (mj_id job1) = Some row1"
        and same: "same_job job job1" and id1: "mj_id job1 = job_id"
      by (rule task_started [OF inj others ok job ran(1)])
    have j1: "mj_id job1 = job_id" "\<not> mj_dry_run job1" using id1 same real by (simp_all add: same_job_def)
    note st = task_ran [OF others ran(2)]
    obtain n job2 p2 where eq: "ms_job st = (n, job2, p2)" by (metis surj_pair)
    have j2: "mj_id job2 = job_id" using st eq j1(1) by (simp add: running_from_def same_job_def)
    have row': "get_job p' job_id = Some row" using row(1) ran(4) by simp
    show ?thesis
    proof (cases outcome)
      case (Inl e)
      with conclude_failed [of others e n job2 p2 p'] ran(3) eq j2 row' row(2) show ?thesis by simp
    next
      case (Inr res)
      have unmarked: "\<not> flag_mark job_id (ms_job st)"
        using conclude_flagged [OF stay(1) _ j2, of p2 res n p'] ran(3) Inr eq j2 row' row(2)
        by (auto simp: flag_mark_def)
      from conclude_job_closes [OF inj others ok1 row1 st, of outcome] Inr ran(3) j1(1) row'
      obtain job3 p3 where "running_from ids p1 job1 (0, job3, p3)" "mj_status row = final_status job3 res" by auto
      with row(2) j1(2) have clean: "mr_missing res = 0" "mr_conflicts res = 0"
        by (auto simp: running_from_def same_job_def final_status_def split: if_splits)
      have run: "run_raw_payload_migration ?env lib False MIGRATION_BATCH_SIZE (task_callbacks others)
          (js_tenant sys (og_schema_name org), js_cache sys, js_objects sys, (1, job1, p1)) = (Inr res, st)"
        using ran(2) Inr j1(2) by simp
      have bucket': "usable_bucket ?env" using bucket by (simp add: usable_bucket_def env_bucket)
      obtain tenant where cls: "\<And>pl r. (pl, r) \<in> set (inspected_rows (ms_world st)) \<Longrightarrow>
          \<exists>k. classify ?env tenant pl r = (ALREADY_MIGRATED, k)"
        and t0: "fst (tenant_uuid ?env (js_cache sys)) = Inr tenant"
        by (rule complete_migration [OF laws bucket' ids task_cancel_marks [OF stay(1)] unmarked run clean]) blast
      have "map_of (org_ids p1) \<subseteq>\<^sub>m map_of orgs"
        using stay(2) identifiers(1) start_job_orgs [OF ran(1)] by (simp add: orgs_stay_def org_ids_def)
      then have "knows_orgs orgs ?env" by (simp add: knows_orgs_def tenant_env_def org_ids_def)
      from tenant_uuid_true [OF identifiers(2) this, of "fst (tenant_uuid ?env (js_cache sys))"] t0
      have "map_of orgs (og_schema_name org) = Some tenant" by (simp add: prod_eq_iff tenant_env_def)
      with get_org_identifier [OF org identifiers(3,1)] have tenant: "tenant = og_tenant_uuid org" by simp
      have "\<forall>(pl, r) \<in> set (inspected_rows (ms_world st)).
          rp_storage_uri r = object_uri env (tenant_key (og_tenant_uuid org) (expected_logical_key pl r))"
        using classify_already_uri [of ?env tenant] cls unfolding object_uri_env tenant by blast
      with ran(4) show ?thesis by auto
    qed
  qed simp
qed

subsection \<open>Retrying\<close>

definition fresh_job :: "(nat \<Rightarrow> uuid) \<Rightarrow> public \<Rightarrow> int \<Rightarrow> int option \<Rightarrow> bool \<Rightarrow> migration_job" where
  "fresh_job ids p org u d = \<lparr>mj_id = ids (pb_drawn p), mj_organization = org, mj_initiated_by = u, mj_dry_run = d,
     mj_status = JPENDING, mj_celery_task_id = None, mj_cancel_requested = False, mj_started_at = None,
     mj_finished_at = None, mj_result = new_result, mj_error_message = None, mj_updated_at = pb_clock p\<rparr>"

definition with_job :: "migration_job \<Rightarrow> public \<Rightarrow> public" where
  "with_job j p = p\<lparr>pb_jobs := pb_jobs p @ [j], pb_drawn := pb_drawn p + 1\<rparr>"

lemma start_fresh:
  "get_active_job org p = None \<Longrightarrow>
   start_migration_job ids undisturbed org u d p = (Inr (fresh_job ids p org u d, True), with_job (fresh_job ids p org u d) p)"
proof -
  assume none: "get_active_job org p = None"
  then have "\<not> violates_one_active (fresh_job ids p org u d) (pb_jobs p)"
    unfolding get_active_job_None violates_iff active_job_of_def by (auto simp: fresh_job_def)
  then have "create_job ids org u d p = Inr (fresh_job ids p org u d, with_job (fresh_job ids p org u d) p)"
    by (simp add: create_job_def fresh_job_def [symmetric] with_job_def Let_def)
  with none show ?thesis by (simp add: start_alone)
qed

text \<open>The rows after a stalled job was superseded.\<close>

definition superseded_in :: "migration_job \<Rightarrow> public \<Rightarrow> public" where
  "superseded_in job p = p\<lparr>pb_jobs := update_row mj_id (mj_id job)
     (\<lambda>row. (copy_superseded (supersede job) row)\<lparr>mj_updated_at := pb_clock p\<rparr>) (pb_jobs p)\<rparr>"

lemma supersede_frees:
  assumes ok: "jobs_ok ids p" and row: "get_job p (mj_id job) = Some job" and act: "job_active (mj_status job)"
  shows "save_job copy_superseded (supersede job) p = Inr ((supersede job)\<lparr>mj_updated_at := pb_clock p\<rparr>, superseded_in job p) \<and>
    get_active_job (mj_organization job) (superseded_in job p) = None"
proof -
  have j: "job \<in> set (pb_jobs p)" using get_job_in [OF row] by simp
  have s: "save_job copy_superseded (supersede job) p =
      Inr ((supersede job)\<lparr>mj_updated_at := pb_clock p\<rparr>, superseded_in job p)"
    using row by (simp add: save_job_def supersede_def superseded_in_def violates_one_active_def copy_superseded_def
        job_active_def)
  have "\<not> active_job_of (mj_organization job) r" if r: "r \<in> set (pb_jobs (superseded_in job p))" for r
  proof -
    obtain r0 where r0: "r0 \<in> set (pb_jobs p)" "r = (if mj_id r0 = mj_id job
        then (copy_superseded (supersede job) r0)\<lparr>mj_updated_at := pb_clock p\<rparr> else r0)"
    proof -
      from r have "r \<in> set (update_row mj_id (mj_id job)
          (\<lambda>row. (copy_superseded (supersede job) row)\<lparr>mj_updated_at := pb_clock p\<rparr>) (pb_jobs p))"
        by (simp add: superseded_in_def)
      then show ?thesis unfolding in_update_row by (elim bexE) (rule that)
    qed
    show ?thesis
    proof (cases "mj_id r0 = mj_id job")
      case True
      with r0(2) show ?thesis by (simp add: active_job_of_def copy_superseded_def supersede_def job_active_def)
    next
      case False
      show ?thesis
      proof
        assume "active_job_of (mj_organization job) r"
        then have "job_active (mj_status r0)" "mj_organization r0 = mj_organization job"
          using r0(2) False by (simp_all add: active_job_of_def)
        with ok j act r0(1) False show False unfolding jobs_ok_def by blast
      qed
    qed
  qed
  with s show ?thesis by (simp add: get_active_job_None)
qed

lemma retry_alone:
  assumes "jobs_ok ids p" and "get_job p (mj_id job) = Some job"
  shows "retry_migration_job ids undisturbed job u p =
    (if mj_status job = JRUNNING
     then if is_stale (pb_clock p) job
          then let q = superseded_in job p; new = fresh_job ids q (mj_organization job) u (mj_dry_run job)
               in (Inr (new, True), with_job new q)
          else (Inl (configuration_error (''migration job '' @ mj_id job @
                  '' is still running; wait for it to finish or cancel it'')), p)
     else case get_active_job (mj_organization job) p of
            Some active \<Rightarrow> (Inr (active, False), p)
          | None \<Rightarrow> let new = fresh_job ids p (mj_organization job) u (mj_dry_run job)
                    in (Inr (new, True), with_job new p))"
proof (cases "mj_status job = JRUNNING")
  case True
  then have "job_active (mj_status job)" by (simp add: job_active_def)
  from supersede_frees [OF assms this] True show ?thesis
    by (simp add: retry_migration_job_def start_fresh Let_def)
next
  case False
  then show ?thesis
    by (cases "get_active_job (mj_organization job) p")
      (simp_all add: retry_migration_job_def start_fresh Let_def, simp add: start_alone)
qed

text \<open>One row of the table replaced.\<close>

definition replace_job :: "migration_job \<Rightarrow> public \<Rightarrow> public" where
  "replace_job job p = p\<lparr>pb_jobs := map (\<lambda>r. if mj_id r = mj_id job then job else r) (pb_jobs p)\<rparr>"

lemma only_row:
  assumes "jobs_ok ids p" "get_job p (mj_id job) = Some job" "r \<in> set (pb_jobs p)" "mj_id r = mj_id job"
  shows "r = job"
  using assms get_job_in [OF assms(2)] by (auto simp: jobs_ok_def distinct_map inj_on_def)

lemma update_is_replace:
  assumes "jobs_ok ids p" "get_job p (mj_id job) = Some job" "f job = job'" "mj_id job' = mj_id job"
  shows "p\<lparr>pb_jobs := update_row mj_id (mj_id job) f (pb_jobs p)\<rparr> = replace_job job' p"
proof -
  have "update_row mj_id (mj_id job) f (pb_jobs p) = map (\<lambda>r. if mj_id r = mj_id job' then job' else r) (pb_jobs p)"
    unfolding update_row_def assms(4)
    by (rule map_cong [OF refl]) (use only_row [OF assms(1,2)] assms(3) in auto)
  then show ?thesis by (simp add: replace_job_def)
qed

lemma superseded_row:
  assumes "jobs_ok ids p" "get_job p (mj_id job) = Some job"
  shows "superseded_in job p = replace_job (job\<lparr>mj_status := JCANCELLED, mj_error_message := Some superseded_text,
      mj_finished_at := Some (mj_updated_at job), mj_updated_at := pb_clock p\<rparr>) p"
  unfolding superseded_in_def
  by (rule update_is_replace [OF assms]) (simp_all add: copy_superseded_def supersede_def)

lemma cancel_alone:
  assumes "jobs_ok ids p" "get_job p (mj_id job) = Some job"
  shows "request_cancel job p =
    (if job_active (mj_status job)
     then let job' = job\<lparr>mj_cancel_requested := True, mj_updated_at := pb_clock p\<rparr> in (Inr job', replace_job job' p)
     else (Inl (configuration_error (''migration job '' @ mj_id job @ '' is not running; cannot cancel it'')), p))"
proof (cases "job_active (mj_status job)")
  case True
  have j: "job \<in> set (pb_jobs p)" using get_job_in [OF assms(2)] by simp
  have "\<not> violates_one_active (copy_cancel (job\<lparr>mj_cancel_requested := True\<rparr>) job) (pb_jobs p)"
  proof
    assume "violates_one_active (copy_cancel (job\<lparr>mj_cancel_requested := True\<rparr>) job) (pb_jobs p)"
    then obtain r where r: "r \<in> set (pb_jobs p)" "mj_id r \<noteq> mj_id job" "mj_organization r = mj_organization job"
      "job_active (mj_status r)" by (auto simp: violates_iff copy_cancel_def)
    with assms(1) j True show False unfolding jobs_ok_def by metis
  qed
  moreover have "p\<lparr>pb_jobs := update_row mj_id (mj_id job)
        (\<lambda>row. (copy_cancel (job\<lparr>mj_cancel_requested := True\<rparr>) row)\<lparr>mj_updated_at := pb_clock p\<rparr>) (pb_jobs p)\<rparr> =
      replace_job (job\<lparr>mj_cancel_requested := True, mj_updated_at := pb_clock p\<rparr>) p"
    by (rule update_is_replace [OF assms]) (simp_all add: copy_cancel_def)
  ultimately show ?thesis using True assms(2)
    by (auto simp: request_cancel_def save_job_def Let_def job_active_def)
qed (auto simp: request_cancel_def job_active_def)

text \<open>C21: The lifecycle of a job, exactly, for a web process whose copy of the row is the one in the
  table, with nothing committed in between. A start gives the organization's active job where
  there is one, or else a new pending job. A retry of a running job is refused while the job made
  progress in the last 900 seconds; after that the job is cancelled, as of its last progress, and
  replaced by a new pending one of the same mode; a retry of a job that is not running is a start
  in its mode. A cancellation is refused for a job that is over, and otherwise only raises the
  job's flag. Nothing else in the tables changes.\<close>

theorem job_lifecycle_exact:
  assumes "jobs_ok ids p" and "get_job p (mj_id job) = Some job"
  shows "start_migration_job ids undisturbed org u d p =
      (case get_active_job org p of
         Some active \<Rightarrow> (Inr (active, False), p)
       | None \<Rightarrow> (Inr (fresh_job ids p org u d, True), with_job (fresh_job ids p org u d) p)) \<and>
    retry_migration_job ids undisturbed job u p =
      (if mj_status job = JRUNNING
       then if pb_clock p \<le> mj_updated_at job + 900
            then (Inl (configuration_error (''migration job '' @ mj_id job @
                    '' is still running; wait for it to finish or cancel it'')), p)
            else let q = replace_job (job\<lparr>mj_status := JCANCELLED, mj_error_message := Some superseded_text,
                           mj_finished_at := Some (mj_updated_at job), mj_updated_at := pb_clock p\<rparr>) p;
                     new = fresh_job ids p (mj_organization job) u (mj_dry_run job)
                 in (Inr (new, True), with_job new q)
       else case get_active_job (mj_organization job) p of
              Some active \<Rightarrow> (Inr (active, False), p)
            | None \<Rightarrow> let new = fresh_job ids p (mj_organization job) u (mj_dry_run job)
                      in (Inr (new, True), with_job new p)) \<and>
    request_cancel job p =
      (if job_active (mj_status job)
       then let job' = job\<lparr>mj_cancel_requested := True, mj_updated_at := pb_clock p\<rparr> in (Inr job', replace_job job' p)
       else (Inl (configuration_error (''migration job '' @ mj_id job @ '' is not running; cannot cancel it'')), p))"
proof (intro conjI)
  show "start_migration_job ids undisturbed org u d p =
      (case get_active_job org p of
         Some active \<Rightarrow> (Inr (active, False), p)
       | None \<Rightarrow> (Inr (fresh_job ids p org u d, True), with_job (fresh_job ids p org u d) p))"
    by (cases "get_active_job org p") (simp_all add: start_fresh, simp add: start_alone)
  have fresh: "fresh_job ids (superseded_in job p) org' u' d' = fresh_job ids p org' u' d'" for org' u' d'
    by (simp add: fresh_job_def superseded_in_def)
  show "retry_migration_job ids undisturbed job u p =
      (if mj_status job = JRUNNING
       then if pb_clock p \<le> mj_updated_at job + 900
            then (Inl (configuration_error (''migration job '' @ mj_id job @
                    '' is still running; wait for it to finish or cancel it'')), p)
            else let q = replace_job (job\<lparr>mj_status := JCANCELLED, mj_error_message := Some superseded_text,
                           mj_finished_at := Some (mj_updated_at job), mj_updated_at := pb_clock p\<rparr>) p;
                     new = fresh_job ids p (mj_organization job) u (mj_dry_run job)
                 in (Inr (new, True), with_job new q)
       else case get_active_job (mj_organization job) p of
              Some active \<Rightarrow> (Inr (active, False), p)
            | None \<Rightarrow> let new = fresh_job ids p (mj_organization job) u (mj_dry_run job)
                      in (Inr (new, True), with_job new p))"
    unfolding retry_alone [OF assms]
    by (simp add: superseded_row [OF assms, symmetric] fresh Let_def is_stale_def STALE_JOB_THRESHOLD_def)
qed (rule cancel_alone [OF assms])

text \<open>A task that is delivered again opens its finished job again: its start does not look at the status.\<close>

theorem finished_job_reopened:
  assumes "jobs_ok ids p" and "get_job p i = Some job" and "job_terminal (mj_status job)"
    and "get_active_job (mj_organization job) p = None"
  shows "\<exists>job1 p1 row. start_job task_id job p = Inr (job1, p1) \<and> get_job p1 i = Some row \<and> mj_status row = JRUNNING"
proof -
  have id: "mj_id job = i" using get_job_in [OF assms(2)] by simp
  with assms(2) have row: "get_job p (mj_id job) = Some job" by simp
  from assms(1) row show ?thesis
  proof (cases rule: start_job_cases [where task_id = task_id])
    case (started p')
    with id show ?thesis by auto
  next
    case rejected
    have "\<not> violates_one_active (copy_started (job\<lparr>mj_status := JRUNNING, mj_celery_task_id := task_id,
        mj_started_at := Some (pb_clock p)\<rparr>) job) (pb_jobs p)"
      using assms(4) by (auto simp: violates_iff get_active_job_None active_job_of_def copy_started_def)
    with rejected(1) row show ?thesis by (simp add: start_job_def save_job_def)
  qed
qed

subsection \<open>A job at work\<close>

definition example_org :: organization where
  "example_org = \<lparr>og_id = 1, og_name = ''Acme'', og_schema_name = ''acme'', og_tenant_uuid = ''u1''\<rparr>"

definition no_jobs :: public where
  "no_jobs = \<lparr>pb_orgs = [example_org], pb_memberships = [], pb_jobs = [], pb_clock = 7, pb_drawn = 0, pb_queue = []\<rparr>"

definition job_ids :: "nat \<Rightarrow> uuid" where
  "job_ids n = replicate n (CHR ''j'')"

lemma job_ids_inj: "inj job_ids"
  by (auto simp: inj_def job_ids_def replicate_eq_replicate)

lemma no_jobs_ok: "jobs_ok job_ids no_jobs"
  by (simp add: jobs_ok_def no_jobs_def)

definition real_job :: migration_job where
  "real_job = fresh_job job_ids no_jobs 1 None False"

definition one_job :: public where
  "one_job = with_job real_job no_jobs"

lemma one_job_step: "job_step job_ids no_jobs one_job"
proof (rule job_step.created)
  show "create_job job_ids 1 None False no_jobs = Inr (real_job, one_job)" by code_simp
qed

lemma one_job_ok: "jobs_ok job_ids one_job"
  by (rule job_step_ok [OF job_ids_inj one_job_step no_jobs_ok])

definition job_system_example :: "((string \<times> string) \<times> bytes) list job_system" where
  "job_system_example = \<lparr>js_public = one_job, js_tenant = (\<lambda>n. legacy_world), js_objects = legacy_objects, js_cache = []\<rparr>"

declare sanitize_error_message_def [code del]

definition job_run :: "(exn + unit) \<times> ((string \<times> string) \<times> bytes) list job_system" where
  "job_run = run_raw_payload_migration_task example_store memory_s3 undisturbed [] (Some ''t1'') job_system_example"

lemma job_run_succeeds:
  "(case job_run of (r, sys') \<Rightarrow> (isl r, map (\<lambda>j. (mj_id j, mj_status j, mr_migrated (mj_result j))) (pb_jobs (js_public sys')))) =
     (False, [([], JSUCCEEDED, 1)])"
  by code_simp

lemma job_run_pieces:
  obtains sys' row where "run_raw_payload_migration_task example_store memory_s3 undisturbed [] (Some ''t1'')
      job_system_example = (Inr (), sys')" "get_job (js_public sys') [] = Some row" "mj_status row = JSUCCEEDED"
    "job_run = (Inr (), sys')"
proof -
  obtain q sys' where run: "job_run = (q, sys')" by fastforce
  have q: "\<not> isl q"
    and jobs: "map (\<lambda>j. (mj_id j, mj_status j, mr_migrated (mj_result j))) (pb_jobs (js_public sys')) = [([], JSUCCEEDED, 1)]"
    using job_run_succeeds unfolding run by simp_all
  from q have q: "q = Inr ()" by (cases q) simp_all
  from jobs obtain row where row: "pb_jobs (js_public sys') = [row]" "mj_id row = []" "mj_status row = JSUCCEEDED"
    by (cases "pb_jobs (js_public sys')") auto
  show ?thesis
    by (rule that [of sys' row]) (use run q row in \<open>simp_all add: job_run_def get_job_def find_row_def\<close>)
qed

lemma job_example:
  "get_job (js_public job_system_example) [] = Some real_job"
  "get_org (js_public job_system_example) (mj_organization real_job) = Some example_org"
  "jobs_ok job_ids (js_public job_system_example)" "\<not> mj_dry_run real_job" "flags_stay [] undisturbed"
  "distinct (map rp_id (w_raw (js_tenant job_system_example (og_schema_name example_org))))"
  using one_job_ok legacy_ids
  by (simp_all add: job_system_example_def one_job_def with_job_def no_jobs_def get_job_def find_row_def real_job_def
      fresh_job_def job_ids_def get_org_def example_org_def flags_stay_def undisturbed_def)

theorem one_active_job_per_org_witness:
  "length (filter (active_job_of 1) (pb_jobs one_job)) \<le> 1"
  using one_active_job_per_org [OF job_ids_inj no_jobs_ok, of one_job 1] one_job_step by blast

theorem job_task_closes_witness:
  "\<exists>row. get_job (js_public (snd job_run)) [] = Some row \<and> job_terminal (mj_status row)"
proof -
  have run: "run_raw_payload_migration_task example_store memory_s3 undisturbed [] (Some ''t1'') job_system_example =
      (fst job_run, snd job_run)" by (simp add: job_run_def)
  show ?thesis
    using job_task_closes [OF job_ids_inj undisturbed_transactions job_example(3) job_example(1,2) run] by blast
qed

theorem job_task_is_confined_witness:
  "js_tenant (snd job_run) ''other'' = legacy_world \<and> objects_kept memory_obj legacy_objects (js_objects (snd job_run))"
proof -
  have run: "run_raw_payload_migration_task example_store memory_s3 undisturbed [] (Some ''t1'') job_system_example =
      (fst job_run, snd job_run)" by (simp add: job_run_def)
  show ?thesis
    using job_task_is_confined [OF memory_laws job_example(6,1,2) run]
    by (simp add: example_org_def job_system_example_def)
qed

theorem job_success_is_complete_witness:
  "list_all (\<lambda>(pl, r). rp_storage_uri r = object_uri example_store (tenant_key ''u1'' (expected_logical_key pl r)))
     (inspected_rows (js_tenant (snd job_run) ''acme''))"
proof (rule job_run_pieces)
  fix sys' row
  assume run: "run_raw_payload_migration_task example_store memory_s3 undisturbed [] (Some ''t1'')
      job_system_example = (Inr (), sys')" and row: "get_job (js_public sys') [] = Some row" "mj_status row = JSUCCEEDED"
    and eq: "job_run = (Inr (), sys')"
  have bucket: "usable_bucket example_store" by (simp add: usable_bucket_def example_store_def)
  have ids: "orgs_stay [(''acme'', ''u1'')] undisturbed"
      "map_of (org_ids (js_public job_system_example)) \<subseteq>\<^sub>m map_of [(''acme'', ''u1'')]"
      "cache_true [(''acme'', ''u1'')] (js_cache job_system_example)"
      "distinct (map og_schema_name (pb_orgs (js_public job_system_example)))"
    by (simp_all add: orgs_stay_def undisturbed_def org_ids_def cache_true_def job_system_example_def one_job_def
        with_job_def no_jobs_def example_org_def)
  show ?thesis
    using job_success_is_complete [OF memory_laws bucket job_example(6) job_ids_inj undisturbed_transactions
        job_example(3,5) ids job_example(1,4,2) run row] by (simp add: eq example_org_def list_all_iff)
qed

definition stalled_job :: migration_job where
  "stalled_job = real_job\<lparr>mj_status := JRUNNING, mj_updated_at := 0\<rparr>"

theorem job_lifecycle_exact_witness:
  "\<exists>new q. retry_migration_job job_ids undisturbed stalled_job None
     (no_jobs\<lparr>pb_jobs := [stalled_job], pb_drawn := 1, pb_clock := 1000\<rparr>) = (Inr (new, True), q) \<and>
     mj_status new = JPENDING \<and> map mj_status (pb_jobs q) = [JCANCELLED, JPENDING]"
proof -
  let ?p = "no_jobs\<lparr>pb_jobs := [stalled_job], pb_drawn := 1, pb_clock := 1000\<rparr>"
  have ok: "jobs_ok job_ids ?p"
    by (simp add: jobs_ok_def stalled_job_def real_job_def fresh_job_def job_ids_def no_jobs_def)
  have row: "get_job ?p (mj_id stalled_job) = Some stalled_job" by (simp add: get_job_def find_row_def)
  have stale: "mj_status stalled_job = JRUNNING" "\<not> pb_clock ?p \<le> mj_updated_at stalled_job + 900"
    by (simp_all add: stalled_job_def)
  show ?thesis
    using job_lifecycle_exact [OF ok row, of 1 None True] stale
    by (simp add: Let_def replace_job_def with_job_def fresh_job_def)
qed

theorem finished_job_reopened_witness:
  "\<exists>job1 p1 row. start_job (Some ''t1'') (real_job\<lparr>mj_status := JCANCELLED\<rparr>)
     (no_jobs\<lparr>pb_jobs := [real_job\<lparr>mj_status := JCANCELLED\<rparr>], pb_drawn := 1\<rparr>) = Inr (job1, p1) \<and>
     get_job p1 [] = Some row \<and> mj_status row = JRUNNING"
  by (rule finished_job_reopened [where ids = job_ids])
    (simp_all add: jobs_ok_def get_job_def find_row_def real_job_def fresh_job_def job_ids_def no_jobs_def
      job_terminal_def get_active_job_None active_job_of_def job_active_def)

end
