(* ===== verification/OpsUI.thy ===== *)
theory OpsUI
  imports MigrationJobs
begin

text \<open>
  The internal operator UI: \<^verbatim>\<open>apps/opsui/permissions.py\<close>, \<^verbatim>\<open>apps/opsui/audit.py\<close> with
  \<^verbatim>\<open>apps/auditing\<close>, and the views of \<^verbatim>\<open>apps/opsui/views.py\<close>. A view that only reads is a function
  to its response; a view that acts also returns the tables. Sessions, the CSRF middleware
  and the templates are Django's.
\<close>

subsection \<open>Users and their rights\<close>

record user =
  us_id :: int
  us_is_authenticated :: bool
  us_is_staff :: bool

definition CONTINUATION_ROLES :: "role list" where
  "CONTINUATION_ROLES = [OWNER, ADMIN, ENGINEER]"

definition VIEW_ROLES :: "role list" where
  "VIEW_ROLES = [OWNER, ADMIN, ENGINEER, ANALYST]"

definition MIGRATION_VIEW_ROLES :: "role list" where
  "MIGRATION_VIEW_ROLES = [OWNER, ADMIN]"

definition is_platform_operator :: "user \<Rightarrow> bool" where
  "is_platform_operator u = (us_is_authenticated u \<and> us_is_staff u)"

definition get_membership :: "user \<Rightarrow> int \<Rightarrow> public \<Rightarrow> membership option" where
  "get_membership u org p =
     (if \<not> us_is_authenticated u then None
      else find (\<lambda>m. mb_user m = us_id u \<and> mb_organization m = org) (pb_memberships p))"

text \<open>\<^verbatim>\<open>PermissionDenied\<close> carries its message.\<close>

definition require_platform_operator :: "user \<Rightarrow> string + unit" where
  "require_platform_operator u =
     (if is_platform_operator u then Inr () else Inl ''this action requires platform-operator access'')"

definition require_org_role :: "user \<Rightarrow> int \<Rightarrow> role list \<Rightarrow> public \<Rightarrow> string + membership option" where
  "require_org_role u org allowed_roles p =
     (if is_platform_operator u then Inr (get_membership u org p)
      else case get_membership u org p of
        None \<Rightarrow> Inl ''you do not have access to this organization''
      | Some m \<Rightarrow> if mb_role m \<notin> set allowed_roles then Inl ''you do not have access to this organization''
                  else Inr (Some m))"

definition require_org_member :: "user \<Rightarrow> int \<Rightarrow> public \<Rightarrow> string + membership option" where
  "require_org_member u org p =
     (if is_platform_operator u then Inr (get_membership u org p)
      else case get_membership u org p of
        None \<Rightarrow> Inl ''you do not have access to this organization''
      | Some m \<Rightarrow> if mb_role m \<notin> set VIEW_ROLES then Inl ''you do not have access to this organization''
                  else Inr (Some m))"

subsection \<open>The audit trail\<close>

record audit_log =
  al_actor :: "int option"
  al_action :: string
  al_target_type :: string
  al_target_id :: string
  al_metadata :: "(string \<times> json) list"

text \<open>What the web processes share: the public tables, the tables of each tenant's schema, and the messages
  of the session. The audit trail is a table of the tenant's schema as well; it is kept apart in
  \<open>wb_audit\<close>, so what is said of \<open>wb_tenant\<close> is said of the other tables of the schema, and the trail
  is spoken of on its own.\<close>

record web =
  wb_public :: public
  wb_tenant :: "string \<Rightarrow> world"
  wb_audit :: "string \<Rightarrow> audit_log list"
  wb_messages :: "string list"

definition record_audit_event ::
  "string \<Rightarrow> int option \<Rightarrow> string \<Rightarrow> string \<Rightarrow> string \<Rightarrow> (string \<times> json) list \<Rightarrow> web \<Rightarrow> web" where
  "record_audit_event schema_name actor action target_type target_id metadata wb =
     wb\<lparr>wb_audit := (wb_audit wb)(schema_name := wb_audit wb schema_name @
       [\<lparr>al_actor = actor, al_action = action, al_target_type = target_type, al_target_id = target_id,
         al_metadata = metadata\<rparr>])\<rparr>"

definition record_migration_audit_event ::
  "organization \<Rightarrow> int option \<Rightarrow> string \<Rightarrow> migration_job \<Rightarrow> (string \<times> json) list \<Rightarrow> web \<Rightarrow> web" where
  "record_migration_audit_event org actor action job metadata wb =
     record_audit_event (og_schema_name org) actor action ''RawPayloadMigrationJob'' (mj_id job) metadata wb"

lemma record_audit_event_frame [simp]:
  "wb_public (record_audit_event s actor action tt ti md wb) = wb_public wb"
  "wb_tenant (record_audit_event s actor action tt ti md wb) = wb_tenant wb"
  "wb_messages (record_audit_event s actor action tt ti md wb) = wb_messages wb"
  "n \<noteq> s \<Longrightarrow> wb_audit (record_audit_event s actor action tt ti md wb) n = wb_audit wb n"
  by (simp_all add: record_audit_event_def)

subsection \<open>Requests and responses\<close>

datatype http_method = GET | POST

record request =
  rq_method :: http_method
  rq_user :: user
  rq_mode :: "string option" \<comment> \<open>the field \<open>mode\<close> of the form\<close>

datatype target = MigrationJobDetail uuid | RunDetail uuid uuid

datatype 'page response =
    Rendered 'page
  | Redirect target
  | LoginRedirect
  | NotAllowed
  | NotFound
  | Forbidden string
  | ServerError exn

definition login_required :: "request \<Rightarrow> 'page response \<Rightarrow> 'page response" where
  "login_required req rsp = (if us_is_authenticated (rq_user req) then rsp else LoginRedirect)"

text \<open>\<^verbatim>\<open>@require_POST @login_required\<close> around a view that acts.\<close>

definition post_only :: "request \<Rightarrow> web \<Rightarrow> 'page response \<times> web \<Rightarrow> 'page response \<times> web" where
  "post_only req wb r =
     (if rq_method req \<noteq> POST then (NotAllowed, wb)
      else if \<not> us_is_authenticated (rq_user req) then (LoginRedirect, wb) else r)"

definition add_message :: "string \<Rightarrow> web \<Rightarrow> web" where
  "add_message m wb = wb\<lparr>wb_messages := wb_messages wb @ [m]\<rparr>"

lemma add_message_frame [simp]:
  "wb_public (add_message m wb) = wb_public wb" "wb_tenant (add_message m wb) = wb_tenant wb"
  "wb_audit (add_message m wb) = wb_audit wb"
  by (simp_all add: add_message_def)

definition enqueue_job :: "uuid \<Rightarrow> web \<Rightarrow> web" where
  "enqueue_job i wb = wb\<lparr>wb_public := (wb_public wb)\<lparr>pb_queue := pb_queue (wb_public wb) @ [i]\<rparr>\<rparr>"

subsection \<open>The migration tool\<close>

definition org_list :: "request \<Rightarrow> public \<Rightarrow> organization list response" where
  "org_list req p = login_required req (Rendered (sort_key og_name
     (if is_platform_operator (rq_user req) then pb_orgs p
      else filter (\<lambda>org. list_ex (\<lambda>m. mb_organization m = og_id org \<and> mb_user m = us_id (rq_user req) \<and>
                     mb_role m \<in> set MIGRATION_VIEW_ROLES) (pb_memberships p)) (pb_orgs p))))"

record org_page =
  op_organization :: organization
  op_job :: "migration_job option"
  op_can_operate :: bool

definition migration_org_detail :: "request \<Rightarrow> int \<Rightarrow> public \<Rightarrow> org_page response" where
  "migration_org_detail req org_id p = login_required req
     (case get_org p org_id of
        None \<Rightarrow> NotFound
      | Some org \<Rightarrow>
          (case require_org_role (rq_user req) org_id MIGRATION_VIEW_ROLES p of
             Inl m \<Rightarrow> Forbidden m
           | Inr _ \<Rightarrow> Rendered \<lparr>op_organization = org,
               op_job = (case get_active_job org_id p of Some j \<Rightarrow> Some j | None \<Rightarrow> latest_job org_id p),
               op_can_operate = is_platform_operator (rq_user req)\<rparr>))"

text \<open>The page, the progress fragment and the export of a job: who may see it, and what.\<close>

definition visible_job :: "request \<Rightarrow> uuid \<Rightarrow> public \<Rightarrow> org_page response" where
  "visible_job req job_id p =
     (case get_job p job_id of
        None \<Rightarrow> NotFound
      | Some job \<Rightarrow>
          (case get_org p (mj_organization job) of
             None \<Rightarrow> NotFound
           | Some org \<Rightarrow>
               (case require_org_role (rq_user req) (og_id org) MIGRATION_VIEW_ROLES p of
                  Inl m \<Rightarrow> Forbidden m
                | Inr _ \<Rightarrow> Rendered \<lparr>op_organization = org, op_job = Some job,
                    op_can_operate = is_platform_operator (rq_user req)\<rparr>)))"

definition migration_job_detail :: "request \<Rightarrow> uuid \<Rightarrow> public \<Rightarrow> org_page response" where
  "migration_job_detail req job_id p = login_required req (visible_job req job_id p)"

definition migration_job_progress :: "request \<Rightarrow> uuid \<Rightarrow> public \<Rightarrow> org_page response" where
  "migration_job_progress req job_id p = login_required req (visible_job req job_id p)"

definition export_lines :: "(timestamp \<Rightarrow> string) \<Rightarrow> organization \<Rightarrow> migration_job \<Rightarrow> string list" where
  "export_lines str_time org job =
     (let res = mj_result job; when = (\<lambda>t. case t of None \<Rightarrow> ''-'' | Some t \<Rightarrow> str_time t) in
      [''Raw payload migration job '' @ mj_id job,
       ''Organization: '' @ og_name org @ '' ('' @ og_schema_name org @ '')'',
       ''Mode: '' @ (if mj_dry_run job then ''dry-run'' else ''migration''),
       ''Status: '' @ job_status_display (mj_status job),
       ''Started: '' @ when (mj_started_at job),
       ''Finished: '' @ when (mj_finished_at job),
       [],
       ''Records inspected:   '' @ str_of_nat (mr_inspected res),
       ''Already migrated:    '' @ str_of_nat (mr_already res),
       ''Legacy unprefixed:   '' @ str_of_nat (mr_legacy res),
       ''Schema-prefixed:     '' @ str_of_nat (mr_schema_prefixed res),
       ''Missing objects:     '' @ str_of_nat (mr_missing res),
       ''Checksum conflicts:  '' @ str_of_nat (mr_conflicts res),
       ''Ready for migration: '' @ str_of_nat (mr_ready res),
       ''Records migrated:    '' @ str_of_nat (mr_migrated res),
       ''Records skipped:     '' @ str_of_nat (mr_skipped res)] @
      (case mj_error_message job of Some (c # cs) \<Rightarrow> [[], ''Error: '' @ c # cs] | _ \<Rightarrow> []))"

definition migration_job_export :: "(timestamp \<Rightarrow> string) \<Rightarrow> request \<Rightarrow> uuid \<Rightarrow> public \<Rightarrow> string response" where
  "migration_job_export str_time req job_id p = login_required req
     (case visible_job req job_id p of
        Rendered page \<Rightarrow>
          (case op_job page of
             None \<Rightarrow> NotFound
           | Some job \<Rightarrow> Rendered (join_with [CHR 0x0A] (export_lines str_time (op_organization page) job) @ [CHR 0x0A]))
      | NotFound \<Rightarrow> NotFound
      | Forbidden m \<Rightarrow> Forbidden m
      | LoginRedirect \<Rightarrow> LoginRedirect
      | NotAllowed \<Rightarrow> NotAllowed
      | Redirect t \<Rightarrow> Redirect t
      | ServerError e \<Rightarrow> ServerError e)"

definition requested_action :: "bool \<Rightarrow> string" where
  "requested_action dry_run =
     (if dry_run then ''raw_payload_migration.dry_run_requested'' else ''raw_payload_migration.started'')"

definition already_active_message :: "organization \<Rightarrow> string" where
  "already_active_message org = ''An active migration job already exists for '' @ og_name org @
     '' -- showing its progress instead of starting a new one.''"

definition migration_start ::
  "(nat \<Rightarrow> uuid) \<Rightarrow> (nat \<Rightarrow> public \<Rightarrow> public) \<Rightarrow> request \<Rightarrow> int \<Rightarrow> web \<Rightarrow> unit response \<times> web" where
  "migration_start ids others req org_id wb = post_only req wb
     (case get_org (wb_public wb) org_id of
        None \<Rightarrow> (NotFound, wb)
      | Some org \<Rightarrow>
          (case require_platform_operator (rq_user req) of
             Inl m \<Rightarrow> (Forbidden m, wb)
           | Inr _ \<Rightarrow>
               (let dry_run = (or_default ''dry_run'' (rq_mode req) \<noteq> ''real'') in
                case start_migration_job ids others org_id (Some (us_id (rq_user req))) dry_run (wb_public wb) of
                  (Inl e, p) \<Rightarrow> (ServerError e, wb\<lparr>wb_public := p\<rparr>)
                | (Inr (job, False), p) \<Rightarrow>
                    (Redirect (MigrationJobDetail (mj_id job)),
                     add_message (already_active_message org) (wb\<lparr>wb_public := p\<rparr>))
                | (Inr (job, True), p) \<Rightarrow>
                    (Redirect (MigrationJobDetail (mj_id job)),
                     enqueue_job (mj_id job) (record_migration_audit_event org (Some (us_id (rq_user req)))
                       (requested_action dry_run) job [(''dry_run'', JBool dry_run), (''job_id'', JStr (mj_id job))]
                       (wb\<lparr>wb_public := p\<rparr>))))))"

definition migration_job_retry ::
  "(nat \<Rightarrow> uuid) \<Rightarrow> (nat \<Rightarrow> public \<Rightarrow> public) \<Rightarrow> request \<Rightarrow> uuid \<Rightarrow> web \<Rightarrow> unit response \<times> web" where
  "migration_job_retry ids others req job_id wb = post_only req wb
     (case get_job (wb_public wb) job_id of
        None \<Rightarrow> (NotFound, wb)
      | Some job \<Rightarrow>
          (case get_org (wb_public wb) (mj_organization job) of
             None \<Rightarrow> (NotFound, wb)
           | Some org \<Rightarrow>
               (case require_platform_operator (rq_user req) of
                  Inl m \<Rightarrow> (Forbidden m, wb)
                | Inr _ \<Rightarrow>
                    (case retry_migration_job ids others job (Some (us_id (rq_user req))) (wb_public wb) of
                       (Inl e, p) \<Rightarrow>
                         (if catches ConfigurationError e
                          then (Redirect (MigrationJobDetail (mj_id job)), add_message (exn_text e) (wb\<lparr>wb_public := p\<rparr>))
                          else (ServerError e, wb\<lparr>wb_public := p\<rparr>))
                     | (Inr (new_job, created), p) \<Rightarrow>
                         (Redirect (MigrationJobDetail (mj_id new_job)),
                          enqueue_job (mj_id new_job) (record_migration_audit_event org (Some (us_id (rq_user req)))
                            (requested_action (mj_dry_run new_job)) new_job
                            [(''dry_run'', JBool (mj_dry_run new_job)), (''job_id'', JStr (mj_id new_job)),
                             (''retry_of'', JStr (mj_id job))] (wb\<lparr>wb_public := p\<rparr>)))))))"

definition migration_job_cancel :: "request \<Rightarrow> uuid \<Rightarrow> web \<Rightarrow> unit response \<times> web" where
  "migration_job_cancel req job_id wb = post_only req wb
     (case get_job (wb_public wb) job_id of
        None \<Rightarrow> (NotFound, wb)
      | Some job \<Rightarrow>
          (case require_platform_operator (rq_user req) of
             Inl m \<Rightarrow> (Forbidden m, wb)
           | Inr _ \<Rightarrow>
               (case request_cancel job (wb_public wb) of
                  (Inl e, p) \<Rightarrow>
                    (if catches ConfigurationError e
                     then (Redirect (MigrationJobDetail (mj_id job)), add_message (exn_text e) (wb\<lparr>wb_public := p\<rparr>))
                     else (ServerError e, wb\<lparr>wb_public := p\<rparr>))
                | (Inr _, p) \<Rightarrow> (Redirect (MigrationJobDetail (mj_id job)), wb\<lparr>wb_public := p\<rparr>))))"

subsection \<open>Runs and their continuation\<close>

text \<open>The organization is the tenant of the domain on which the request arrived.\<close>

definition tenant_home :: "request \<Rightarrow> organization \<Rightarrow> web \<Rightarrow> (pipeline list \<times> organization) response" where
  "tenant_home req tenant wb = login_required req
     (case require_org_member (rq_user req) (og_id tenant) (wb_public wb) of
        Inl m \<Rightarrow> Forbidden m
      | Inr _ \<Rightarrow> Rendered (sort_key pl_name (w_pipelines (wb_tenant wb (og_schema_name tenant))), tenant))"

definition run_list :: "request \<Rightarrow> organization \<Rightarrow> uuid \<Rightarrow> web \<Rightarrow> (pipeline \<times> pipeline_run list) response" where
  "run_list req tenant pipeline_id wb = login_required req
     (case require_org_member (rq_user req) (og_id tenant) (wb_public wb) of
        Inl m \<Rightarrow> Forbidden m
      | Inr _ \<Rightarrow>
          (let w = wb_tenant wb (og_schema_name tenant) in
           case get_pipeline w pipeline_id of
             None \<Rightarrow> NotFound
           | Some pl \<Rightarrow> Rendered (pl, take 50 (rev (filter (\<lambda>r. pr_pipeline_id r = pl_id pl) (w_runs w))))))"

definition get_pipeline_run :: "world \<Rightarrow> pipeline \<Rightarrow> uuid \<Rightarrow> pipeline_run option" where
  "get_pipeline_run w pl run_id =
     (case get_run w run_id of
        None \<Rightarrow> None
      | Some run \<Rightarrow> if pr_pipeline_id run = pl_id pl then Some run else None)"

definition existing_continuation :: "pipeline_run \<Rightarrow> world \<Rightarrow> pipeline_run option" where
  "existing_continuation run w = find (\<lambda>r. pr_continued_from r = Some (pr_id run)) (rev (w_runs w))"

record run_page =
  rn_pipeline :: pipeline
  rn_run :: pipeline_run
  rn_existing_continuation :: "pipeline_run option"
  rn_can_continue :: bool
  rn_is_continuable :: bool

definition run_detail :: "request \<Rightarrow> organization \<Rightarrow> uuid \<Rightarrow> uuid \<Rightarrow> web \<Rightarrow> run_page response" where
  "run_detail req tenant pipeline_id run_id wb = login_required req
     (case require_org_member (rq_user req) (og_id tenant) (wb_public wb) of
        Inl m \<Rightarrow> Forbidden m
      | Inr membership \<Rightarrow>
          (let w = wb_tenant wb (og_schema_name tenant) in
           case get_pipeline w pipeline_id of
             None \<Rightarrow> NotFound
           | Some pl \<Rightarrow>
               (case get_pipeline_run w pl run_id of
                  None \<Rightarrow> NotFound
                | Some run \<Rightarrow> Rendered \<lparr>rn_pipeline = pl, rn_run = run,
                    rn_existing_continuation = existing_continuation run w,
                    rn_can_continue = (is_continuable run \<and> existing_continuation run w = None \<and>
                      (is_platform_operator (rq_user req) \<or>
                       (case membership of None \<Rightarrow> False | Some m \<Rightarrow> mb_role m \<in> set CONTINUATION_ROLES))),
                    rn_is_continuable = is_continuable run\<rparr>)))"

text \<open>Other requests and workers may commit between the look for a continuation and the trigger: \<open>others\<close>.\<close>

definition run_continue ::
  "(nat \<Rightarrow> uuid) \<Rightarrow> (world \<Rightarrow> world) \<Rightarrow> request \<Rightarrow> organization \<Rightarrow> uuid \<Rightarrow> uuid \<Rightarrow> web \<Rightarrow> unit response \<times> web" where
  "run_continue ids others req tenant pipeline_id run_id wb = post_only req wb
     (case require_org_role (rq_user req) (og_id tenant) CONTINUATION_ROLES (wb_public wb) of
        Inl m \<Rightarrow> (Forbidden m, wb)
      | Inr _ \<Rightarrow>
          (let s = og_schema_name tenant; w = wb_tenant wb s; actor = Some (us_id (rq_user req)) in
           case get_pipeline w pipeline_id of
             None \<Rightarrow> (NotFound, wb)
           | Some pl \<Rightarrow>
               (case get_pipeline_run w pl run_id of
                  None \<Rightarrow> (NotFound, wb)
                | Some failed_run \<Rightarrow>
                    (case existing_continuation failed_run w of
                       Some existing \<Rightarrow>
                         (Redirect (RunDetail (pl_id pl) (pr_id existing)),
                          add_message ''A continuation run already exists for this failed run.''
                            (record_audit_event s actor ''pipeline_run.continuation_reused'' ''PipelineRun'' (pr_id existing)
                               [(''failed_run_id'', JStr (pr_id failed_run)),
                                (''existing_continuation_id'', JStr (pr_id existing))] wb))
                     | None \<Rightarrow>
                         (let wb1 = record_audit_event s actor ''pipeline_run.continuation_requested'' ''PipelineRun''
                                (pr_id failed_run)
                                [(''pipeline_id'', JStr (pl_id pl)), (''failed_run_id'', JStr (pr_id failed_run))] wb
                          in case trigger_manual_run ids pl s None (Some failed_run) (others w) of
                               (Inl e, w') \<Rightarrow>
                                 (let wb2 = wb1\<lparr>wb_tenant := (wb_tenant wb1)(s := w')\<rparr> in
                                  if catches ConfigurationError e
                                  then (Redirect (RunDetail (pl_id pl) (pr_id failed_run)), add_message (exn_text e) wb2)
                                  else (ServerError e, wb2))
                             | (Inr (new, dispatched), w') \<Rightarrow>
                                 (Redirect (RunDetail (pl_id pl) (pr_id new)),
                                  add_message (''Continuation run '' @ pr_id new @ '' dispatched.'')
                                    (record_audit_event s actor ''pipeline_run.continuation_created'' ''PipelineRun''
                                       (pr_id new)
                                       [(''pipeline_id'', JStr (pl_id pl)),
                                        (''continued_from_run_id'', JStr (pr_id failed_run)),
                                        (''new_run_id'', JStr (pr_id new))]
                                       (wb1\<lparr>wb_tenant := (wb_tenant wb1)(s := w')\<rparr>))))))))"

subsection \<open>Who may act\<close>

text \<open>The three actions of the migration tool, as one.\<close>

datatype migration_action = Start int | Retry uuid | Cancel uuid

fun migration_view ::
  "(nat \<Rightarrow> uuid) \<Rightarrow> (nat \<Rightarrow> public \<Rightarrow> public) \<Rightarrow> request \<Rightarrow> migration_action \<Rightarrow> web \<Rightarrow> unit response \<times> web" where
  "migration_view ids others req (Start org_id) wb = migration_start ids others req org_id wb"
| "migration_view ids others req (Retry job_id) wb = migration_job_retry ids others req job_id wb"
| "migration_view ids others req (Cancel job_id) wb = migration_job_cancel req job_id wb"

lemma post_only_guard:
  "post_only req wb r = (rsp, wb') \<Longrightarrow> (rsp = NotAllowed \<or> rsp = LoginRedirect) \<and> wb' = wb \<or>
     rq_method req = POST \<and> us_is_authenticated (rq_user req) \<and> r = (rsp, wb')"
  by (auto simp: post_only_def split: if_splits)

lemma operator_guard:
  "\<not> is_platform_operator u \<Longrightarrow> \<exists>m. require_platform_operator u = Inl m"
  by (simp add: require_platform_operator_def)

lemma migration_view_guarded:
  assumes "\<not> (rq_method req = POST \<and> is_platform_operator (rq_user req))"
  shows "snd (migration_view ids others req action wb) = wb"
proof (cases "rq_method req = POST \<and> us_is_authenticated (rq_user req)")
  case False
  then show ?thesis
    by (cases action) (auto simp: migration_start_def migration_job_retry_def migration_job_cancel_def post_only_def)
next
  case True
  with assms have "\<not> is_platform_operator (rq_user req)" by simp
  then obtain m where "require_platform_operator (rq_user req) = Inl m" using operator_guard by blast
  then show ?thesis
    by (cases action)
      (auto simp: migration_start_def migration_job_retry_def migration_job_cancel_def post_only_def split: option.splits)
qed

text \<open>Membership: a role in this very organization.\<close>

definition has_role :: "user \<Rightarrow> int \<Rightarrow> role list \<Rightarrow> public \<Rightarrow> bool" where
  "has_role u org roles p =
     (us_is_authenticated u \<and> (us_is_staff u \<or>
        (\<exists>m \<in> set (pb_memberships p). mb_user m = us_id u \<and> mb_organization m = org \<and> mb_role m \<in> set roles)))"

lemma get_membership_in:
  "get_membership u org p = Some m \<Longrightarrow>
   us_is_authenticated u \<and> m \<in> set (pb_memberships p) \<and> mb_user m = us_id u \<and> mb_organization m = org"
  by (auto simp: get_membership_def find_Some_iff split: if_splits)

lemma require_org_role_has:
  "require_org_role u org roles p = Inr x \<Longrightarrow> has_role u org roles p"
  using get_membership_in [of u org p]
  by (auto simp: require_org_role_def has_role_def is_platform_operator_def split: if_splits option.splits)

lemma require_org_member_has:
  "require_org_member u org p = Inr x \<Longrightarrow> has_role u org VIEW_ROLES p"
  using get_membership_in [of u org p]
  by (auto simp: require_org_member_def has_role_def is_platform_operator_def split: if_splits option.splits)

lemma visible_job_has_role:
  assumes "visible_job req job_id p = Rendered page"
  shows "\<exists>job. get_job p job_id = Some job \<and> op_job page = Some job \<and>
    has_role (rq_user req) (og_id (op_organization page)) MIGRATION_VIEW_ROLES p \<and>
    get_org p (mj_organization job) = Some (op_organization page)"
  using assms require_org_role_has by (fastforce simp: visible_job_def split: option.splits sum.splits)

subsection \<open>Continuing a run\<close>

definition only_tenant_changed :: "string \<Rightarrow> web \<Rightarrow> web \<Rightarrow> bool" where
  "only_tenant_changed s wb wb' =
     (wb_public wb' = wb_public wb \<and> (\<forall>n. n \<noteq> s \<longrightarrow> wb_tenant wb' n = wb_tenant wb n \<and> wb_audit wb' n = wb_audit wb n))"

lemma run_continue_confined:
  "only_tenant_changed (og_schema_name tenant) wb (snd (run_continue ids others req tenant pipeline_id run_id wb))"
  by (auto simp: run_continue_def post_only_def only_tenant_changed_def record_audit_event_def add_message_def Let_def
      split: sum.splits option.splits prod.splits)

lemma run_continue_guarded:
  assumes "snd (run_continue ids others req tenant pipeline_id run_id wb) \<noteq> wb"
  shows "rq_method req = POST \<and> has_role (rq_user req) (og_id tenant) CONTINUATION_ROLES (wb_public wb)"
proof -
  obtain rsp wb' where r: "run_continue ids others req tenant pipeline_id run_id wb = (rsp, wb')" by fastforce
  from post_only_guard [OF r [unfolded run_continue_def]] r assms
  have post: "rq_method req = POST" "us_is_authenticated (rq_user req)" by auto
  show ?thesis
  proof (cases "require_org_role (rq_user req) (og_id tenant) CONTINUATION_ROLES (wb_public wb)")
    case (Inl m)
    with assms post show ?thesis by (simp add: run_continue_def post_only_def)
  next
    case (Inr x)
    with require_org_role_has post show ?thesis by blast
  qed
qed

lemma trigger_new_row:
  assumes t: "trigger_manual_run ids pl s key cont w = (r, w')" and new: "w_runs w' \<noteq> w_runs w"
  shows "\<exists>i k now. w_runs w' = w_runs w @ [new_run i pl k cont now]"
proof (cases "pl_is_active pl \<and> may_continue pl cont")
  case False
  with trigger_refused [OF False, of ids s key w] t new show ?thesis by auto
next
  case True
  obtain k w1 where k: "idempotency_key_for ids pl key w = (k, w1)" by fastforce
  obtain run created w2 where g: "get_or_create_run ids pl k cont w1 = (run, created, w2)"
    by (cases "get_or_create_run ids pl k cont w1")
  obtain n where w1: "w1 = w\<lparr>w_drawn := n\<rparr>" using idempotency_key_for_frame [OF k] by blast
  have w': "w_runs w' = w_runs w2"
    using t trigger_allowed [OF _ _ k g, of s] True by (auto simp: delay_def split: if_splits)
  with get_or_create_run_cases [OF g, unfolded w1] new show ?thesis by (cases created) auto
qed

lemma new_run_continues: "pr_continued_from (new_run i pl k (Some run) now) = Some (pr_id run)"
  by (simp add: new_run_def Let_def)

text \<open>A page of a run that has a continuation creates nothing any more.\<close>

definition continued_in :: "uuid \<Rightarrow> world \<Rightarrow> bool" where
  "continued_in run_id w = (\<exists>r \<in> set (w_runs w). pr_continued_from r = Some run_id)"

lemma existing_continuation_iff: "existing_continuation run w = None \<longleftrightarrow> \<not> continued_in (pr_id run) w"
  by (auto simp: existing_continuation_def continued_in_def find_None_iff)

lemma get_pipeline_run_id: "get_pipeline_run w pl i = Some run \<Longrightarrow> pr_id run = i"
  by (auto simp: get_pipeline_run_def get_run_def dest: find_row_key split: option.splits if_splits)

lemma run_continue_again:
  assumes "continued_in run_id (wb_tenant wb (og_schema_name tenant))"
  shows "wb_tenant (snd (run_continue ids others req tenant pipeline_id run_id wb)) = wb_tenant wb"
proof -
  let ?w = "wb_tenant wb (og_schema_name tenant)"
  show ?thesis
  proof (cases "require_org_role (rq_user req) (og_id tenant) CONTINUATION_ROLES (wb_public wb)")
    case (Inl m)
    then show ?thesis by (simp add: run_continue_def post_only_def)
  next
    case role: (Inr m)
    show ?thesis
    proof (cases "get_pipeline ?w pipeline_id")
      case None
      with role show ?thesis by (simp add: run_continue_def post_only_def Let_def)
    next
      case pl: (Some pl)
      show ?thesis
      proof (cases "get_pipeline_run ?w pl run_id")
        case None
        with role pl show ?thesis by (simp add: run_continue_def post_only_def Let_def)
      next
        case (Some run)
        obtain r where "existing_continuation run ?w = Some r"
          using assms get_pipeline_run_id [OF Some] existing_continuation_iff [of run ?w] by auto
        with role pl Some show ?thesis by (simp add: run_continue_def post_only_def Let_def)
      qed
    qed
  qed
qed

text \<open>What one request that changes the runs did.\<close>

lemma run_continue_creates:
  assumes c: "run_continue ids id req tenant pipeline_id run_id wb = (rsp, wb')"
    and new: "w_runs (wb_tenant wb' (og_schema_name tenant)) \<noteq> w_runs (wb_tenant wb (og_schema_name tenant))"
  shows "\<exists>r. w_runs (wb_tenant wb' (og_schema_name tenant)) = w_runs (wb_tenant wb (og_schema_name tenant)) @ [r] \<and>
    pr_continued_from r = Some run_id \<and> pr_status r = PENDING \<and>
    \<not> continued_in run_id (wb_tenant wb (og_schema_name tenant))"
proof -
  let ?s = "og_schema_name tenant"
  let ?w = "wb_tenant wb ?s"
  have go: "\<not> continued_in run_id ?w"
    using run_continue_again [of run_id wb tenant ids id req pipeline_id] c new by auto
  obtain pl run where p: "get_pipeline ?w pipeline_id = Some pl" "get_pipeline_run ?w pl run_id = Some run"
    using c new by (auto simp: run_continue_def post_only_def Let_def split: option.splits sum.splits if_splits)
  have id: "pr_id run = run_id" by (rule get_pipeline_run_id [OF p(2)])
  have none: "existing_continuation run ?w = None" using go id by (simp add: existing_continuation_iff)
  obtain x w' where t: "trigger_manual_run ids pl ?s None (Some run) ?w = (x, w')" by fastforce
  have w': "wb_tenant wb' ?s = w'"
    using c new p none t
    by (auto simp: run_continue_def post_only_def Let_def record_audit_event_def add_message_def
        split: sum.splits if_splits prod.splits)
  with trigger_new_row [OF t] new obtain i k now where "w_runs w' = w_runs ?w @ [new_run i pl k (Some run) now]" by auto
  with w' go id show ?thesis by (auto simp: new_run_continues)
qed

text \<open>C27: A failed run is continued once. A request that continues a run, with no one else at work, adds
  exactly one row, pending and marked as its continuation; and no requests for that run that come
  after it, by whomever and whoever else is at work then, create another run or give anything
  more to the broker; they add to the audit trail only.\<close>

theorem run_continued_once:
  assumes c: "run_continue ids id req tenant pipeline_id run_id wb = (rsp, wb1)"
    and new: "w_runs (wb_tenant wb1 (og_schema_name tenant)) \<noteq> w_runs (wb_tenant wb (og_schema_name tenant))"
  shows "(\<exists>r. w_runs (wb_tenant wb1 (og_schema_name tenant)) = w_runs (wb_tenant wb (og_schema_name tenant)) @ [r] \<and>
      pr_continued_from r = Some run_id \<and> pr_status r = PENDING) \<and>
    wb_tenant (fold (\<lambda>(others, req) wb. snd (run_continue ids others req tenant pipeline_id run_id wb)) reqs wb1) = wb_tenant wb1"
proof -
  let ?s = "og_schema_name tenant"
  from run_continue_creates [OF c new] obtain r where r: "w_runs (wb_tenant wb1 ?s) = w_runs (wb_tenant wb ?s) @ [r]"
    "pr_continued_from r = Some run_id" "pr_status r = PENDING" by blast
  then have "continued_in run_id (wb_tenant wb1 ?s)" by (auto simp: continued_in_def)
  then have "wb_tenant (fold (\<lambda>(others, req) wb. snd (run_continue ids others req tenant pipeline_id run_id wb)) reqs wb2) = wb_tenant wb2"
    if "wb_tenant wb2 = wb_tenant wb1" for wb2
    using that
  proof (induction reqs arbitrary: wb2)
    case (Cons oreq reqs)
    obtain others req where oreq: "oreq = (others, req)" by fastforce
    have "wb_tenant (snd (run_continue ids others req tenant pipeline_id run_id wb2)) = wb_tenant wb2"
      by (rule run_continue_again) (simp add: Cons.prems)
    with Cons oreq show ?case by simp
  qed simp
  with r show ?thesis by blast
qed

text \<open>What \<^verbatim>\<open>run_continue\<close> does once the user, the pipeline and the run are found.\<close>

lemma run_continue_found:
  assumes "rq_method req = POST" and "us_is_authenticated (rq_user req)"
    and "get_pipeline (wb_tenant wb (og_schema_name tenant)) pipeline_id = Some pl"
    and "get_pipeline_run (wb_tenant wb (og_schema_name tenant)) pl run_id = Some run"
  shows "wb_tenant (snd (run_continue ids others req tenant pipeline_id run_id wb)) (og_schema_name tenant) =
    (case require_org_role (rq_user req) (og_id tenant) CONTINUATION_ROLES (wb_public wb) of
       Inl m \<Rightarrow> wb_tenant wb (og_schema_name tenant)
     | Inr m \<Rightarrow>
         (case existing_continuation run (wb_tenant wb (og_schema_name tenant)) of
            Some r \<Rightarrow> wb_tenant wb (og_schema_name tenant)
          | None \<Rightarrow> snd (trigger_manual_run ids pl (og_schema_name tenant) None (Some run)
                      (others (wb_tenant wb (og_schema_name tenant))))))"
  using assms by (simp add: run_continue_def post_only_def Let_def split: sum.split option.split prod.split)

lemma trigger_adds:
  assumes "find_key (fst (idempotency_key_for ids pl None w)) w = None" and "pl_is_active pl"
    and "pr_pipeline_id run = pl_id pl"
  shows "w_runs (snd (trigger_manual_run ids pl s None (Some run) w)) \<noteq> w_runs w \<longleftrightarrow> is_continuable run"
proof (cases "is_continuable run")
  case False
  then have "\<not> (pl_is_active pl \<and> may_continue pl (Some run))" by (simp add: may_continue_def)
  from trigger_refused [OF this, of ids s None w] False show ?thesis by auto
next
  case True
  with assms(3) have may: "may_continue pl (Some run)" by (simp add: may_continue_def)
  obtain k w1 where k: "idempotency_key_for ids pl None w = (k, w1)" by fastforce
  obtain r created w2 where g: "get_or_create_run ids pl k (Some run) w1 = (r, created, w2)"
    by (cases "get_or_create_run ids pl k (Some run) w1")
  obtain n where w1: "w1 = w\<lparr>w_drawn := n\<rparr>" using idempotency_key_for_frame [OF k] by blast
  have created: created "w_runs w2 = w_runs w @ [r]"
    using get_or_create_run_cases [OF g, unfolded w1] assms(1) k by (auto split: if_splits)
  show ?thesis
    using trigger_allowed [OF assms(2) may k g, of s] created True by (simp add: delay_def)
qed

lemma may_continue_roles:
  assumes "require_org_member u org p = Inr m"
  shows "(\<exists>x. require_org_role u org CONTINUATION_ROLES p = Inr x) \<longleftrightarrow>
    is_platform_operator u \<or> (case m of None \<Rightarrow> False | Some m \<Rightarrow> mb_role m \<in> set CONTINUATION_ROLES)"
proof (cases "is_platform_operator u")
  case False
  with assms obtain x where "get_membership u org p = Some x" "m = Some x"
    by (auto simp: require_org_member_def split: option.splits if_splits)
  with False show ?thesis by (simp add: require_org_role_def)
qed (simp add: require_org_role_def)

lemma trigger_inactive_adds:
  "\<not> pl_is_active pl \<Longrightarrow> snd (trigger_manual_run ids pl s key cont w) = w"
  by (simp add: trigger_manual_run_def)

text \<open>C28: What the button promises. When the page of a run is shown to a user, and that user then asks to
  continue the run, with no one else at work and with a fresh key drawn, a run is created
  exactly when the page offered to continue it and the pipeline is active. The page does not
  look at the second condition: for an inactive pipeline it may offer what the request refuses.\<close>

theorem continue_button_exact:
  assumes page: "run_detail req tenant pipeline_id run_id wb = Rendered page"
    and post: "rq_method req' = POST" "rq_user req' = rq_user req"
    and fresh: "find_key (fst (idempotency_key_for ids (rn_pipeline page) None (wb_tenant wb (og_schema_name tenant))))
      (wb_tenant wb (og_schema_name tenant)) = None"
  shows "w_runs (wb_tenant (snd (run_continue ids id req' tenant pipeline_id run_id wb)) (og_schema_name tenant)) \<noteq>
      w_runs (wb_tenant wb (og_schema_name tenant)) \<longleftrightarrow>
    rn_can_continue page \<and> pl_is_active (rn_pipeline page)"
proof -
  let ?w = "wb_tenant wb (og_schema_name tenant)"
  have auth: "us_is_authenticated (rq_user req)" using page by (simp add: run_detail_def login_required_def split: if_splits)
  from page auth obtain m where m: "require_org_member (rq_user req) (og_id tenant) (wb_public wb) = Inr m"
    by (auto simp: run_detail_def login_required_def split: sum.splits)
  from page auth m obtain pl run where found: "get_pipeline ?w pipeline_id = Some pl" "get_pipeline_run ?w pl run_id = Some run"
    and pg: "rn_pipeline page = pl" "rn_can_continue page \<longleftrightarrow> is_continuable run \<and> existing_continuation run ?w = None \<and>
      (\<exists>x. require_org_role (rq_user req) (og_id tenant) CONTINUATION_ROLES (wb_public wb) = Inr x)"
    unfolding may_continue_roles [OF m]
    by (auto simp: run_detail_def login_required_def Let_def split: option.splits)
  have own: "pr_pipeline_id run = pl_id pl"
    using found(2) by (auto simp: get_pipeline_run_def split: option.splits if_splits)
  note does = run_continue_found [OF post(1) _ found, of ids id, unfolded post(2), OF auth]
  show ?thesis
  proof (cases "pl_is_active pl")
    case True
    show ?thesis
      using trigger_adds [OF fresh [unfolded pg(1)] True own, of "og_schema_name tenant"] True
      by (auto simp: pg does split: sum.splits option.splits)
  next
    case False
    show ?thesis
      using trigger_inactive_adds [OF False] False
      by (auto simp: pg does split: sum.splits option.splits)
  qed
qed

subsection \<open>Starting and retrying from the tool\<close>

text \<open>What a start does, with no one else at work. While a job of the organization is active, it
  is shown, and nothing is created, audited or queued. Otherwise there is one new pending job of
  the mode that was asked for, dry unless it was \<^verbatim>\<open>real\<close>, one entry in the organization's own audit
  trail, and the job is in the queue, once.\<close>

theorem migration_start_exact:
  assumes "rq_method req = POST" and "is_platform_operator (rq_user req)"
    and "get_org (wb_public wb) org_id = Some org"
  shows "migration_start ids undisturbed req org_id wb =
    (case get_active_job org_id (wb_public wb) of
       Some active \<Rightarrow> (Redirect (MigrationJobDetail (mj_id active)), add_message (already_active_message org) wb)
     | None \<Rightarrow>
         (let dry_run = (rq_mode req \<noteq> Some ''real'');
              new = fresh_job ids (wb_public wb) org_id (Some (us_id (rq_user req))) dry_run
          in (Redirect (MigrationJobDetail (mj_id new)),
              wb\<lparr>wb_public := (with_job new (wb_public wb))\<lparr>pb_queue := pb_queue (wb_public wb) @ [mj_id new]\<rparr>,
                 wb_audit := (wb_audit wb)(og_schema_name org := wb_audit wb (og_schema_name org) @
                   [\<lparr>al_actor = Some (us_id (rq_user req)), al_action = requested_action dry_run,
                     al_target_type = ''RawPayloadMigrationJob'', al_target_id = mj_id new,
                     al_metadata = [(''dry_run'', JBool dry_run), (''job_id'', JStr (mj_id new))]\<rparr>])\<rparr>)))"
proof -
  have mode: "(or_default ''dry_run'' (rq_mode req) \<noteq> ''real'') = (rq_mode req \<noteq> Some ''real'')"
    by (cases "rq_mode req") (auto simp: or_default_def)
  have auth: "us_is_authenticated (rq_user req)" using assms(2) by (simp add: is_platform_operator_def)
  show ?thesis
  proof (cases "get_active_job org_id (wb_public wb)")
    case None
    with assms auth show ?thesis
      by (simp add: migration_start_def post_only_def require_platform_operator_def mode start_fresh Let_def
          enqueue_job_def record_migration_audit_event_def record_audit_event_def with_job_def)
  next
    case (Some active)
    with assms auth show ?thesis
      by (simp add: migration_start_def post_only_def require_platform_operator_def mode start_alone Let_def)
  qed
qed

text \<open>A retry gives a job that is already at work to the queue again. When the job of the page has
  ended and another job of the organization is active, the retry creates nothing, but the view
  does not look at that answer: it records the active job as requested and queues it once more,
  so that a second worker starts on it.\<close>

theorem retry_queues_active_job:
  assumes "rq_method req = POST" and "is_platform_operator (rq_user req)"
    and "get_job (wb_public wb) job_id = Some job" and "mj_status job \<noteq> JRUNNING"
    and "get_org (wb_public wb) (mj_organization job) = Some org"
    and "get_active_job (mj_organization job) (wb_public wb) = Some active"
  shows "fst (migration_job_retry ids undisturbed req job_id wb) = Redirect (MigrationJobDetail (mj_id active)) \<and>
    wb_public (snd (migration_job_retry ids undisturbed req job_id wb)) =
      (wb_public wb)\<lparr>pb_queue := pb_queue (wb_public wb) @ [mj_id active]\<rparr>"
  using assms
  by (simp add: migration_job_retry_def post_only_def require_platform_operator_def is_platform_operator_def
      retry_migration_job_def start_alone enqueue_job_def record_migration_audit_event_def record_audit_event_def)

subsection \<open>Requests at work\<close>

definition operator :: user where
  "operator = \<lparr>us_id = 9, us_is_authenticated = True, us_is_staff = True\<rparr>"

definition operator_post :: request where
  "operator_post = \<lparr>rq_method = POST, rq_user = operator, rq_mode = Some ''real''\<rparr>"

definition capped_run :: pipeline_run where
  "capped_run = example_run\<lparr>pr_status := FAILED, pr_error_category := Some CONTINUABLE_ERROR_CATEGORY\<rparr>"

definition example_web :: web where
  "example_web = \<lparr>wb_public = no_jobs,
     wb_tenant = (\<lambda>n. empty_world\<lparr>w_runs := [capped_run], w_pipelines := [manual_pipeline]\<rparr>),
     wb_audit = (\<lambda>n. []), wb_messages = []\<rparr>"

lemma example_web_simps [simp]:
  "rq_method operator_post = POST" "is_platform_operator (rq_user operator_post)" "rq_mode operator_post = Some ''real''"
  "wb_public example_web = no_jobs" "get_org no_jobs 1 = Some example_org" "get_active_job 1 no_jobs = None"
  by (simp_all add: operator_post_def operator_def is_platform_operator_def example_web_def no_jobs_def get_org_def
      find_row_def example_org_def get_active_job_def)

text \<open>The continuation of the failed run, by evaluation.\<close>

definition continued_web :: "unit response \<times> web" where
  "continued_web = run_continue str_of_nat id operator_post example_org ''p1'' ''r1'' example_web"

lemma continued_web_runs:
  "map pr_id (w_runs (wb_tenant (snd continued_web) ''acme'')) = [''r1'', ''1''] \<and>
   map pr_id (w_runs (wb_tenant example_web ''acme'')) = [''r1'']"
  by code_simp

definition example_page :: run_page where
  "example_page = \<lparr>rn_pipeline = manual_pipeline, rn_run = capped_run, rn_existing_continuation = None,
     rn_can_continue = True, rn_is_continuable = True\<rparr>"

lemma example_page_shown:
  "run_detail operator_post example_org ''p1'' ''r1'' example_web = Rendered example_page"
  by (simp add: run_detail_def login_required_def require_org_member_def get_membership_def example_org_def Let_def
      example_web_def get_pipeline_run_def get_run_def find_row_def get_pipeline_def capped_run_def example_run_def
      manual_pipeline_def example_page_def existing_continuation_def is_continuable_def empty_world_def)
    (simp add: operator_post_def operator_def is_platform_operator_def no_jobs_def)

theorem continue_button_exact_witness:
  "map pr_id (w_runs (wb_tenant (snd continued_web) ''acme'')) \<noteq> map pr_id (w_runs (wb_tenant example_web ''acme'')) \<and>
   rn_can_continue example_page"
proof -
  have "find_key (fst (idempotency_key_for str_of_nat (rn_pipeline example_page) None
      (wb_tenant example_web (og_schema_name example_org)))) (wb_tenant example_web (og_schema_name example_org)) = None"
    by code_simp
  then have exact: "w_runs (wb_tenant (snd (run_continue str_of_nat id operator_post example_org ''p1'' ''r1'' example_web))
        (og_schema_name example_org)) \<noteq> w_runs (wb_tenant example_web (og_schema_name example_org)) \<longleftrightarrow>
      rn_can_continue example_page \<and> pl_is_active (rn_pipeline example_page)"
    by (intro continue_button_exact [OF example_page_shown]) simp_all
  have "og_schema_name example_org = ''acme''" by (simp add: example_org_def)
  with exact show ?thesis
    using continued_web_runs unfolding continued_web_def [symmetric] by auto
qed

text \<open>The same run of the same pipeline, made inactive: the page still offers to continue it, and the
  request creates nothing.\<close>

definition inactive_web :: web where
  "inactive_web = example_web\<lparr>wb_tenant := (\<lambda>n. empty_world\<lparr>w_runs := [capped_run],
     w_pipelines := [manual_pipeline\<lparr>pl_is_active := False\<rparr>]\<rparr>)\<rparr>"

theorem inactive_pipeline_is_offered:
  "(case run_detail operator_post example_org ''p1'' ''r1'' inactive_web of
      Rendered page \<Rightarrow> rn_can_continue page | _ \<Rightarrow> False) \<and>
   map pr_id (w_runs (wb_tenant (snd (run_continue str_of_nat id operator_post example_org ''p1'' ''r1'' inactive_web))
     ''acme'')) = [''r1'']"
  by code_simp

theorem run_continued_once_witness:
  "wb_tenant (snd (run_continue str_of_nat id operator_post example_org ''p1'' ''r1'' (snd continued_web))) =
   wb_tenant (snd continued_web)"
proof -
  have c: "run_continue str_of_nat id operator_post example_org ''p1'' ''r1'' example_web = (fst continued_web, snd continued_web)"
    by (simp add: continued_web_def)
  have new: "w_runs (wb_tenant (snd continued_web) (og_schema_name example_org)) \<noteq>
      w_runs (wb_tenant example_web (og_schema_name example_org))"
    using continued_web_runs by (auto simp: example_org_def)
  show ?thesis using run_continued_once [OF c new, where reqs = "[(id, operator_post)]"] by simp
qed

text \<open>Two requests that both look before either of them has written: when the first one commits between the
  look and the trigger of the second, the run is continued twice.\<close>

theorem continuation_races:
  "map pr_continued_from (w_runs (wb_tenant (snd (run_continue str_of_nat
     (\<lambda>w. wb_tenant (snd continued_web) ''acme'') operator_post example_org ''p1'' ''r1'' example_web)) ''acme'')) =
   [None, Some ''r1'', Some ''r1'']"
  by code_simp

theorem migration_start_exact_witness:
  "pb_queue (wb_public (snd (migration_start job_ids undisturbed operator_post 1 example_web))) = [[]] \<and>
   map al_action (wb_audit (snd (migration_start job_ids undisturbed operator_post 1 example_web)) ''acme'') =
     [''raw_payload_migration.started'']"
proof -
  have org: "get_org (wb_public example_web) 1 = Some example_org" by simp
  show ?thesis
    unfolding migration_start_exact [OF example_web_simps(1,2) org]
    by (simp add: Let_def fresh_job_def job_ids_def requested_action_def example_org_def)
      (simp add: example_web_def no_jobs_def)
qed

definition busy_web :: web where
  "busy_web = example_web\<lparr>wb_public := no_jobs\<lparr>pb_jobs := [real_job\<lparr>mj_status := JFAILED\<rparr>,
     real_job\<lparr>mj_id := ''j'', mj_status := JRUNNING\<rparr>], pb_drawn := 2, pb_queue := [''j'']\<rparr>\<rparr>"

theorem retry_queues_active_job_witness:
  "pb_queue (wb_public (snd (migration_job_retry job_ids undisturbed operator_post [] busy_web))) = [''j'', ''j'']"
proof -
  have "wb_public (snd (migration_job_retry job_ids undisturbed operator_post [] busy_web)) =
      (wb_public busy_web)\<lparr>pb_queue := pb_queue (wb_public busy_web) @ [mj_id (real_job\<lparr>mj_id := ''j'', mj_status := JRUNNING\<rparr>)]\<rparr>"
    by (rule retry_queues_active_job [where job = "real_job\<lparr>mj_status := JFAILED\<rparr>" and org = example_org, THEN conjunct2])
      (simp_all add: busy_web_def get_job_def find_row_def real_job_def fresh_job_def job_ids_def get_org_def no_jobs_def
        example_org_def get_active_job_def active_job_of_def job_active_def)
  then show ?thesis by (simp add: busy_web_def)
qed

end
