(* ===== verification/Routing.thy ===== *)
theory Routing
  imports OpsUI
begin

text \<open>
  The two sites of the operator UI: \<^verbatim>\<open>config/urls_public.py\<close> with \<^verbatim>\<open>apps/opsui/urls_public.py\<close> on the
  hostnames that belong to no tenant, \<^verbatim>\<open>config/urls.py\<close> with \<^verbatim>\<open>apps/opsui/urls_tenant.py\<close> on a tenant's
  domain. The organization whose domain the request arrived on is found by the middleware of
  django-tenants and is an argument here; the login and the admin site are Django's.
\<close>

subsection \<open>Paths\<close>

text \<open>The converters \<^verbatim>\<open>int\<close> and \<^verbatim>\<open>uuid\<close> of a path.\<close>

definition int_segment :: "string \<Rightarrow> int option" where
  "int_segment s = (if s \<noteq> [] \<and> list_all is_digit s then py_int s else None)"

definition lower_hex :: "char \<Rightarrow> bool" where
  "lower_hex c = (is_digit c \<or> c \<in> set ''abcdef'')"

definition uuid_segment :: "string \<Rightarrow> uuid option" where
  "uuid_segment s =
     (if map length (split_char (CHR ''-'') s) = [8, 4, 4, 4, 12] \<and>
         list_all (list_all lower_hex) (split_char (CHR ''-'') s)
      then Some s else None)"

text \<open>The views by the names of their paths; a view of the tenant's site carries the tenant.\<close>

datatype view =
    OrgList
  | MigrationOrgDetail int
  | MigrationStart int
  | MigrationJobPage uuid
  | MigrationJobProgress uuid
  | MigrationJobRetry uuid
  | MigrationJobCancel uuid
  | MigrationJobExport uuid
  | TenantHome organization
  | RunList organization uuid
  | RunPage organization uuid uuid
  | RunContinue organization uuid uuid

fun public_view :: "string list \<Rightarrow> view option" where
  "public_view [a] = (if a = [] then Some OrgList else None)"
| "public_view [a, b, c] =
     (if c \<noteq> [] then None
      else if a = ''orgs'' then map_option MigrationOrgDetail (int_segment b)
      else if a = ''jobs'' then map_option MigrationJobPage (uuid_segment b)
      else None)"
| "public_view [a, b, c, d] =
     (if d \<noteq> [] then None
      else if a = ''orgs'' then (if c = ''start'' then map_option MigrationStart (int_segment b) else None)
      else if a = ''jobs''
      then (if c = ''progress'' then map_option MigrationJobProgress (uuid_segment b)
            else if c = ''retry'' then map_option MigrationJobRetry (uuid_segment b)
            else if c = ''cancel'' then map_option MigrationJobCancel (uuid_segment b)
            else if c = ''export'' then map_option MigrationJobExport (uuid_segment b)
            else None)
      else None)"
| "public_view _ = None"

fun tenant_view :: "organization \<Rightarrow> string list \<Rightarrow> view option" where
  "tenant_view org [a] = (if a = [] then Some (TenantHome org) else None)"
| "tenant_view org [a, b, c] =
     (if b = ''runs'' \<and> c = [] then map_option (RunList org) (uuid_segment a) else None)"
| "tenant_view org [a, b, c, d] =
     (if b = ''runs'' \<and> d = []
      then (case uuid_segment a of None \<Rightarrow> None | Some i \<Rightarrow> map_option (RunPage org i) (uuid_segment c)) else None)"
| "tenant_view org [a, b, c, d, e] =
     (if b = ''runs'' \<and> d = ''continue'' \<and> e = []
      then (case uuid_segment a of None \<Rightarrow> None | Some i \<Rightarrow> map_option (RunContinue org i) (uuid_segment c)) else None)"
| "tenant_view org _ = None"

text \<open>A path as Django sees it, without the leading slash.\<close>

definition route :: "organization option \<Rightarrow> string \<Rightarrow> view option" where
  "route tenant path =
     (case split_char (CHR ''/'') path of
        [] \<Rightarrow> None
      | p # segments \<Rightarrow>
          (case tenant of
             None \<Rightarrow> if p = ''ops'' then public_view segments else None
           | Some org \<Rightarrow> if p = ''pipelines'' then tenant_view org segments else None))"

subsection \<open>Serving a request\<close>

datatype page =
    OrganizationsPage "organization list"
  | OrganizationPage org_page
  | ExportText string
  | HomePage "pipeline list" organization
  | RunsPage pipeline "pipeline_run list"
  | RunDetailPage run_page

text \<open>The web process: the identifiers it draws, the other processes, and how a time is printed.\<close>

record server =
  sv_ids :: "nat \<Rightarrow> uuid"
  sv_others :: "nat \<Rightarrow> public \<Rightarrow> public"
  sv_tenant_others :: "world \<Rightarrow> world"
  sv_str_time :: "timestamp \<Rightarrow> string"

text \<open>An acting view renders nothing.\<close>

definition acted :: "unit response \<times> web \<Rightarrow> page response \<times> web" where
  "acted r = (case r of (rsp, wb) \<Rightarrow>
     (case rsp of
        Rendered u \<Rightarrow> NotFound
      | Redirect t \<Rightarrow> Redirect t
      | LoginRedirect \<Rightarrow> LoginRedirect
      | NotAllowed \<Rightarrow> NotAllowed
      | NotFound \<Rightarrow> NotFound
      | Forbidden m \<Rightarrow> Forbidden m
      | ServerError e \<Rightarrow> ServerError e, wb))"

fun run_view :: "server \<Rightarrow> view \<Rightarrow> request \<Rightarrow> web \<Rightarrow> page response \<times> web" where
  "run_view sv OrgList req wb = (map_response OrganizationsPage (org_list req (wb_public wb)), wb)"
| "run_view sv (MigrationOrgDetail i) req wb =
     (map_response OrganizationPage (migration_org_detail req i (wb_public wb)), wb)"
| "run_view sv (MigrationStart i) req wb = acted (migration_start (sv_ids sv) (sv_others sv) req i wb)"
| "run_view sv (MigrationJobPage j) req wb =
     (map_response OrganizationPage (migration_job_detail req j (wb_public wb)), wb)"
| "run_view sv (MigrationJobProgress j) req wb =
     (map_response OrganizationPage (migration_job_progress req j (wb_public wb)), wb)"
| "run_view sv (MigrationJobRetry j) req wb = acted (migration_job_retry (sv_ids sv) (sv_others sv) req j wb)"
| "run_view sv (MigrationJobCancel j) req wb = acted (migration_job_cancel req j wb)"
| "run_view sv (MigrationJobExport j) req wb =
     (map_response ExportText (migration_job_export (sv_str_time sv) req j (wb_public wb)), wb)"
| "run_view sv (TenantHome org) req wb = (map_response (\<lambda>(pls, t). HomePage pls t) (tenant_home req org wb), wb)"
| "run_view sv (RunList org i) req wb = (map_response (\<lambda>(pl, runs). RunsPage pl runs) (run_list req org i wb), wb)"
| "run_view sv (RunPage org i j) req wb = (map_response RunDetailPage (run_detail req org i j wb), wb)"
| "run_view sv (RunContinue org i j) req wb = acted (run_continue (sv_ids sv) (sv_tenant_others sv) req org i j wb)"

definition serve :: "server \<Rightarrow> organization option \<Rightarrow> string \<Rightarrow> request \<Rightarrow> web \<Rightarrow> page response \<times> web" where
  "serve sv tenant path req wb =
     (case route tenant path of None \<Rightarrow> (NotFound, wb) | Some v \<Rightarrow> run_view sv v req wb)"

subsection \<open>What a site reaches\<close>

text \<open>The site on which a view is.\<close>

fun on_site :: "organization option \<Rightarrow> view \<Rightarrow> bool" where
  "on_site tenant (TenantHome org) = (tenant = Some org)"
| "on_site tenant (RunList org i) = (tenant = Some org)"
| "on_site tenant (RunPage org i j) = (tenant = Some org)"
| "on_site tenant (RunContinue org i j) = (tenant = Some org)"
| "on_site tenant v = (tenant = None)"

lemma public_view_site: "public_view segments = Some v \<Longrightarrow> on_site None v"
  by (induction segments rule: public_view.induct) (auto split: if_splits)

lemma tenant_view_site: "tenant_view org segments = Some v \<Longrightarrow> on_site (Some org) v"
  by (induction org segments rule: tenant_view.induct) (auto split: if_splits option.splits)

lemma route_site: "route tenant path = Some v \<Longrightarrow> on_site tenant v"
  using public_view_site tenant_view_site by (auto simp: route_def split: list.splits option.splits if_splits)

lemma acted_snd [simp]: "snd (acted r) = snd r"
  by (simp add: acted_def split: prod.split)

lemma acted_not_rendered [simp]: "fst (acted r) \<noteq> Rendered pg"
  by (simp add: acted_def split: prod.split response.split)

lemma migration_view_tenants:
  "wb_tenant (snd (migration_view ids others req action wb)) = wb_tenant wb"
  by (cases action)
    (auto simp: migration_start_def migration_job_retry_def migration_job_cancel_def post_only_def enqueue_job_def
      record_migration_audit_event_def Let_def split: option.splits sum.splits prod.splits if_splits bool.splits)

text \<open>A view of the public site is a reading one or one of the three actions.\<close>

lemma public_acts:
  assumes "on_site None v"
  obtains "snd (run_view sv v req wb) = wb"
  | action where "snd (run_view sv v req wb) = snd (migration_view (sv_ids sv) (sv_others sv) req action wb)"
proof (cases v)
  case (MigrationStart i)
  then show ?thesis using that(2) [of "Start i"] by simp
next
  case (MigrationJobRetry j)
  then show ?thesis using that(2) [of "Retry j"] by simp
next
  case (MigrationJobCancel j)
  then show ?thesis using that(2) [of "Cancel j"] by simp
qed (use assms that(1) in auto)

lemma tenant_acts:
  assumes "on_site (Some org) v"
  obtains "snd (run_view sv v req wb) = wb"
  | i j where "snd (run_view sv v req wb) = snd (run_continue (sv_ids sv) (sv_tenant_others sv) req org i j wb)"
proof (cases v)
  case (RunContinue org' i j)
  then show ?thesis using assms that(2) [of i j] by simp
qed (use assms that(1) in auto)

text \<open>The organization on whose data a view of the public site records what an operator does, and what may
  then be added to the audit trails: nothing, or one entry in that organization's, by the user.\<close>

fun audited_organization :: "public \<Rightarrow> view \<Rightarrow> organization option" where
  "audited_organization p (MigrationStart i) = get_org p i"
| "audited_organization p (MigrationJobRetry j) =
     (case get_job p j of None \<Rightarrow> None | Some job \<Rightarrow> get_org p (mj_organization job))"
| "audited_organization p v = None"

definition trail_grows :: "organization option \<Rightarrow> int \<Rightarrow> web \<Rightarrow> web \<Rightarrow> bool" where
  "trail_grows org user wb wb' =
     (wb_audit wb' = wb_audit wb \<or>
      (case org of
         None \<Rightarrow> False
       | Some org \<Rightarrow> (\<forall>n. n \<noteq> og_schema_name org \<longrightarrow> wb_audit wb' n = wb_audit wb n) \<and>
           (\<exists>entry. al_actor entry = Some user \<and>
              wb_audit wb' (og_schema_name org) = wb_audit wb (og_schema_name org) @ [entry])))"

lemma trail_grows_same: "wb_audit wb' = wb_audit wb \<Longrightarrow> trail_grows org user wb wb'"
  by (simp add: trail_grows_def)

lemma start_trail:
  "trail_grows (get_org (wb_public wb) i) (us_id (rq_user req)) wb (snd (migration_start ids others req i wb))"
  by (auto simp: migration_start_def post_only_def enqueue_job_def record_migration_audit_event_def
      record_audit_event_def add_message_def Let_def trail_grows_def
      split: option.splits sum.splits prod.splits bool.splits)

lemma retry_trail:
  "trail_grows (case get_job (wb_public wb) j of None \<Rightarrow> None | Some job \<Rightarrow> get_org (wb_public wb) (mj_organization job))
     (us_id (rq_user req)) wb (snd (migration_job_retry ids others req j wb))"
  by (auto simp: migration_job_retry_def post_only_def enqueue_job_def record_migration_audit_event_def
      record_audit_event_def add_message_def Let_def trail_grows_def
      split: option.splits sum.splits prod.splits if_splits)

lemma cancel_trail: "wb_audit (snd (migration_job_cancel req j wb)) = wb_audit wb"
  by (auto simp: migration_job_cancel_def post_only_def add_message_def
      split: option.splits sum.splits prod.splits if_splits)

lemma public_trail:
  assumes "on_site None v"
  shows "trail_grows (audited_organization (wb_public wb) v) (us_id (rq_user req)) wb (snd (run_view sv v req wb))"
  using assms start_trail retry_trail cancel_trail
  by (cases v) (auto intro: trail_grows_same)

text \<open>C24: Whatever arrives, the sites keep to themselves. Any request to the public site that changes
  anything is a POST of an authenticated staff user, and of the tenants' schemas it changes
  nothing but the audit trail of the organization it is about, by at most one entry that names
  the user. Any request on a tenant's domain that changes anything is a POST of staff or of an owner,
  admin or engineer of that tenant, and it changes neither the public tables nor anything, the
  audit trail included, of another tenant.\<close>

theorem requests_are_confined:
  assumes "snd (serve sv tenant path req wb) \<noteq> wb"
  shows "rq_method req = POST \<and>
    (case tenant of
       None \<Rightarrow> is_platform_operator (rq_user req) \<and> wb_tenant (snd (serve sv tenant path req wb)) = wb_tenant wb \<and>
         (\<exists>v. route None path = Some v \<and>
            trail_grows (audited_organization (wb_public wb) v) (us_id (rq_user req)) wb (snd (serve sv tenant path req wb)))
     | Some org \<Rightarrow> has_role (rq_user req) (og_id org) CONTINUATION_ROLES (wb_public wb) \<and>
         only_tenant_changed (og_schema_name org) wb (snd (serve sv tenant path req wb)))"
proof -
  from assms obtain v where v: "route tenant path = Some v" by (auto simp: serve_def split: option.splits)
  then have s: "serve sv tenant path req wb = run_view sv v req wb" by (simp add: serve_def)
  note site = route_site [OF v]
  show ?thesis
  proof (cases tenant)
    case None
    with site have pub: "on_site None v" by simp
    note trail = public_trail [OF pub, of wb req sv]
    from pub show ?thesis
    proof (cases rule: public_acts [where sv = sv and req = req and wb = wb])
      case 1
      with assms s show ?thesis by simp
    next
      case (2 action)
      with migration_view_guarded [of req "sv_ids sv" "sv_others sv" action wb] assms s
      have "rq_method req = POST \<and> is_platform_operator (rq_user req)" by auto
      with 2 None s migration_view_tenants trail v show ?thesis by auto
    qed
  next
    case (Some org)
    with site have "on_site (Some org) v" by simp
    then show ?thesis
    proof (cases rule: tenant_acts [where sv = sv and req = req and wb = wb])
      case 1
      with assms s show ?thesis by simp
    next
      case (2 i j)
      with assms s have "snd (run_continue (sv_ids sv) (sv_tenant_others sv) req org i j wb) \<noteq> wb" by simp
      from run_continue_guarded [OF this] run_continue_confined [of org wb "sv_ids sv" "sv_tenant_others sv" req i j] 2 Some s
      show ?thesis by simp
    qed
  qed
qed

text \<open>The organizations that a page of the public site shows something of.\<close>

fun shown_organizations :: "public \<Rightarrow> view \<Rightarrow> page \<Rightarrow> int set" where
  "shown_organizations p v (OrganizationsPage orgs) = og_id ` set orgs"
| "shown_organizations p v (OrganizationPage pg) =
     insert (og_id (op_organization pg)) (case op_job pg of None \<Rightarrow> {} | Some j \<Rightarrow> {mj_organization j})"
| "shown_organizations p (MigrationJobExport i) (ExportText text) =
     (case get_job p i of None \<Rightarrow> {} | Some j \<Rightarrow> {mj_organization j})"
| "shown_organizations p v pg = {}"

lemma get_org_id: "get_org p i = Some org \<Longrightarrow> og_id org = i"
  using find_row_key by (fastforce simp: get_org_def)

lemma get_active_job_org: "get_active_job org p = Some j \<Longrightarrow> mj_organization j = org"
  using find_Some_iff [of "active_job_of org" "rev (pb_jobs p)" j] by (auto simp: get_active_job_def active_job_of_def)

lemma latest_job_org: "latest_job org p = Some j \<Longrightarrow> mj_organization j = org"
  by (auto simp: latest_job_def find_Some_iff)

lemma org_list_roles:
  assumes "org_list req p = Rendered orgs" and "org \<in> set orgs"
  shows "has_role (rq_user req) (og_id org) MIGRATION_VIEW_ROLES p"
  using assms
  by (auto simp: org_list_def login_required_def has_role_def is_platform_operator_def list_ex_iff split: if_splits)

lemma org_detail_roles:
  assumes "migration_org_detail req i p = Rendered pg"
  shows "has_role (rq_user req) i MIGRATION_VIEW_ROLES p \<and> shown_organizations p v (OrganizationPage pg) = {i}"
  using assms get_org_id get_active_job_org latest_job_org require_org_role_has
  by (auto simp: migration_org_detail_def login_required_def split: if_splits option.splits sum.splits)

lemma job_page_roles:
  assumes "visible_job req i p = Rendered pg" and "o' \<in> shown_organizations p v (OrganizationPage pg)"
  shows "has_role (rq_user req) o' MIGRATION_VIEW_ROLES p"
  using visible_job_has_role [OF assms(1)] assms(2) get_org_id by (auto split: option.splits)

lemma export_roles:
  assumes "migration_job_export f req i p = Rendered t" and "get_job p i = Some job"
  shows "has_role (rq_user req) (mj_organization job) MIGRATION_VIEW_ROLES p"
proof -
  from assms(1) obtain pg where "visible_job req i p = Rendered pg"
    by (auto simp: migration_job_export_def login_required_def split: if_splits response.splits option.splits)
  from visible_job_has_role [OF this] assms(2) get_org_id show ?thesis by auto
qed

lemma map_response_Rendered: "map_response f rsp = Rendered y \<longleftrightarrow> (\<exists>x. rsp = Rendered x \<and> y = f x)"
  by (cases rsp) auto

lemma login_Rendered: "login_required req rsp = Rendered pg \<Longrightarrow> rsp = Rendered pg"
  by (simp add: login_required_def split: if_splits)

lemma tenant_pages_need_membership:
  assumes "on_site (Some org) v" and "fst (run_view sv v req wb) = Rendered pg"
  shows "has_role (rq_user req) (og_id org) VIEW_ROLES (wb_public wb)"
  using assms require_org_member_has
  by (cases v)
    (auto simp: map_response_Rendered tenant_home_def run_list_def run_detail_def
      split: sum.splits dest!: login_Rendered)

lemma public_pages_need_role:
  assumes "on_site None v" and "fst (run_view sv v req wb) = Rendered pg"
    and "i \<in> shown_organizations (wb_public wb) v pg"
  shows "has_role (rq_user req) i MIGRATION_VIEW_ROLES (wb_public wb)"
proof (cases v)
  case OrgList
  with assms org_list_roles show ?thesis by (auto simp: map_response_Rendered)
next
  case (MigrationOrgDetail j)
  with assms(2) obtain x where x: "migration_org_detail req j (wb_public wb) = Rendered x" "pg = OrganizationPage x"
    by (auto simp: map_response_Rendered)
  with org_detail_roles [OF x(1), of v] assms(3) show ?thesis by auto
next
  case (MigrationJobPage j)
  with assms(2) obtain x where x: "migration_job_detail req j (wb_public wb) = Rendered x" "pg = OrganizationPage x"
    by (auto simp: map_response_Rendered)
  from job_page_roles [OF login_Rendered [OF x(1) [unfolded migration_job_detail_def]]] assms(3) x(2)
  show ?thesis by blast
next
  case (MigrationJobProgress j)
  with assms(2) obtain x where x: "migration_job_progress req j (wb_public wb) = Rendered x" "pg = OrganizationPage x"
    by (auto simp: map_response_Rendered)
  from job_page_roles [OF login_Rendered [OF x(1) [unfolded migration_job_progress_def]]] assms(3) x(2)
  show ?thesis by blast
next
  case (MigrationJobExport j)
  with assms(2) obtain x where x: "migration_job_export (sv_str_time sv) req j (wb_public wb) = Rendered x" "pg = ExportText x"
    by (auto simp: map_response_Rendered)
  with export_roles [OF x(1)] assms(3) MigrationJobExport show ?thesis by (auto split: option.splits)
qed (use assms in auto)

text \<open>C25: Whatever arrives, pages are shown to the right people only. A page of the public site shows an
  organization, its jobs or an export of one only to staff and to its owners and admins; a
  page on a tenant's domain is rendered only for staff and for members of that tenant.\<close>

theorem pages_need_a_role:
  assumes "route tenant path = Some v" and "fst (serve sv tenant path req wb) = Rendered pg"
  shows "case tenant of
      None \<Rightarrow> \<forall>i \<in> shown_organizations (wb_public wb) v pg. has_role (rq_user req) i MIGRATION_VIEW_ROLES (wb_public wb)
    | Some org \<Rightarrow> has_role (rq_user req) (og_id org) VIEW_ROLES (wb_public wb)"
  using assms route_site [OF assms(1)] public_pages_need_role [of v sv req wb pg] tenant_pages_need_membership [of _ v sv req wb pg]
  by (auto simp: serve_def split: option.splits)

subsection \<open>Requests\<close>

definition example_server :: server where
  "example_server = \<lparr>sv_ids = job_ids, sv_others = undisturbed, sv_tenant_others = id, sv_str_time = str_of_nat\<rparr>"

lemma start_path: "route None ''ops/orgs/1/start/'' = Some (MigrationStart 1)"
  by code_simp

lemma home_path: "route (Some example_org) ''pipelines/'' = Some (TenantHome example_org)"
  by code_simp

theorem requests_are_confined_witness:
  "wb_tenant (snd (serve example_server None ''ops/orgs/1/start/'' operator_post example_web)) = wb_tenant example_web \<and>
   pb_queue (wb_public (snd (serve example_server None ''ops/orgs/1/start/'' operator_post example_web))) = [[]]"
proof -
  have q: "pb_queue (wb_public (snd (serve example_server None ''ops/orgs/1/start/'' operator_post example_web))) = [[]]"
    unfolding serve_def start_path by code_simp
  then have "snd (serve example_server None ''ops/orgs/1/start/'' operator_post example_web) \<noteq> example_web"
    by (auto simp: example_web_def no_jobs_def)
  from requests_are_confined [OF this] q show ?thesis by simp
qed

theorem pages_need_a_role_witness:
  "has_role (rq_user operator_post) 1 VIEW_ROLES no_jobs"
proof -
  have "fst (serve example_server (Some example_org) ''pipelines/'' operator_post example_web) =
      Rendered (HomePage [manual_pipeline] example_org)"
    unfolding serve_def home_path
    by (simp add: tenant_home_def login_required_def require_org_member_def)
      (simp add: example_web_def operator_post_def operator_def)
  from pages_need_a_role [OF home_path this] show ?thesis by (simp add: example_org_def)
qed

end
