(* ===== verification/Links.thy ===== *)
theory Links
  imports Routing
begin

text \<open>
  The addresses of the pages, as \<^verbatim>\<open>redirect\<close> and the templates build them from the names in
  \<^verbatim>\<open>apps/opsui/urls_public.py\<close> and \<^verbatim>\<open>urls_tenant.py\<close>, against the routing of requests; and
  what a browser meets when it follows the answer to a request.
\<close>

subsection \<open>Addresses\<close>

text \<open>The site of a view, and its path there without the leading slash.\<close>

fun site_of :: "view \<Rightarrow> organization option" where
  "site_of (TenantHome org) = Some org"
| "site_of (RunList org i) = Some org"
| "site_of (RunPage org i j) = Some org"
| "site_of (RunContinue org i j) = Some org"
| "site_of v = None"

fun path_segments :: "view \<Rightarrow> string list" where
  "path_segments OrgList = []"
| "path_segments (MigrationOrgDetail i) = [''orgs'', str_of_int i]"
| "path_segments (MigrationStart i) = [''orgs'', str_of_int i, ''start'']"
| "path_segments (MigrationJobPage j) = [''jobs'', j]"
| "path_segments (MigrationJobProgress j) = [''jobs'', j, ''progress'']"
| "path_segments (MigrationJobRetry j) = [''jobs'', j, ''retry'']"
| "path_segments (MigrationJobCancel j) = [''jobs'', j, ''cancel'']"
| "path_segments (MigrationJobExport j) = [''jobs'', j, ''export'']"
| "path_segments (TenantHome org) = []"
| "path_segments (RunList org i) = [i, ''runs'']"
| "path_segments (RunPage org i j) = [i, ''runs'', j]"
| "path_segments (RunContinue org i j) = [i, ''runs'', j, ''continue'']"

definition path_of :: "view \<Rightarrow> string" where
  "path_of v = join_with ''/'' ((case site_of v of None \<Rightarrow> ''ops'' | Some org \<Rightarrow> ''pipelines'') # path_segments v @ [[]])"

text \<open>The arguments of a view have the form of their converters.\<close>

definition uuid_text :: "string \<Rightarrow> bool" where
  "uuid_text s = (uuid_segment s = Some s)"

fun addressable :: "view \<Rightarrow> bool" where
  "addressable (MigrationOrgDetail i) = (0 \<le> i)"
| "addressable (MigrationStart i) = (0 \<le> i)"
| "addressable (MigrationJobPage j) = uuid_text j"
| "addressable (MigrationJobProgress j) = uuid_text j"
| "addressable (MigrationJobRetry j) = uuid_text j"
| "addressable (MigrationJobCancel j) = uuid_text j"
| "addressable (MigrationJobExport j) = uuid_text j"
| "addressable (RunList org i) = uuid_text i"
| "addressable (RunPage org i j) = (uuid_text i \<and> uuid_text j)"
| "addressable (RunContinue org i j) = (uuid_text i \<and> uuid_text j)"
| "addressable v = True"

lemma split_char_chars: "set s \<subseteq> insert c (\<Union> (set ` set (split_char c s)))"
proof (induction s)
  case (Cons x xs)
  then show ?case by (cases "split_char c xs") (simp_all, blast+)
qed simp

lemma uuid_text_no_slash:
  assumes "uuid_text s"
  shows "CHR ''/'' \<notin> set s"
proof
  assume "CHR ''/'' \<in> set s"
  with split_char_chars [of s "CHR ''-''"] obtain p where
    "p \<in> set (split_char (CHR ''-'') s)" "CHR ''/'' \<in> set p" by auto
  moreover have "list_all (list_all lower_hex) (split_char (CHR ''-'') s)"
    using assms by (simp add: uuid_text_def uuid_segment_def split: if_splits)
  ultimately have "lower_hex (CHR ''/'')" by (auto simp: list_all_iff)
  then show False by (simp add: lower_hex_def is_digit_def)
qed

lemma uuid_text_segment: "uuid_text s \<Longrightarrow> uuid_segment s = Some s"
  by (simp add: uuid_text_def)

lemma str_of_int_nat: "0 \<le> i \<Longrightarrow> str_of_int i = str_of_nat (nat i)"
  by (simp add: str_of_int_def)

lemma int_segment_str: "0 \<le> i \<Longrightarrow> int_segment (str_of_int i) = Some i"
  using str_of_nat_digits [of "nat i"] by (simp add: int_segment_def list_all_iff str_of_int_nat [symmetric])

lemma int_no_slash: "0 \<le> i \<Longrightarrow> CHR ''/'' \<notin> set (str_of_int i)"
  using str_of_nat_not_in [of "CHR ''/''" "nat i"] by (simp add: str_of_int_nat is_digit_def)

lemma segments_no_slash: "addressable v \<Longrightarrow> p \<in> set (path_segments v) \<Longrightarrow> CHR ''/'' \<notin> set p"
  by (cases v) (auto dest: uuid_text_no_slash int_no_slash)

lemma split_path:
  assumes "addressable v"
  shows "split_char (CHR ''/'') (path_of v) =
    (case site_of v of None \<Rightarrow> ''ops'' | Some org \<Rightarrow> ''pipelines'') # path_segments v @ [[]]"
  unfolding path_of_def
  by (rule split_join) (auto dest: segments_no_slash [OF assms] split: option.splits)

lemma links_path:
  assumes "addressable v"
  shows "route (site_of v) (path_of v) = Some v"
  unfolding route_def split_path [OF assms]
  using assms by (cases v) (simp_all add: int_segment_str uuid_text_segment)

text \<open>The address of a page leads to that page: on the site of the view, the path that is built from
  its name and arguments is routed back to it.\<close>

theorem links_lead_to_their_views:
  assumes "addressable v"
  shows "route (site_of v) (path_of v) = Some v"
  by (rule links_path [OF assms])

text \<open>Where a browser is sent after the login, \<^verbatim>\<open>LOGIN_REDIRECT_URL\<close>: the page exists on the public site only.\<close>

definition LOGIN_REDIRECT_URL :: string where
  "LOGIN_REDIRECT_URL = ''ops/''"

theorem login_ends_nowhere_on_a_domain:
  "route None LOGIN_REDIRECT_URL = Some OrgList \<and> route (Some org) LOGIN_REDIRECT_URL = None"
  by (simp add: LOGIN_REDIRECT_URL_def route_def)


subsection \<open>Redirects\<close>

text \<open>The view whose address \<^verbatim>\<open>redirect\<close> looks up: the names of the other site are not known on a site.\<close>

fun target_view :: "organization option \<Rightarrow> target \<Rightarrow> view option" where
  "target_view None (MigrationJobDetail j) = Some (MigrationJobPage j)"
| "target_view (Some org) (RunDetail i j) = Some (RunPage org i j)"
| "target_view tenant t = None"

text \<open>What a browser gets in the end.\<close>

definition browse :: "server \<Rightarrow> organization option \<Rightarrow> string \<Rightarrow> request \<Rightarrow> web \<Rightarrow> page response \<times> web" where
  "browse sv tenant path req wb =
     (case serve sv tenant path req wb of
        (Redirect t, wb') \<Rightarrow>
          (case target_view tenant t of
             None \<Rightarrow> (ServerError (PyExn OtherException ''NoReverseMatch''), wb')
           | Some v \<Rightarrow> serve sv tenant (path_of v) (req\<lparr>rq_method := GET\<rparr>) wb')
      | r \<Rightarrow> r)"

text \<open>Jobs have identifiers of the right form and belong to organizations in the table, as the foreign key
  demands.\<close>

definition jobs_listed :: "public \<Rightarrow> bool" where
  "jobs_listed p = list_all (\<lambda>j. uuid_text (mj_id j) \<and> mj_organization j \<in> og_id ` set (pb_orgs p)) (pb_jobs p)"

lemma get_org_some: "get_org p i \<noteq> None \<longleftrightarrow> i \<in> og_id ` set (pb_orgs p)"
  by (simp add: get_org_def find_row_None)

lemma get_job_some: "get_job p i \<noteq> None \<longleftrightarrow> i \<in> mj_id ` set (pb_jobs p)"
  by (simp add: get_job_def find_row_None)

lemma jobs_listed_queue [simp]: "jobs_listed (p\<lparr>pb_queue := q\<rparr>) = jobs_listed p"
  by (simp add: jobs_listed_def)

definition lists :: "public \<Rightarrow> uuid \<Rightarrow> bool" where
  "lists p j = (jobs_listed p \<and> j \<in> mj_id ` set (pb_jobs p))"

lemma lists_queue [simp]: "lists (p\<lparr>pb_queue := q\<rparr>) j = lists p j"
  by (simp add: lists_def)

lemma start_listed:
  assumes ok: "jobs_listed p" and org: "org \<in> og_id ` set (pb_orgs p)" and new: "uuid_text (ids (pb_drawn p))"
    and s: "start_migration_job ids undisturbed org u d p = (Inr (job, created), p')"
  shows "lists p' (mj_id job)"
proof (cases "get_active_job org p")
  case None
  with s ok org new show ?thesis by (auto simp: start_fresh lists_def jobs_listed_def with_job_def fresh_job_def)
next
  case (Some active)
  then have "active \<in> set (pb_jobs p)" by (auto simp: get_active_job_def find_Some_iff dest: sym)
      (metis length_rev nth_mem set_rev)
  with s Some ok show ?thesis by (auto simp: start_alone lists_def)
qed

lemma save_listed:
  assumes "jobs_listed p" and "copy \<in> job_writes" and "save_job copy job p = Inr (j, p')"
  shows "jobs_listed p' \<and> pb_orgs p' = pb_orgs p \<and> pb_drawn p' = pb_drawn p \<and>
    mj_id ` set (pb_jobs p') = mj_id ` set (pb_jobs p)"
  using assms(3)
proof (rule save_job_Inr)
  fix row
  assume p': "p' = p\<lparr>pb_jobs := update_row mj_id (mj_id job) (\<lambda>row. (copy job row)\<lparr>mj_updated_at := pb_clock p\<rparr>) (pb_jobs p)\<rparr>"
  note w = job_write_frame [OF assms(2), of job]
  have "map mj_id (pb_jobs p') = map mj_id (pb_jobs p)" using w by (simp add: p')
  then have "mj_id ` set (pb_jobs p') = mj_id ` set (pb_jobs p)" by (metis list.set_map)
  moreover have "jobs_listed p'"
    unfolding jobs_listed_def list_all_iff
  proof
    fix r
    assume "r \<in> set (pb_jobs p')"
    then obtain r0 where "r0 \<in> set (pb_jobs p)" "mj_id r = mj_id r0" "mj_organization r = mj_organization r0"
      using w by (auto simp: p' in_update_row)
    with assms(1) show "uuid_text (mj_id r) \<and> mj_organization r \<in> og_id ` set (pb_orgs p')"
      by (simp add: jobs_listed_def list_all_iff p')
  qed
  ultimately show ?thesis by (simp add: p')
qed

lemma retry_listed:
  assumes ok: "jobs_listed p" and job: "mj_organization job \<in> og_id ` set (pb_orgs p)" and new: "\<And>n. uuid_text (ids n)"
    and r: "retry_migration_job ids undisturbed job u p = (Inr (new_job, created), p')"
  shows "lists p' (mj_id new_job)"
proof (cases "mj_status job = JRUNNING")
  case False
  with r start_listed [OF ok job new] show ?thesis by (simp add: retry_migration_job_def)
next
  case True
  with r obtain j1 p1 where s: "save_job copy_superseded (supersede job) p = Inr (j1, p1)"
    "start_migration_job ids undisturbed (mj_organization job) u (mj_dry_run job) p1 = (Inr (new_job, created), p')"
    by (auto simp: retry_migration_job_def split: if_splits sum.splits prod.splits)
  from save_listed [OF ok _ s(1)] have "jobs_listed p1" "pb_orgs p1 = pb_orgs p" by simp_all
  with start_listed [OF _ _ new s(2)] job show ?thesis by simp
qed

lemma shown_job:
  assumes "lists p j" and "is_platform_operator (rq_user req)"
  shows "\<exists>pg job. visible_job req j p = Rendered pg \<and> op_job pg = Some job \<and> mj_id job = j"
proof -
  from assms(1) obtain job where job: "get_job p j = Some job" using get_job_some [of p j] by (auto simp: lists_def)
  with get_job_in have in_rows: "job \<in> set (pb_jobs p)" "mj_id job = j" by auto
  with assms(1) obtain org where "get_org p (mj_organization job) = Some org"
    using get_org_some [of p "mj_organization job"] by (auto simp: lists_def jobs_listed_def list_all_iff)
  with job in_rows assms(2) show ?thesis by (simp add: visible_job_def require_org_role_def)
qed

lemma visible_not_redirect: "visible_job req j p \<noteq> Redirect t"
  by (auto simp: visible_job_def split: option.splits sum.splits)

lemma login_Redirect: "login_required req rsp = Redirect t \<Longrightarrow> rsp = Redirect t"
  by (simp add: login_required_def split: if_splits)

lemma map_response_Redirect: "map_response f rsp = Redirect t \<longleftrightarrow> rsp = Redirect t"
  by (cases rsp) auto

lemma acted_Redirect: "acted r = (Redirect t, wb) \<longleftrightarrow> r = (Redirect t, wb)"
  by (cases r) (auto simp: acted_def split: response.splits)


lemma start_error: "start_migration_job ids undisturbed org u d p = (Inl e, p') \<Longrightarrow> p' = p"
  by (auto simp: start_alone split: option.splits sum.splits)

lemma retry_error_listed:
  assumes "retry_migration_job ids undisturbed job u p = (Inl e, p')" and ok: "lists p j"
  shows "lists p' j"
proof (cases "p' = p")
  case False
  with assms(1) obtain j1 p1 where s: "save_job copy_superseded (supersede job) p = Inr (j1, p1)"
    "start_migration_job ids undisturbed (mj_organization job) u (mj_dry_run job) p1 = (Inl e, p')"
    by (auto simp: retry_migration_job_def dest: start_error split: if_splits sum.splits prod.splits)
  from save_listed [OF _ _ s(1)] start_error [OF s(2)] ok show ?thesis by (simp add: lists_def)
qed (use ok in simp)

definition leads_to_job :: "request \<Rightarrow> target \<Rightarrow> web \<Rightarrow> bool" where
  "leads_to_job req t wb =
     (case t of MigrationJobDetail j \<Rightarrow> lists (wb_public wb) j \<and> is_platform_operator (rq_user req) | _ \<Rightarrow> False)"

lemma operator_passes: "require_platform_operator u = Inr x \<Longrightarrow> is_platform_operator u"
  by (simp add: require_platform_operator_def split: if_splits)

lemma post_only_Redirect: "post_only req wb r = (Redirect t, wb') \<Longrightarrow> r = (Redirect t, wb')"
  by (auto simp: post_only_def split: if_splits)

lemma job_found_listed: "get_job p i = Some job \<Longrightarrow> jobs_listed p \<Longrightarrow> lists p (mj_id job)"
  using get_job_in [of p i job] by (auto simp: lists_def)

lemma audit_public [simp]: "wb_public (record_migration_audit_event org actor act job md wb) = wb_public wb"
  by (simp add: record_migration_audit_event_def record_audit_event_def)

lemma enqueue_lists [simp]: "lists (wb_public (enqueue_job i wb)) j = lists (wb_public wb) j"
  by (simp add: enqueue_job_def)

lemma start_redirects:
  assumes "migration_start ids undisturbed req org_id wb = (Redirect t, wb')"
    and "jobs_listed (wb_public wb)" and "\<And>n. uuid_text (ids n)"
  shows "leads_to_job req t wb'"
proof -
  from post_only_Redirect [OF assms(1) [unfolded migration_start_def]] obtain org job created p where
    org: "get_org (wb_public wb) org_id = Some org" and op: "is_platform_operator (rq_user req)"
    and start: "start_migration_job ids undisturbed org_id (Some (us_id (rq_user req)))
        (or_default ''dry_run'' (rq_mode req) \<noteq> ''real'') (wb_public wb) = (Inr (job, created), p)"
    and t: "t = MigrationJobDetail (mj_id job)" "lists (wb_public wb') (mj_id job) = lists p (mj_id job)"
    by (auto simp: Let_def dest: operator_passes split: option.splits sum.splits prod.splits bool.splits)
  have "org_id \<in> og_id ` set (pb_orgs (wb_public wb))" using org get_org_some [of "wb_public wb" org_id] by simp
  from start_listed [OF assms(2) this assms(3) start] t op show ?thesis by (simp add: leads_to_job_def)
qed

lemma retry_redirects:
  assumes "migration_job_retry ids undisturbed req job_id wb = (Redirect t, wb')"
    and ok: "jobs_listed (wb_public wb)" and "\<And>n. uuid_text (ids n)"
  shows "leads_to_job req t wb'"
proof -
  note v = post_only_Redirect [OF assms(1) [unfolded migration_job_retry_def]]
  from v obtain job where job: "get_job (wb_public wb) job_id = Some job" by (cases "get_job (wb_public wb) job_id") simp_all
  from v job obtain org where org: "get_org (wb_public wb) (mj_organization job) = Some org"
    by (cases "get_org (wb_public wb) (mj_organization job)") simp_all
  from v job org have op: "is_platform_operator (rq_user req)"
    by (cases "require_platform_operator (rq_user req)") (simp_all add: operator_passes)
  then have rest: "require_platform_operator (rq_user req) = Inr ()" by (simp add: require_platform_operator_def)
  have in_orgs: "mj_organization job \<in> og_id ` set (pb_orgs (wb_public wb))"
    using org get_org_some [of "wb_public wb" "mj_organization job"] by simp
  obtain r p where r: "retry_migration_job ids undisturbed job (Some (us_id (rq_user req))) (wb_public wb) = (r, p)" by fastforce
  show ?thesis
  proof (cases r)
    case (Inl e)
    with v job org rest r have c: "catches ConfigurationError e" "t = MigrationJobDetail (mj_id job)" "wb_public wb' = p"
      by (auto split: if_splits)
    with retry_error_listed [OF r [unfolded Inl] job_found_listed [OF job ok]] op show ?thesis
      by (simp add: leads_to_job_def)
  next
    case (Inr x)
    then obtain new_job created where x: "r = Inr (new_job, created)" by (cases x) auto
    with v job org rest r have t: "t = MigrationJobDetail (mj_id new_job)" "lists (wb_public wb') (mj_id new_job) = lists p (mj_id new_job)"
      by auto
    from retry_listed [OF ok in_orgs assms(3) r [unfolded x]] t op show ?thesis by (simp add: leads_to_job_def)
  qed
qed

lemma cancel_redirects:
  assumes "migration_job_cancel req job_id wb = (Redirect t, wb')" and ok: "jobs_listed (wb_public wb)"
  shows "leads_to_job req t wb'"
proof -
  from post_only_Redirect [OF assms(1) [unfolded migration_job_cancel_def]] obtain job r p where
    job: "get_job (wb_public wb) job_id = Some job" and op: "is_platform_operator (rq_user req)"
    and r: "request_cancel job (wb_public wb) = (r, p)" and t: "t = MigrationJobDetail (mj_id job)" "wb_public wb' = p"
    by (auto dest: operator_passes split: option.splits sum.splits prod.splits if_splits)
  have "lists p (mj_id job)"
  proof (cases "p = wb_public wb")
    case True
    with job_found_listed [OF job ok] show ?thesis by simp
  next
    case False
    with r obtain j1 where "save_job copy_cancel (job\<lparr>mj_cancel_requested := True\<rparr>) (wb_public wb) = Inr (j1, p)"
      by (auto simp: request_cancel_def split: if_splits sum.splits prod.splits)
    from save_listed [OF ok _ this] job_found_listed [OF job ok] show ?thesis by (simp add: lists_def)
  qed
  with t op show ?thesis by (simp add: leads_to_job_def)
qed


lemma export_not_redirect: "migration_job_export f req j p \<noteq> Redirect t"
  using visible_not_redirect [of req j p]
  by (auto simp: migration_job_export_def login_required_def split: response.splits option.splits)

lemma public_redirects:
  assumes "on_site None v" and r: "run_view sv v req wb = (Redirect t, wb')" and "sv_others sv = undisturbed"
    and "jobs_listed (wb_public wb)" and "\<And>n. uuid_text (sv_ids sv n)"
  shows "leads_to_job req t wb'"
proof (cases v)
  case (MigrationStart i)
  with r assms(3) have "migration_start (sv_ids sv) undisturbed req i wb = (Redirect t, wb')" by (simp add: acted_Redirect)
  from start_redirects [OF this assms(4,5)] show ?thesis .
next
  case (MigrationJobRetry j)
  with r assms(3) have "migration_job_retry (sv_ids sv) undisturbed req j wb = (Redirect t, wb')" by (simp add: acted_Redirect)
  from retry_redirects [OF this assms(4,5)] show ?thesis .
next
  case (MigrationJobCancel j)
  with r have "migration_job_cancel req j wb = (Redirect t, wb')" by (simp add: acted_Redirect)
  from cancel_redirects [OF this assms(4)] show ?thesis .
next
  case OrgList
  with r show ?thesis by (auto simp: map_response_Redirect org_list_def dest: login_Redirect)
next
  case (MigrationOrgDetail i)
  with r show ?thesis
    by (auto simp: map_response_Redirect migration_org_detail_def dest!: login_Redirect split: option.splits sum.splits)
next
  case (MigrationJobPage j)
  with r visible_not_redirect [of req j "wb_public wb" t] show ?thesis
    by (auto simp: map_response_Redirect migration_job_detail_def dest!: login_Redirect)
next
  case (MigrationJobProgress j)
  with r visible_not_redirect [of req j "wb_public wb" t] show ?thesis
    by (auto simp: map_response_Redirect migration_job_progress_def dest!: login_Redirect)
next
  case (MigrationJobExport j)
  with r export_not_redirect show ?thesis by (auto simp: map_response_Redirect)
qed (use assms(1) in auto)

text \<open>Runs have identifiers of the right form, each its own, and a continuation belongs to the pipeline of the
  run it continues.\<close>

definition runs_listed :: "world \<Rightarrow> bool" where
  "runs_listed w = (list_all (\<lambda>pl. uuid_text (pl_id pl)) (w_pipelines w) \<and> list_all (\<lambda>r. uuid_text (pr_id r)) (w_runs w) \<and>
     distinct (map pr_id (w_runs w)) \<and>
     list_all (\<lambda>r. list_all (\<lambda>f. pr_continued_from r = Some (pr_id f) \<longrightarrow> pr_pipeline_id r = pr_pipeline_id f) (w_runs w))
       (w_runs w))"

definition leads_to_run :: "request \<Rightarrow> organization \<Rightarrow> target \<Rightarrow> web \<Rightarrow> bool" where
  "leads_to_run req org t wb =
     (case t of
        RunDetail i j \<Rightarrow> uuid_text i \<and> uuid_text j \<and> us_is_authenticated (rq_user req) \<and>
          (\<exists>m. require_org_member (rq_user req) (og_id org) (wb_public wb) = Inr m) \<and>
          (\<exists>pl run. get_pipeline (wb_tenant wb (og_schema_name org)) i = Some pl \<and>
             get_pipeline_run (wb_tenant wb (og_schema_name org)) pl j = Some run)
      | _ \<Rightarrow> False)"

lemma find_row_distinct: "distinct (map key rows) \<Longrightarrow> r \<in> set rows \<Longrightarrow> find_row key (key r) rows = Some r"
  by (induction rows) (auto simp: find_row_def)

lemma get_run_listed: "runs_listed w \<Longrightarrow> r \<in> set (w_runs w) \<Longrightarrow> get_run w (pr_id r) = Some r"
  by (simp add: get_run_def runs_listed_def find_row_distinct)

lemma continuing_role_is_member:
  "require_org_role u org CONTINUATION_ROLES p = Inr x \<Longrightarrow> \<exists>m. require_org_member u org p = Inr m"
  by (auto simp: require_org_role_def require_org_member_def CONTINUATION_ROLES_def VIEW_ROLES_def
      split: if_splits option.splits)

text \<open>The run that a trigger answers with is in the table, for its pipeline; a refusal changes no table.\<close>

lemma trigger_frame:
  assumes t: "trigger_manual_run ids pl s None cont w = (r, w')" and fresh: "ids (Suc (w_drawn w)) \<notin> pr_id ` set (w_runs w)"
    and ok: "runs_listed w" and new: "uuid_text (ids (Suc (w_drawn w)))"
  shows "w_pipelines w' = w_pipelines w \<and>
    (case r of Inl e \<Rightarrow> w_runs w' = w_runs w
     | Inr (run, dispatched) \<Rightarrow> get_run w' (pr_id run) = Some run \<and> pr_pipeline_id run = pl_id pl \<and> uuid_text (pr_id run))"
proof (cases "pl_is_active pl \<and> may_continue pl cont")
  case False
  from trigger_refused [OF this, of ids s None w] t show ?thesis by auto
next
  case True
  obtain k where k: "idempotency_key_for ids pl None w = (k, w\<lparr>w_drawn := w_drawn w + 1\<rparr>)"
    by (simp add: idempotency_key_for_def uuid4_def)
  obtain run created w2 where g: "get_or_create_run ids pl k cont (w\<lparr>w_drawn := w_drawn w + 1\<rparr>) = (run, created, w2)"
    by (cases "get_or_create_run ids pl k cont (w\<lparr>w_drawn := w_drawn w + 1\<rparr>)")
  note t' = trigger_allowed [OF _ _ k g, of s] and cases = get_or_create_run_cases [OF g]
  show ?thesis
  proof (cases created)
    case created: True
    with cases have run: "run = new_run (ids (Suc (w_drawn w))) pl k cont (w_clock w)" "w_runs w2 = w_runs w @ [run]"
      "w_pipelines w2 = w_pipelines w" by auto
    have "find_row pr_id (pr_id run) (w_runs w @ [run]) = Some run"
      using fresh run(1) find_row_None [of pr_id "pr_id run" "w_runs w"] by (simp add: find_row_append)
    with t t' True created run new show ?thesis by (auto simp: delay_def get_run_def)
  next
    case found: False
    with cases have run: "find_key k w = Some run" "w2 = w\<lparr>w_drawn := w_drawn w + 1\<rparr>" by auto
    then have "run \<in> set (w_runs w)" using find_row_key [of pr_idempotency_key k "w_runs w" run] by (simp add: find_key_def)
    with ok get_run_listed have "get_run w (pr_id run) = Some run" "uuid_text (pr_id run)"
      by (auto simp: runs_listed_def list_all_iff)
    with t t' True found run show ?thesis by (auto simp: delay_def get_run_def split: if_splits)
  qed
qed


lemma continue_redirects:
  assumes c: "run_continue ids id req org pipeline_id run_id wb = (Redirect t, wb')"
    and ok: "runs_listed (wb_tenant wb (og_schema_name org))" and new: "\<And>n. uuid_text (ids n)"
    and fresh: "ids (Suc (w_drawn (wb_tenant wb (og_schema_name org)))) \<notin> pr_id ` set (w_runs (wb_tenant wb (og_schema_name org)))"
  shows "leads_to_run req org t wb'"
proof -
  let ?w = "wb_tenant wb (og_schema_name org)"
  note v = post_only_Redirect [OF c [unfolded run_continue_def]]
  from c have auth: "us_is_authenticated (rq_user req)" by (auto simp: run_continue_def post_only_def split: if_splits)
  from v obtain x where role: "require_org_role (rq_user req) (og_id org) CONTINUATION_ROLES (wb_public wb) = Inr x"
    by (cases "require_org_role (rq_user req) (og_id org) CONTINUATION_ROLES (wb_public wb)") simp_all
  from v role obtain pl where pl: "get_pipeline ?w pipeline_id = Some pl"
    by (cases "get_pipeline ?w pipeline_id") (simp_all add: Let_def)
  from v role pl obtain failed where failed: "get_pipeline_run ?w pl run_id = Some failed"
    by (cases "get_pipeline_run ?w pl run_id") (simp_all add: Let_def)
  have pl': "get_pipeline ?w (pl_id pl) = Some pl" "uuid_text (pl_id pl)"
    using pl find_row_key [of pl_id pipeline_id "w_pipelines ?w" pl] ok
    by (auto simp: get_pipeline_def runs_listed_def list_all_iff)
  have f: "get_run ?w (pr_id failed) = Some failed" "pr_pipeline_id failed = pl_id pl" "failed \<in> set (w_runs ?w)" "uuid_text (pr_id failed)"
    using failed get_pipeline_run_id [OF failed] ok find_row_key [of pr_id run_id "w_runs ?w" failed]
    by (auto simp: get_pipeline_run_def get_run_def runs_listed_def list_all_iff split: option.splits if_splits)
  have member: "\<exists>m. require_org_member (rq_user req) (og_id org) (wb_public wb) = Inr m"
    by (rule continuing_role_is_member [OF role])
  have leads: "leads_to_run req org t wb'"
    if "t = RunDetail (pl_id pl) (pr_id run)" and "wb_public wb' = wb_public wb"
      and "w_pipelines (wb_tenant wb' (og_schema_name org)) = w_pipelines ?w"
      and "get_run (wb_tenant wb' (og_schema_name org)) (pr_id run) = Some run" and "pr_pipeline_id run = pl_id pl"
      and "uuid_text (pr_id run)" for run
    using that pl' auth member by (simp add: leads_to_run_def get_pipeline_run_def get_pipeline_def)
  show ?thesis
  proof (cases "existing_continuation failed ?w")
    case (Some r)
    then have r: "r \<in> set (w_runs ?w)" "pr_continued_from r = Some (pr_id failed)"
      by (auto simp: existing_continuation_def find_Some_iff) (metis length_rev nth_mem set_rev)
    with ok f have "pr_pipeline_id r = pl_id pl" "uuid_text (pr_id r)"
      unfolding runs_listed_def list_all_iff by metis+
    with leads [of r] get_run_listed [OF ok r(1)] v role pl failed Some show ?thesis by (auto simp: Let_def)
  next
    case None
    obtain r w' where tr: "trigger_manual_run ids pl (og_schema_name org) None (Some failed) ?w = (r, w')" by fastforce
    note frame = trigger_frame [OF tr fresh ok new]
    show ?thesis
    proof (cases r)
      case (Inl e)
      with v role pl failed None tr have "t = RunDetail (pl_id pl) (pr_id failed)" "wb_public wb' = wb_public wb"
        "wb_tenant wb' (og_schema_name org) = w'"
        by (auto simp: Let_def record_audit_event_def add_message_def split: if_splits)
      with leads [of failed] frame f Inl show ?thesis by (simp add: get_run_def)
    next
      case (Inr y)
      then obtain run dispatched where y: "r = Inr (run, dispatched)" by (cases y) auto
      with v role pl failed None tr have "t = RunDetail (pl_id pl) (pr_id run)" "wb_public wb' = wb_public wb"
        "wb_tenant wb' (og_schema_name org) = w'"
        by (auto simp: Let_def record_audit_event_def add_message_def)
      with leads [of run] frame y show ?thesis by simp
    qed
  qed
qed

lemma tenant_redirects:
  assumes "on_site (Some org) v" and r: "run_view sv v req wb = (Redirect t, wb')" and "sv_tenant_others sv = id"
    and "runs_listed (wb_tenant wb (og_schema_name org))" and "\<And>n. uuid_text (sv_ids sv n)"
    and "sv_ids sv (Suc (w_drawn (wb_tenant wb (og_schema_name org)))) \<notin>
      pr_id ` set (w_runs (wb_tenant wb (og_schema_name org)))"
  shows "leads_to_run req org t wb'"
proof (cases v)
  case (RunContinue org' i j)
  with assms(1-3) have "run_continue (sv_ids sv) id req org i j wb = (Redirect t, wb')" by (simp add: acted_Redirect)
  from continue_redirects [OF this assms(4-6)] show ?thesis .
next
  case (TenantHome org')
  with r show ?thesis by (auto simp: map_response_Redirect tenant_home_def dest!: login_Redirect split: sum.splits)
next
  case (RunList org' i)
  with r show ?thesis
    by (auto simp: map_response_Redirect run_list_def Let_def dest!: login_Redirect split: sum.splits option.splits)
next
  case (RunPage org' i j)
  with r show ?thesis
    by (auto simp: map_response_Redirect run_detail_def Let_def dest!: login_Redirect split: sum.splits option.splits)
qed (use assms(1) in auto)

lemma shown_run:
  assumes "leads_to_run req org (RunDetail i j) wb"
  shows "\<exists>pg. run_detail req org i j wb = Rendered pg \<and> pl_id (rn_pipeline pg) = i \<and> pr_id (rn_run pg) = j"
proof -
  let ?w = "wb_tenant wb (og_schema_name org)"
  from assms obtain m pl run where "us_is_authenticated (rq_user req)"
    "require_org_member (rq_user req) (og_id org) (wb_public wb) = Inr m"
    and found: "get_pipeline ?w i = Some pl" "get_pipeline_run ?w pl j = Some run" by (auto simp: leads_to_run_def)
  moreover have "pl_id pl = i" using found(1) find_row_key by (fastforce simp: get_pipeline_def)
  moreover have "pr_id run = j" by (rule get_pipeline_run_id [OF found(2)])
  ultimately show ?thesis by (simp add: run_detail_def login_required_def Let_def)
qed

fun page_is_about :: "page \<Rightarrow> target \<Rightarrow> bool" where
  "page_is_about (OrganizationPage pg) (MigrationJobDetail j) =
     (case op_job pg of None \<Rightarrow> False | Some job \<Rightarrow> mj_id job = j)"
| "page_is_about (RunDetailPage pg) (RunDetail i j) = (pl_id (rn_pipeline pg) = i \<and> pr_id (rn_run pg) = j)"
| "page_is_about pg t = False"

definition site_listed :: "(nat \<Rightarrow> uuid) \<Rightarrow> organization option \<Rightarrow> web \<Rightarrow> bool" where
  "site_listed ids tenant wb =
     (case tenant of
        None \<Rightarrow> jobs_listed (wb_public wb)
      | Some org \<Rightarrow>
          (let w = wb_tenant wb (og_schema_name org)
           in runs_listed w \<and> ids (Suc (w_drawn w)) \<notin> pr_id ` set (w_runs w)))"

text \<open>C26: Whoever is sent on arrives. Any request to either site that is answered with a redirect, be it a start,
  a retry, a cancellation, a continuation or a refusal of one of them, leads the same user to the page of the
  very job or run that it names, with no one else at work: no login, no missing page, no refusal.\<close>

theorem redirects_arrive:
  assumes "serve sv tenant path req wb = (Redirect t, wb')"
    and "sv_others sv = undisturbed" and "sv_tenant_others sv = id" and "\<And>n. uuid_text (sv_ids sv n)"
    and "site_listed (sv_ids sv) tenant wb"
  shows "\<exists>pg. browse sv tenant path req wb = (Rendered pg, wb') \<and> page_is_about pg t"
proof -
  from assms(1) obtain v where v: "route tenant path = Some v" by (auto simp: serve_def split: option.splits)
  with assms(1) have r: "run_view sv v req wb = (Redirect t, wb')" by (simp add: serve_def)
  note site = route_site [OF v]
  show ?thesis
  proof (cases tenant)
    case None
    with public_redirects [OF _ r assms(2) _ assms(4)] site assms(5) have "leads_to_job req t wb'"
      by (simp add: site_listed_def)
    then obtain j where t: "t = MigrationJobDetail j" "lists (wb_public wb') j" "is_platform_operator (rq_user req)"
      by (auto simp: leads_to_job_def split: target.splits)
    then have "addressable (MigrationJobPage j)" by (auto simp: lists_def jobs_listed_def list_all_iff)
    from links_path [OF this] shown_job [of "wb_public wb'" j "req\<lparr>rq_method := GET\<rparr>"] t assms(1) None show ?thesis
      by (auto simp: browse_def serve_def [of sv None "path_of (MigrationJobPage j)"] migration_job_detail_def
          login_required_def is_platform_operator_def)
  next
    case (Some org)
    with tenant_redirects [OF _ r assms(3) _ assms(4)] site assms(5) have l: "leads_to_run req org t wb'"
      by (simp add: site_listed_def Let_def)
    then obtain i j where t: "t = RunDetail i j" "addressable (RunPage org i j)"
      by (auto simp: leads_to_run_def split: target.splits)
    have "leads_to_run (req\<lparr>rq_method := GET\<rparr>) org (RunDetail i j) wb'" using l t by (simp add: leads_to_run_def)
    from shown_run [OF this] links_path [OF t(2)] t(1) assms(1) Some show ?thesis
      by (auto simp: browse_def serve_def [of sv "Some org" "path_of (RunPage org i j)"])
  qed
qed


subsection \<open>A start from the tool\<close>

definition example_uuid :: uuid where
  "example_uuid = ''123e4567-e89b-12d3-a456-426614174000''"

lemma example_uuid_text: "uuid_text example_uuid"
  by code_simp

theorem links_lead_to_their_views_witness:
  "route None (path_of (MigrationJobPage example_uuid)) = Some (MigrationJobPage example_uuid)"
  using links_lead_to_their_views [of "MigrationJobPage example_uuid"] example_uuid_text by simp

definition uuid_server :: server where
  "uuid_server = example_server\<lparr>sv_ids := (\<lambda>n. example_uuid)\<rparr>"

theorem redirects_arrive_witness:
  "\<exists>pg. fst (browse uuid_server None ''ops/orgs/1/start/'' operator_post example_web) = Rendered pg \<and>
     page_is_about pg (MigrationJobDetail example_uuid)"
proof -
  have "fst (serve uuid_server None ''ops/orgs/1/start/'' operator_post example_web) = Redirect (MigrationJobDetail example_uuid)"
    unfolding serve_def start_path by code_simp
  then have s: "serve uuid_server None ''ops/orgs/1/start/'' operator_post example_web =
      (Redirect (MigrationJobDetail example_uuid), snd (serve uuid_server None ''ops/orgs/1/start/'' operator_post example_web))"
    by (metis prod.collapse)
  have "site_listed (sv_ids uuid_server) None example_web"
    by (simp add: site_listed_def jobs_listed_def no_jobs_def)
  then show ?thesis
    using redirects_arrive [OF s] example_uuid_text by (auto simp: uuid_server_def example_server_def)
qed

end
