(* ===== verification/Backfills.thy ===== *)
theory Backfills
  imports MigrationJobs
begin

text \<open>
  The two migrations that move data, \<^verbatim>\<open>apps/rawstore/migrations/0004_backfill_loaded_successfully.py\<close> in each
  tenant's schema and \<^verbatim>\<open>apps/orgs/migrations/0002_organization_tenant_uuid.py\<close> in the public one.
\<close>

subsection \<open>Pages of earlier runs\<close>

definition run_succeeded :: "world \<Rightarrow> raw_payload_record \<Rightarrow> bool" where
  "run_succeeded w r = (case get_run w (rp_run r) of None \<Rightarrow> False | Some run \<Rightarrow> pr_status run = SUCCEEDED)"

definition backfill_loaded_successfully :: "world \<Rightarrow> world" where
  "backfill_loaded_successfully w =
     w\<lparr>w_raw := map (\<lambda>r. if run_succeeded w r \<and> \<not> rp_loaded r then r\<lparr>rp_loaded := True\<rparr> else r) (w_raw w)\<rparr>"

lemma backfill_runs [simp]:
  "w_runs (backfill_loaded_successfully w) = w_runs w"
  "run_succeeded (backfill_loaded_successfully w) = run_succeeded w"
  by (simp_all add: backfill_loaded_successfully_def run_succeeded_def get_run_def fun_eq_iff)

text \<open>The backfill marks the pages of succeeded runs and nothing else. After it each page of a
  succeeded run counts as loaded, every other page is as it was, only the mark of a page has
  changed, and running the migration again changes nothing.\<close>

theorem backfill_marks_exactly:
  "map (\<lambda>r. r\<lparr>rp_loaded := False\<rparr>) (w_raw (backfill_loaded_successfully w)) = map (\<lambda>r. r\<lparr>rp_loaded := False\<rparr>) (w_raw w) \<and>
   map rp_loaded (w_raw (backfill_loaded_successfully w)) =
     map2 (\<or>) (map (run_succeeded w) (w_raw w)) (map rp_loaded (w_raw w)) \<and>
   backfill_loaded_successfully (backfill_loaded_successfully w) = backfill_loaded_successfully w"
proof (intro conjI)
  show "backfill_loaded_successfully (backfill_loaded_successfully w) = backfill_loaded_successfully w"
    by (simp add: backfill_loaded_successfully_def run_succeeded_def get_run_def o_def cong: map_cong)
qed (auto simp: backfill_loaded_successfully_def map2_map_map)

subsection \<open>Identifiers of earlier organizations\<close>

record org_row =
  or_id :: int
  or_tenant_uuid :: "uuid option"

text \<open>\<^verbatim>\<open>AddField\<close>: the column comes with one value for all rows that exist. Which one is Django's.\<close>

definition add_tenant_uuid :: "uuid option \<Rightarrow> int list \<Rightarrow> org_row list" where
  "add_tenant_uuid value_of_column orgs = map (\<lambda>i. \<lparr>or_id = i, or_tenant_uuid = value_of_column\<rparr>) orgs"

fun backfill_tenant_uuids :: "(nat \<Rightarrow> uuid) \<Rightarrow> nat \<Rightarrow> org_row list \<Rightarrow> org_row list" where
  "backfill_tenant_uuids ids n [] = []"
| "backfill_tenant_uuids ids n (r # rows) =
     (if or_tenant_uuid r = None
      then r\<lparr>or_tenant_uuid := Some (ids n)\<rparr> # backfill_tenant_uuids ids (n + 1) rows
      else r # backfill_tenant_uuids ids n rows)"

text \<open>\<^verbatim>\<open>AlterField\<close> to a unique column that is never null.\<close>

definition alter_tenant_uuid :: "org_row list \<Rightarrow> org_row list option" where
  "alter_tenant_uuid rows =
     (if list_all (\<lambda>r. or_tenant_uuid r \<noteq> None) rows \<and> distinct (map or_tenant_uuid rows) then Some rows else None)"

definition organization_tenant_uuid :: "(nat \<Rightarrow> uuid) \<Rightarrow> uuid option \<Rightarrow> int list \<Rightarrow> org_row list option" where
  "organization_tenant_uuid ids value_of_column orgs =
     alter_tenant_uuid (backfill_tenant_uuids ids 0 (add_tenant_uuid value_of_column orgs))"

lemma backfill_of_null:
  "backfill_tenant_uuids ids n (add_tenant_uuid None orgs) =
     map2 (\<lambda>i k. \<lparr>or_id = i, or_tenant_uuid = Some (ids k)\<rparr>) orgs [n..<n + length orgs]"
proof (induction orgs arbitrary: n)
  case (Cons i orgs)
  have "[n..<n + length (i # orgs)] = n # [n + 1..<n + 1 + length orgs]" by (simp add: upt_rec)
  with Cons [of "n + 1"] show ?case by (simp add: add_tenant_uuid_def)
qed (simp add: add_tenant_uuid_def)

lemma backfill_of_value: "backfill_tenant_uuids ids n (add_tenant_uuid (Some u) orgs) = add_tenant_uuid (Some u) orgs"
  by (induction orgs) (simp_all add: add_tenant_uuid_def)

lemma or_uuids_of_map2:
  "length ks = length orgs \<Longrightarrow>
   map or_tenant_uuid (map2 (\<lambda>i k. \<lparr>or_id = i, or_tenant_uuid = Some (ids k)\<rparr>) orgs ks) = map (\<lambda>k. Some (ids k)) ks"
  by (induction orgs ks rule: list_induct2') auto

lemma distinct_same: "distinct (replicate n x) \<longleftrightarrow> n \<le> 1"
  by (cases n) (auto simp: set_replicate_conv_if)

text \<open>C40: What the new identifier of the organizations does to a deployment with organizations. If the new
  column were null in the rows that exist, as the backfill supposes, each would get an identifier
  of its own. But the column is added with a default, so the rows all have the one value of that
  default, the backfill finds no row to do, and the migration fails on the uniqueness of the column
  as soon as there are two organizations.\<close>

theorem tenant_uuid_migration_exact:
  assumes "inj ids"
  shows "organization_tenant_uuid ids None orgs =
      Some (map2 (\<lambda>i k. \<lparr>or_id = i, or_tenant_uuid = Some (ids k)\<rparr>) orgs [0..<length orgs]) \<and>
    organization_tenant_uuid ids (Some u) orgs =
      (if length orgs \<le> 1 then Some (add_tenant_uuid (Some u) orgs) else None)"
proof
  let ?rows = "map2 (\<lambda>i k. \<lparr>or_id = i, or_tenant_uuid = Some (ids k)\<rparr>) orgs [0..<length orgs]"
  have "map or_tenant_uuid ?rows = map (\<lambda>k. Some (ids k)) [0..<length orgs]" by (rule or_uuids_of_map2) simp
  moreover from this have "list_all (\<lambda>r. or_tenant_uuid r \<noteq> None) ?rows" by (auto simp: list_all_iff)
  moreover have "distinct (map (\<lambda>k. Some (ids k)) [0..<length orgs])"
    using assms by (simp add: distinct_map inj_def inj_on_def)
  ultimately show "organization_tenant_uuid ids None orgs = Some ?rows"
    using backfill_of_null [of ids 0 orgs] by (simp add: organization_tenant_uuid_def alter_tenant_uuid_def)
next
  have "map or_tenant_uuid (add_tenant_uuid (Some u) orgs) = replicate (length orgs) (Some u)"
    by (simp add: add_tenant_uuid_def o_def map_replicate_const)
  moreover have "list_all (\<lambda>r. or_tenant_uuid r \<noteq> None) (add_tenant_uuid (Some u) orgs)"
    by (simp add: add_tenant_uuid_def list_all_iff)
  ultimately show "organization_tenant_uuid ids (Some u) orgs =
      (if length orgs \<le> 1 then Some (add_tenant_uuid (Some u) orgs) else None)"
    by (simp add: organization_tenant_uuid_def alter_tenant_uuid_def backfill_of_value distinct_same)
qed

theorem tenant_uuid_migration_exact_witness:
  "organization_tenant_uuid job_ids (Some ''u'') [1, 2] = None"
  using tenant_uuid_migration_exact [OF job_ids_inj, where u = "''u''" and orgs = "[1, 2]"] by simp

end
