(* ===== verification/Registries.thy ===== *)
theory Registries
  imports Orchestration "HOL-Library.Multiset"
begin

text \<open>
  The registries of providers and connectors as the imports fill them, \<^verbatim>\<open>apps/authproviders/registry.py\<close>
  and \<^verbatim>\<open>apps/connectors/registry.py\<close>, and the factories that backend_cls the configured store once,
  \<^verbatim>\<open>apps/secrets/base.py\<close> and \<^verbatim>\<open>apps/rawstore/base.py\<close>. The other theories use what they
  contain when the apps are ready; it is shown here that this is what they contain.
\<close>

subsection \<open>Registering classes\<close>

text \<open>A class with its \<^verbatim>\<open>type_key\<close>, if it defines one, its repr and the instance it constructs.\<close>

record 'i registered_class =
  rc_type_key :: "string option"
  rc_name :: string
  rc_repr :: string
  rc_instance :: 'i

type_synonym 'i registry = "(string \<times> 'i registered_class) list"

text \<open>\<^verbatim>\<open>d[k] = v\<close>.\<close>

definition set_item :: "string \<Rightarrow> 'v \<Rightarrow> (string \<times> 'v) list \<Rightarrow> (string \<times> 'v) list" where
  "set_item k v kvs = dict_merge kvs [(k, v)]"

lemma map_of_set_item [simp]: "map_of (set_item k v kvs) = (map_of kvs)(k \<mapsto> v)"
  by (rule ext) (simp add: set_item_def map_of_dict_merge)

text \<open>\<^verbatim>\<open>register\<close> of providers refuses a class without a key; the decorators of connectors read the key as
  it is, so that a class without the attribute is an \<^verbatim>\<open>AttributeError\<close>.\<close>

definition register :: "'i registered_class \<Rightarrow> 'i registry \<Rightarrow> exn + 'i registry" where
  "register c reg =
     (case rc_type_key c of
        None \<Rightarrow> Inl (PyExn ValueError (rc_repr c @ '' must define a non-empty type_key''))
      | Some k \<Rightarrow> if k = [] then Inl (PyExn ValueError (rc_repr c @ '' must define a non-empty type_key''))
                  else Inr (set_item k c reg))"

definition register_connector :: "'i registered_class \<Rightarrow> 'i registry \<Rightarrow> exn + 'i registry" where
  "register_connector c reg =
     (case rc_type_key c of
        None \<Rightarrow> Inl (PyExn AttributeError (''type object '' @ py_repr (rc_name c) @ '' has no attribute '' @ py_repr ''type_key''))
      | Some k \<Rightarrow> Inr (set_item k c reg))"

text \<open>An import of modules runs their decorators in the order of the modules.\<close>

fun import_modules ::
  "('i registered_class \<Rightarrow> 'i registry \<Rightarrow> exn + 'i registry) \<Rightarrow> 'i registered_class list \<Rightarrow> 'i registry \<Rightarrow> exn + 'i registry" where
  "import_modules decorator [] reg = Inr reg"
| "import_modules decorator (c # cs) reg = ebind (decorator c reg) (import_modules decorator cs)"

definition registered_types :: "'i registry \<Rightarrow> string list" where
  "registered_types reg = sort (map fst reg)"

definition get_registered :: "'i registry \<Rightarrow> string \<Rightarrow> exn + 'i" where
  "get_registered reg type_key =
     (case map_of reg type_key of None \<Rightarrow> Inl (PyExn KeyError (py_repr type_key)) | Some c \<Rightarrow> Inr (rc_instance c))"

text \<open>The order of the modules does not matter as long as no two classes have the same key.\<close>

definition keyed :: "'i registered_class list \<Rightarrow> bool" where
  "keyed cs = (list_all (\<lambda>c. case rc_type_key c of None \<Rightarrow> False | Some k \<Rightarrow> k \<noteq> []) cs \<and>
     distinct (map (\<lambda>c. the (rc_type_key c)) cs))"

lemma register_keyed: "rc_type_key c = Some k \<Longrightarrow> k \<noteq> [] \<Longrightarrow> register c reg = Inr (set_item k c reg)"
  "rc_type_key c = Some k \<Longrightarrow> register_connector c reg = Inr (set_item k c reg)"
  by (simp_all add: register_def register_connector_def)

lemma set_item_new: "k \<notin> fst ` set kvs \<Longrightarrow> set_item k v kvs = kvs @ [(k, v)]"
  by (induction kvs) (auto simp: set_item_def dict_merge_def)

lemma import_modules_keyed:
  assumes "keyed cs" and "list_all (\<lambda>c. the (rc_type_key c) \<notin> fst ` set reg) cs"
    and "\<And>c k r. rc_type_key c = Some k \<Longrightarrow> k \<noteq> [] \<Longrightarrow> decorator c r = Inr (set_item k c r)"
  shows "import_modules decorator cs reg = Inr (reg @ map (\<lambda>c. (the (rc_type_key c), c)) cs)"
  using assms(1,2)
proof (induction cs arbitrary: reg)
  case (Cons c cs)
  then obtain k where k: "rc_type_key c = Some k" "k \<noteq> []" by (auto simp: keyed_def split: option.splits)
  with Cons.prems(2) have "decorator c reg = Inr (reg @ [(k, c)])" by (simp add: assms(3) set_item_new)
  moreover have "import_modules decorator cs (reg @ [(k, c)]) =
      Inr ((reg @ [(k, c)]) @ map (\<lambda>c. (the (rc_type_key c), c)) cs)"
  proof (rule Cons.IH)
    show "keyed cs" using Cons.prems(1) by (simp add: keyed_def)
    show "list_all (\<lambda>d. the (rc_type_key d) \<notin> fst ` set (reg @ [(k, c)])) cs"
      using Cons.prems k by (auto simp: keyed_def list_all_iff)
  qed
  ultimately show ?case using k by simp
qed simp

lemma keyed_mset:
  assumes "mset cs = mset ds"
  shows "keyed cs = keyed ds"
proof -
  have "mset (map f cs) = mset (map f ds)" for f :: "'a registered_class \<Rightarrow> string" using assms by simp
  then have "distinct (map f cs) = distinct (map f ds)" for f :: "'a registered_class \<Rightarrow> string" by (rule mset_eq_imp_distinct_iff)
  with mset_eq_setD [OF assms] show ?thesis by (simp add: keyed_def list_all_iff)
qed

lemma import_any_order:
  assumes "keyed ds" and "mset cs = mset ds"
    and "\<And>c k r. rc_type_key c = Some k \<Longrightarrow> k \<noteq> [] \<Longrightarrow> decorator c r = Inr (set_item k c r)"
  shows "\<exists>reg. import_modules decorator cs [] = Inr reg \<and>
    registered_types reg = sort (map (\<lambda>c. the (rc_type_key c)) ds) \<and>
    map_of reg = map_of (map (\<lambda>c. (the (rc_type_key c), c)) ds)"
proof (intro exI conjI)
  let ?f = "\<lambda>c. (the (rc_type_key c), c)"
  have k: "keyed cs" using assms(1) keyed_mset [OF assms(2)] by simp
  show "import_modules decorator cs [] = Inr (map ?f cs)"
    using import_modules_keyed [OF k _ assms(3), of "[]"] by (simp add: list_all_iff)
  have "mset (map fst (map ?f cs)) = mset (map fst (map ?f ds))" using assms(2) by simp
  then show "registered_types (map ?f cs) = sort (map (\<lambda>c. the (rc_type_key c)) ds)"
    unfolding registered_types_def by (simp add: properties_for_sort comp_def)
  have d: "distinct (map fst (map ?f cs))" "distinct (map fst (map ?f ds))"
    using k assms(1) by (simp_all add: keyed_def comp_def)
  show "map_of (map ?f cs) = map_of (map ?f ds)"
    using mset_eq_setD [OF assms(2)] by (simp only: map_of_inject_set [OF d] set_map)
qed


subsection \<open>The program's classes\<close>

definition provider_classes :: "auth_provider registered_class list" where
  "provider_classes =
     [\<lparr>rc_type_key = Some ''api_key'', rc_name = ''ApiKeyAuthProvider'',
       rc_repr = ''<class '' @ py_repr ''apps.authproviders.providers.api_key.ApiKeyAuthProvider'' @ ''>'',
       rc_instance = ApiKeyAuth\<rparr>,
      \<lparr>rc_type_key = Some ''basic'', rc_name = ''BasicAuthProvider'',
       rc_repr = ''<class '' @ py_repr ''apps.authproviders.providers.basic.BasicAuthProvider'' @ ''>'',
       rc_instance = BasicAuth\<rparr>,
      \<lparr>rc_type_key = Some ''bearer'', rc_name = ''BearerAuthProvider'',
       rc_repr = ''<class '' @ py_repr ''apps.authproviders.providers.bearer.BearerAuthProvider'' @ ''>'',
       rc_instance = BearerAuth\<rparr>,
      \<lparr>rc_type_key = Some ''multi_step_token'', rc_name = ''MultiStepTokenAuthProvider'',
       rc_repr = ''<class '' @ py_repr ''apps.authproviders.providers.multi_step.MultiStepTokenAuthProvider'' @ ''>'',
       rc_instance = MultiStepAuth None\<rparr>,
      \<lparr>rc_type_key = Some ''token_endpoint'', rc_name = ''TokenEndpointAuthProvider'',
       rc_repr = ''<class '' @ py_repr ''apps.authproviders.providers.token_endpoint.TokenEndpointAuthProvider'' @ ''>'',
       rc_instance = TokenEndpointAuth None\<rparr>]"

definition source_classes :: "unit registered_class list" where
  "source_classes = [\<lparr>rc_type_key = Some ''rest_api'', rc_name = ''RestApiSourceConnector'',
     rc_repr = ''<class '' @ py_repr ''apps.connectors.sources.rest_api.RestApiSourceConnector'' @ ''>'',
     rc_instance = ()\<rparr>]"

definition destination_classes :: "unit registered_class list" where
  "destination_classes = [\<lparr>rc_type_key = Some ''sqlserver'', rc_name = ''SqlServerDestinationConnector'',
     rc_repr = ''<class '' @ py_repr ''apps.connectors.destinations.sqlserver.SqlServerDestinationConnector'' @ ''>'',
     rc_instance = ()\<rparr>]"

lemma classes_keyed: "keyed provider_classes" "keyed source_classes" "keyed destination_classes"
  by (simp_all add: keyed_def provider_classes_def source_classes_def destination_classes_def)

text \<open>Whatever the order in which the provider modules are imported, the registry holds the five built-in
  providers, as the model of the providers has them.\<close>

theorem provider_registry_filled:
  assumes "mset cs = mset provider_classes"
  shows "\<exists>reg. import_modules register cs [] = Inr reg \<and> registered_types reg = available_auth_provider_types \<and>
    (\<forall>k. map_option rc_instance (map_of reg k) = map_of auth_registry k)"
proof -
  from import_any_order [OF classes_keyed(1) assms register_keyed(1)] obtain reg where
    reg: "import_modules register cs [] = Inr reg"
      "registered_types reg = sort (map (\<lambda>c. the (rc_type_key c)) provider_classes)"
      "map_of reg = map_of (map (\<lambda>c. (the (rc_type_key c), c)) provider_classes)" by blast
  have "sort (map (\<lambda>c. the (rc_type_key c)) provider_classes) = available_auth_provider_types" by code_simp
  moreover have "map_option rc_instance (map_of reg k) = map_of auth_registry k" for k
    by (simp add: reg(3) provider_classes_def auth_registry_def)
  ultimately show ?thesis using reg by auto
qed

theorem connector_registries_filled:
  "\<exists>sources destinations. import_modules register_connector source_classes [] = Inr sources \<and>
    import_modules register_connector destination_classes [] = Inr destinations \<and>
    registered_types sources = available_source_types \<and> registered_types destinations = available_destination_types \<and>
    get_registered sources = get_connector available_source_types \<and>
    get_registered destinations = get_connector available_destination_types"
  by (simp add: source_classes_def destination_classes_def register_keyed set_item_def dict_merge_def fun_eq_iff
      registered_types_def get_registered_def get_connector_def available_source_types_def available_destination_types_def)

subsection \<open>The configured stores\<close>

text \<open>The factory constructs the configured backend when there is no instance yet; a construction that raises
  leaves none. \<open>backend_cls n\<close> is the result of the n-th construction in the process.\<close>

record 's factory =
  fa_store_instance :: "'s option"
  fa_constructions :: nat

definition get_store :: "(nat \<Rightarrow> exn + 's) \<Rightarrow> 's factory \<Rightarrow> (exn + 's) \<times> 's factory" where
  "get_store backend_cls fa =
     (case fa_store_instance fa of
        Some st \<Rightarrow> (Inr st, fa)
      | None \<Rightarrow>
          (case backend_cls (fa_constructions fa) of
             Inl e \<Rightarrow> (Inl e, fa\<lparr>fa_constructions := fa_constructions fa + 1\<rparr>)
           | Inr st \<Rightarrow> (Inr st, \<lparr>fa_store_instance = Some st, fa_constructions = fa_constructions fa + 1\<rparr>)))"

definition get_secret_store :: "(nat \<Rightarrow> exn + 's) \<Rightarrow> 's factory \<Rightarrow> (exn + 's) \<times> 's factory" where
  "get_secret_store = get_store"

definition get_raw_payload_store :: "(nat \<Rightarrow> exn + 's) \<Rightarrow> 's factory \<Rightarrow> (exn + 's) \<times> 's factory" where
  "get_raw_payload_store = get_store"

fun get_stores :: "(nat \<Rightarrow> exn + 's) \<Rightarrow> nat \<Rightarrow> 's factory \<Rightarrow> (exn + 's) list \<times> 's factory" where
  "get_stores backend_cls 0 fa = ([], fa)"
| "get_stores backend_cls (Suc n) fa =
     (let (r, fa1) = get_store backend_cls fa; (rs, fa2) = get_stores backend_cls n fa1 in (r # rs, fa2))"

lemma get_stores_kept:
  "fa_store_instance fa = Some st \<Longrightarrow> get_stores backend_cls n fa = (replicate n (Inr st), fa)"
  by (induction n) (simp_all add: get_store_def)

text \<open>All calls that succeed return the same instance, and after it was constructed there is no other
  construction.\<close>

theorem store_constructed_once:
  assumes "get_stores backend_cls n \<lparr>fa_store_instance = None, fa_constructions = k\<rparr> = (rs, fa)"
  shows "\<exists>es st m. rs = map Inl es @ replicate m (Inr st) \<and>
    fa_constructions fa = k + length es + (if m = 0 then 0 else 1)"
  using assms
proof (induction n arbitrary: k rs fa)
  case (Suc n)
  let ?fa = "\<lambda>k. \<lparr>fa_store_instance = None, fa_constructions = k\<rparr>"
  show ?case
  proof (cases "backend_cls k")
    case (Inl e)
    obtain rs' where rs': "get_stores backend_cls n (?fa (k + 1)) = (rs', fa)" "rs = Inl e # rs'"
      using Suc.prems Inl by (auto simp: get_store_def split: prod.splits)
    from Suc.IH [OF rs'(1)] obtain es st m where
      "rs' = map Inl es @ replicate m (Inr st)" "fa_constructions fa = k + 1 + length es + (if m = 0 then 0 else 1)" by blast
    with rs'(2) show ?thesis by (intro exI [of _ "e # es"] exI [of _ st] exI [of _ m]) simp
  next
    case (Inr st)
    then have "rs = Inr st # replicate n (Inr st) \<and> fa_constructions fa = k + 1"
      using Suc.prems get_stores_kept [of "\<lparr>fa_store_instance = Some st, fa_constructions = k + 1\<rparr>" st backend_cls n]
      by (auto simp: get_store_def)
    then show ?thesis by (intro exI [of _ "[]"] exI [of _ st] exI [of _ "Suc n"]) simp
  qed
qed simp

end
