(* ===== verification/Schema.thy ===== *)
theory Schema
  imports Prelude
begin

text \<open>
  Tables of the database and the migrations that build them: the fields of a model, the operations of a
  migration as far as the program's migrations use them, and plans of migrations that keep their
  dependencies. What an operation does to the tables is the documented behaviour of Django. The tables that
  join a many-to-many field and the indexes of a foreign key, which Django adds by itself, are left out.
\<close>

subsection \<open>Fields and tables\<close>

datatype app_label =
    AccountsApp | AuditingApp | ConnectionsApp | ExecutionApp | OpsuiApp | OrgsApp | PipelinesApp | RawstoreApp
  | SecretsApp | DjangoApp string

text \<open>A model by its app and its name in lower case.\<close>

type_synonym model_ref = "app_label \<times> string"

datatype deletion = CASCADE | PROTECT | SET_NULL

datatype field_type =
    BigAutoField
  | UUIDField
  | CharField nat
  | SlugField nat
  | EmailField nat
  | TextField
  | BooleanField
  | DateTimeField
  | JSONField
  | BinaryField
  | PositiveIntegerField
  | PositiveSmallIntegerField
  | PositiveBigIntegerField
  | ForeignKey model_ref deletion
  | OneToOneField model_ref deletion
  | ManyToManyField model_ref

datatype default_value = NoDefault | DefaultNone | DefaultBool bool | DefaultInt nat | DefaultText string | Callable string

datatype auto_time = NoAutoTime | AutoNowAdd | AutoNow

text \<open>The arguments that shape a table or the values in it; help texts, labels and validators are left out.\<close>

record model_field =
  mf_type :: field_type
  mf_null :: bool
  mf_blank :: bool
  mf_unique :: bool
  mf_primary_key :: bool
  mf_db_index :: bool
  mf_editable :: bool
  mf_auto :: auto_time
  mf_default :: default_value
  mf_choices :: "(string \<times> string) list"
  mf_related_name :: "string option"
  mf_limit_choices_to :: "(string \<times> string) list"

text \<open>A field declared without any other argument.\<close>

definition plain :: "field_type \<Rightarrow> model_field" where
  "plain t = \<lparr>mf_type = t, mf_null = False, mf_blank = False, mf_unique = False, mf_primary_key = False,
     mf_db_index = False, mf_editable = True, mf_auto = NoAutoTime, mf_default = NoDefault, mf_choices = [],
     mf_related_name = None, mf_limit_choices_to = []\<rparr>"

record unique_constraint =
  uc_name :: string
  uc_fields :: "string list"
  uc_condition :: "(string \<times> string list) option" \<comment> \<open>a field in a list of values\<close>

record table =
  tb_fields :: "(string \<times> model_field) list"
  tb_ordering :: "string list"
  tb_constraints :: "unique_constraint list"

text \<open>The models a field refers to.\<close>

fun field_refs :: "field_type \<Rightarrow> model_ref list" where
  "field_refs (ForeignKey r d) = [r]"
| "field_refs (OneToOneField r d) = [r]"
| "field_refs (ManyToManyField r) = [r]"
| "field_refs t = []"

definition refs_of :: "(string \<times> model_field) list \<Rightarrow> model_ref list" where
  "refs_of fs = concat (map (\<lambda>(n, f). field_refs (mf_type f)) fs)"

subsection \<open>Operations\<close>

datatype operation =
    CreateModel string "(string \<times> model_field) list" "string list" "unique_constraint list"
  | AddField string string model_field
  | AlterField string string model_field
  | AlterModelOptions string "string list"
  | AddConstraint string unique_constraint
  | RemoveConstraint string string
  | RunPython

type_synonym tables = "(string \<times> table) list"

definition change_table :: "string \<Rightarrow> (table \<Rightarrow> table option) \<Rightarrow> tables \<Rightarrow> tables option" where
  "change_table model f ts =
     (case map_of ts model of
        None \<Rightarrow> None
      | Some t \<Rightarrow> map_option (\<lambda>t'. map (\<lambda>(n, x). (n, if n = model then t' else x)) ts) (f t))"

text \<open>The tables have no rows here, as in a fresh database, where the functions that \<^verbatim>\<open>RunPython\<close> calls
  find nothing to change. What they do to rows is in the theory of the backfills.\<close>

fun apply_operation :: "operation \<Rightarrow> tables \<Rightarrow> tables option" where
  "apply_operation (CreateModel name fs ord cs) ts =
     (if py_lower name \<in> fst ` set ts then None
      else Some (ts @ [(py_lower name, \<lparr>tb_fields = fs, tb_ordering = ord, tb_constraints = cs\<rparr>)]))"
| "apply_operation (AddField model n f) ts = change_table model (\<lambda>t.
     if n \<in> fst ` set (tb_fields t) then None else Some (t\<lparr>tb_fields := tb_fields t @ [(n, f)]\<rparr>)) ts"
| "apply_operation (AlterField model n f) ts = change_table model (\<lambda>t.
     if n \<in> fst ` set (tb_fields t)
     then Some (t\<lparr>tb_fields := map (\<lambda>(k, g). (k, if k = n then f else g)) (tb_fields t)\<rparr>) else None) ts"
| "apply_operation (AlterModelOptions model ord) ts = change_table model (\<lambda>t. Some (t\<lparr>tb_ordering := ord\<rparr>)) ts"
| "apply_operation (AddConstraint model c) ts = change_table model (\<lambda>t.
     if uc_name c \<in> uc_name ` set (tb_constraints t) then None
     else Some (t\<lparr>tb_constraints := tb_constraints t @ [c]\<rparr>)) ts"
| "apply_operation (RemoveConstraint model n) ts = change_table model (\<lambda>t.
     if n \<in> uc_name ` set (tb_constraints t)
     then Some (t\<lparr>tb_constraints := filter (\<lambda>c. uc_name c \<noteq> n) (tb_constraints t)\<rparr>) else None) ts"
| "apply_operation RunPython ts = Some ts"

fun operation_refs :: "operation \<Rightarrow> model_ref list" where
  "operation_refs (CreateModel name fs ord cs) = refs_of fs"
| "operation_refs (AddField model n f) = field_refs (mf_type f)"
| "operation_refs (AlterField model n f) = field_refs (mf_type f)"
| "operation_refs op = []"

subsection \<open>Migrations\<close>

record migration =
  mg_app :: app_label
  mg_name :: string
  mg_dependencies :: "(app_label \<times> string) list"
  mg_operations :: "operation list"

definition mg_id :: "migration \<Rightarrow> app_label \<times> string" where
  "mg_id m = (mg_app m, mg_name m)"

text \<open>The tables of a schema by app; a reference must lead to a table of the schema or to one that is
  visible from it.\<close>

type_synonym schema = "app_label \<Rightarrow> tables"

definition has_table :: "schema \<Rightarrow> model_ref \<Rightarrow> bool" where
  "has_table s r = (snd r \<in> fst ` set (s (fst r)))"

fun run_operations :: "(model_ref \<Rightarrow> bool) \<Rightarrow> app_label \<Rightarrow> operation list \<Rightarrow> schema \<Rightarrow> schema option" where
  "run_operations visible a [] s = Some s"
| "run_operations visible a (op # ops) s =
     (case apply_operation op (s a) of
        None \<Rightarrow> None
      | Some ts \<Rightarrow>
          if list_all (\<lambda>r. visible r \<or> has_table (s(a := ts)) r) (operation_refs op)
          then run_operations visible a ops (s(a := ts)) else None)"

text \<open>A plan in one schema: the migrations of the apps that the router keeps out of it do nothing there.\<close>

fun run_plan :: "(app_label \<Rightarrow> bool) \<Rightarrow> (model_ref \<Rightarrow> bool) \<Rightarrow> migration list \<Rightarrow> schema \<Rightarrow> schema option" where
  "run_plan allowed visible [] s = Some s"
| "run_plan allowed visible (m # ms) s =
     (if allowed (mg_app m)
      then (case run_operations visible (mg_app m) (mg_operations m) s of
              None \<Rightarrow> None | Some s' \<Rightarrow> run_plan allowed visible ms s')
      else run_plan allowed visible ms s)"

lemma run_operations_mono:
  assumes "run_operations visible a ops s = Some s'" and "\<And>r. visible r \<Longrightarrow> visible' r"
  shows "run_operations visible' a ops s = Some s'"
  using assms by (induction ops arbitrary: s) (auto split: option.splits if_splits simp: list_all_iff)

lemma run_plan_mono:
  assumes "run_plan allowed visible plan s = Some s'" and "\<And>r. visible r \<Longrightarrow> visible' r"
  shows "run_plan allowed visible' plan s = Some s'"
  using assms(1)
  by (induction plan arbitrary: s) (auto split: option.splits if_splits dest: run_operations_mono [OF _ assms(2)])

text \<open>Each migration comes after those of the program that it depends on.\<close>

definition own_app :: "app_label \<Rightarrow> bool" where
  "own_app a = (case a of DjangoApp l \<Rightarrow> False | _ \<Rightarrow> True)"

fun keeps_dependencies :: "(app_label \<times> string) set \<Rightarrow> migration list \<Rightarrow> bool" where
  "keeps_dependencies past [] = True"
| "keeps_dependencies past (m # ms) =
     (list_all (\<lambda>d. d \<in> past \<or> \<not> own_app (fst d)) (mg_dependencies m) \<and>
      keeps_dependencies (insert (mg_id m) past) ms)"

subsection \<open>The order within an app\<close>

text \<open>The migrations of an app in order, each of which depends on the one before.\<close>

definition linked :: "app_label \<Rightarrow> migration list \<Rightarrow> bool" where
  "linked a ms = (list_all (\<lambda>m. mg_app m = a) ms \<and> distinct (map mg_name ms) \<and> (ms = [] \<or> own_app a) \<and>
     list_all (\<lambda>i. (a, mg_name (ms ! i)) \<in> set (mg_dependencies (ms ! (i + 1)))) [0..<length ms - 1])"

lemma linked_dep: "linked a ms \<Longrightarrow> Suc i < length ms \<Longrightarrow> (a, mg_name (ms ! i)) \<in> set (mg_dependencies (ms ! Suc i))"
  by (auto simp: linked_def list_all_iff)

lemma linked_id: "linked a ms \<Longrightarrow> i < length ms \<Longrightarrow> mg_id (ms ! i) = (a, mg_name (ms ! i))"
  by (simp add: linked_def mg_id_def list_all_length)

lemma linked_name_eq:
  "linked a ms \<Longrightarrow> i < length ms \<Longrightarrow> j < length ms \<Longrightarrow> mg_name (ms ! i) = mg_name (ms ! j) \<longleftrightarrow> i = j"
  by (auto simp: linked_def distinct_conv_nth)

definition ran_prefix :: "app_label \<Rightarrow> migration list \<Rightarrow> nat \<Rightarrow> (app_label \<times> string) set \<Rightarrow> bool" where
  "ran_prefix a ms k past = (k \<le> length ms \<and> (\<forall>i < length ms. (a, mg_name (ms ! i)) \<in> past \<longleftrightarrow> i < k))"

text \<open>The next migration of an app that may run is the first one that has not.\<close>

lemma next_in_app:
  assumes l: "linked a ms" and p: "ran_prefix a ms k past" and m: "m \<in> set ms" and new: "mg_id m \<notin> past"
    and dep: "list_all (\<lambda>d. d \<in> past \<or> \<not> own_app (fst d)) (mg_dependencies m)"
  shows "k < length ms \<and> m = ms ! k"
proof -
  from m obtain r where r: "r < length ms" "m = ms ! r" by (auto simp: in_set_conv_nth)
  have ge: "k \<le> r" using p new r linked_id [OF l r(1)] by (auto simp: ran_prefix_def not_less)
  have "r \<le> k"
  proof (cases r)
    case (Suc i)
    from linked_dep [OF l, of i] Suc r have "(a, mg_name (ms ! i)) \<in> set (mg_dependencies m)" by simp
    with dep l m have "(a, mg_name (ms ! i)) \<in> past" by (auto simp: list_all_iff linked_def)
    with p Suc r show ?thesis by (auto simp: ran_prefix_def)
  qed simp
  with ge r show ?thesis by simp
qed

lemma ran_prefix_next:
  assumes l: "linked a ms" and p: "ran_prefix a ms k past" and k: "k < length ms"
  shows "ran_prefix a ms (Suc k) (insert (mg_id (ms ! k)) past)"
  using p k linked_id [OF l k] linked_name_eq [OF l _ k] by (auto simp: ran_prefix_def less_Suc_eq)

lemma ran_prefix_other: "ran_prefix a ms k past \<Longrightarrow> fst d \<noteq> a \<Longrightarrow> ran_prefix a ms k (insert d past)"
  by (auto simp: ran_prefix_def)

subsection \<open>What an app's own operations build\<close>

fun build :: "app_label \<Rightarrow> operation list \<Rightarrow> tables \<Rightarrow> tables option" where
  "build a [] ts = Some ts"
| "build a (op # ops) ts =
     (case apply_operation op ts of
        None \<Rightarrow> None
      | Some ts' \<Rightarrow>
          if list_all (\<lambda>r. fst r = a \<longrightarrow> snd r \<in> fst ` set ts') (operation_refs op) then build a ops ts' else None)"

definition cross_refs :: "app_label \<Rightarrow> operation list \<Rightarrow> model_ref list" where
  "cross_refs a ops = filter (\<lambda>r. fst r \<noteq> a) (concat (map operation_refs ops))"

lemma cross_refs_Cons:
  "set (cross_refs a (op # ops)) = {r \<in> set (operation_refs op). fst r \<noteq> a} \<union> set (cross_refs a ops)"
  by (auto simp: cross_refs_def)

lemma build_append: "build a (xs @ ys) ts = (case build a xs ts of None \<Rightarrow> None | Some ts' \<Rightarrow> build a ys ts')"
  by (induction xs arbitrary: ts) (auto split: option.split)

lemma run_operations_build:
  assumes "build a ops (s a) = Some ts" and "\<forall>r \<in> set (cross_refs a ops). visible r \<or> has_table s r"
  shows "run_operations visible a ops s = Some (s(a := ts))"
  using assms
proof (induction ops arbitrary: s)
  case (Cons op ops)
  then obtain ts1 where op: "apply_operation op (s a) = Some ts1"
    and own: "list_all (\<lambda>r. fst r = a \<longrightarrow> snd r \<in> fst ` set ts1) (operation_refs op)" and rest: "build a ops ts1 = Some ts"
    by (auto split: option.splits if_splits)
  have other: "has_table (s(a := ts1)) r \<longleftrightarrow> has_table s r" if "fst r \<noteq> a" for r using that by (simp add: has_table_def)
  have here: "visible r \<or> has_table (s(a := ts1)) r" if "r \<in> set (operation_refs op)" for r
  proof (cases "fst r = a")
    case True
    with own that show ?thesis by (simp add: list_all_iff has_table_def)
  next
    case False
    with Cons.prems(2) that other show ?thesis by (auto simp: cross_refs_Cons)
  qed
  have later: "visible r \<or> has_table (s(a := ts1)) r" if "r \<in> set (cross_refs a ops)" for r
  proof -
    from that have "fst r \<noteq> a" by (simp add: cross_refs_def)
    with Cons.prems(2) that other show ?thesis by (auto simp: cross_refs_Cons)
  qed
  have "build a ops ((s(a := ts1)) a) = Some ts" using rest by simp
  moreover have "\<forall>r \<in> set (cross_refs a ops). visible r \<or> has_table (s(a := ts1)) r" using later by blast
  ultimately have "run_operations visible a ops (s(a := ts1)) = Some ((s(a := ts1))(a := ts))" by (rule Cons.IH)
  moreover have "list_all (\<lambda>r. visible r \<or> has_table (s(a := ts1)) r) (operation_refs op)"
    unfolding list_all_iff using here by blast
  ultimately show ?case by (simp only: run_operations.simps op option.case if_True fun_upd_upd)
qed auto

lemma change_table_models: "change_table model f ts = Some ts' \<Longrightarrow> map fst ts' = map fst ts"
  by (auto simp: change_table_def split: option.splits)

fun created_by :: "operation \<Rightarrow> string list" where
  "created_by (CreateModel name fs ord cs) = [py_lower name]"
| "created_by op = []"

lemma apply_operation_models:
  "apply_operation op ts = Some ts' \<Longrightarrow> map fst ts' = map fst ts @ created_by op"
  by (cases op) (auto split: if_splits dest: change_table_models)

definition created :: "operation list \<Rightarrow> string list" where
  "created ops = concat (map created_by ops)"

lemma build_created: "build a ops ts = Some ts' \<Longrightarrow> map fst ts' = map fst ts @ created ops"
proof (induction ops arbitrary: ts)
  case (Cons op ops)
  then obtain ts1 where op: "apply_operation op ts = Some ts1" and rest: "build a ops ts1 = Some ts'"
    by (auto split: option.splits if_splits)
  from apply_operation_models [OF op] Cons.IH [OF rest] show ?case by (simp add: created_def)
qed (simp add: created_def)

lemma build_tables: "build a ops [] = Some ts \<Longrightarrow> fst ` set ts = set (created ops)"
  using build_created [of a ops "[]" ts] by (metis append_Nil list.set_map list.simps(8))

definition operations_of :: "migration list \<Rightarrow> operation list" where
  "operations_of ms = concat (map mg_operations ms)"

lemma operations_of_take:
  "k < length ms \<Longrightarrow> operations_of (take (Suc k) ms) = operations_of (take k ms) @ mg_operations (ms ! k)"
  by (simp add: operations_of_def take_Suc_conv_app_nth)

subsection \<open>Any plan builds the same tables\<close>

text \<open>What a set of migrations, given by app, promises for one kind of schema: it is in order within each
  app, the operations of each app that goes there apply one after the other and end in
  \<open>result\<close>, and what they refer to outside of the app is visible from the schema or was created
  by a migration that they depend on.\<close>

locale migration_set =
  fixes chain :: "app_label \<Rightarrow> migration list" and allowed :: "app_label \<Rightarrow> bool"
    and visible :: "model_ref \<Rightarrow> bool" and tables_of :: "app_label \<Rightarrow> tables"
  assumes in_order: "linked a (chain a)"
    and builds: "allowed a \<Longrightarrow> build a (operations_of (chain a)) [] = Some (tables_of a)"
    and refers: "allowed a \<Longrightarrow> m \<in> set (chain a) \<Longrightarrow> r \<in> set (cross_refs a (mg_operations m)) \<Longrightarrow>
      visible r \<or> allowed (fst r) \<and> (\<exists>j < length (chain (fst r)). mg_id (chain (fst r) ! j) \<in> set (mg_dependencies m) \<and>
         snd r \<in> set (created (operations_of (take (Suc j) (chain (fst r))))))"
begin

definition after :: "(app_label \<Rightarrow> nat) \<Rightarrow> schema" where
  "after k = (\<lambda>a. if allowed a then the (build a (operations_of (take (k a) (chain a))) []) else [])"

lemma built_prefix:
  assumes "allowed a"
  shows "\<exists>ts. build a (operations_of (take k (chain a))) [] = Some ts"
proof -
  have "operations_of (chain a) = operations_of (take k (chain a)) @ operations_of (drop k (chain a))"
    by (metis append_take_drop_id concat_append map_append operations_of_def)
  with builds [OF assms] show ?thesis by (auto simp: build_append split: option.splits)
qed

lemma created_in_prefix:
  assumes "allowed b" and "j < k" and "t \<in> set (created (operations_of (take (Suc j) (chain b))))"
  shows "has_table (after (\<lambda>a. if a = b then k else n a)) (b, t)"
proof -
  have "take k (chain b) = take (Suc j) (chain b) @ take (k - Suc j) (drop (Suc j) (chain b))"
    using assms(2) by (metis Suc_leI le_add_diff_inverse take_add)
  then have sub: "set (created (operations_of (take (Suc j) (chain b)))) \<subseteq> set (created (operations_of (take k (chain b))))"
    by (auto simp: created_def operations_of_def)
  obtain ts where ts: "build b (operations_of (take k (chain b))) [] = Some ts" using built_prefix [OF assms(1)] by blast
  with build_tables [OF ts] sub assms(1,3) show ?thesis by (auto simp: has_table_def after_def)
qed

lemma run_plan_after:
  assumes "keeps_dependencies past plan" and "\<And>a. ran_prefix a (chain a) (k a) past"
    and "\<forall>m \<in> set plan. m \<in> set (chain (mg_app m))" and "distinct (map mg_id plan)" and "mg_id ` set plan \<inter> past = {}"
  shows "run_plan allowed visible plan (after k) =
    Some (after (\<lambda>a. k a + length (filter (\<lambda>m. mg_app m = a) plan)))"
  using assms
proof (induction plan arbitrary: past k)
  case (Cons m ms)
  let ?a = "mg_app m"
  let ?k = "k(?a := Suc (k ?a))"
  have dep: "list_all (\<lambda>d. d \<in> past \<or> \<not> own_app (fst d)) (mg_dependencies m)" using Cons.prems(1) by simp
  have "m \<in> set (chain ?a)" "mg_id m \<notin> past" using Cons.prems(3,5) by auto
  from next_in_app [OF in_order Cons.prems(2) this dep] have k: "k ?a < length (chain ?a)" "m = chain ?a ! k ?a" by auto
  have past: "ran_prefix a (chain a) (?k a) (insert (mg_id m) past)" for a
  proof (cases "a = ?a")
    case True
    with ran_prefix_next [OF in_order Cons.prems(2) k(1)] k(2) show ?thesis by simp
  next
    case False
    with ran_prefix_other [OF Cons.prems(2), of "mg_id m" a] show ?thesis by (simp add: mg_id_def)
  qed
  have rest: "run_plan allowed visible ms (after ?k) =
      Some (after (\<lambda>a. ?k a + length (filter (\<lambda>m. mg_app m = a) ms)))"
    by (rule Cons.IH [OF _ past]) (use Cons.prems in auto)
  have count: "(\<lambda>a. ?k a + length (filter (\<lambda>m. mg_app m = a) ms)) =
      (\<lambda>a. k a + length (filter (\<lambda>m. mg_app m = a) (m # ms)))" by auto
  show ?case
  proof (cases "allowed ?a")
    case False
    then have "after ?k = after k" by (auto simp: after_def)
    with False rest count show ?thesis by simp
  next
    case True
    obtain ts where ts: "build ?a (operations_of (take (k ?a) (chain ?a))) [] = Some ts" using built_prefix [OF True] by blast
    obtain ts' where ts': "build ?a (operations_of (take (Suc (k ?a)) (chain ?a))) [] = Some ts'"
      using built_prefix [OF True] by blast
    have now: "build ?a (mg_operations m) (after k ?a) = Some ts'"
      using ts ts' k True by (simp add: operations_of_take [OF k(1)] build_append after_def)
    have refs: "visible r \<or> has_table (after k) r" if r: "r \<in> set (cross_refs ?a (mg_operations m))" for r
    proof -
      from refers [OF True _ r] Cons.prems(3) consider "visible r"
        | j where "allowed (fst r)" "j < length (chain (fst r))" "mg_id (chain (fst r) ! j) \<in> set (mg_dependencies m)"
            "snd r \<in> set (created (operations_of (take (Suc j) (chain (fst r)))))" by auto
      then show ?thesis
      proof cases
        case (2 j)
        have id: "mg_id (chain (fst r) ! j) = (fst r, mg_name (chain (fst r) ! j))" by (rule linked_id [OF in_order 2(2)])
        have "own_app (fst r)" using in_order [of "fst r"] 2(2) by (auto simp: linked_def)
        with dep 2(3) id have "(fst r, mg_name (chain (fst r) ! j)) \<in> past" by (auto simp: list_all_iff)
        with Cons.prems(2) [of "fst r"] 2(2) have "j < k (fst r)" by (auto simp: ran_prefix_def)
        from created_in_prefix [OF 2(1) this 2(4), of k] show ?thesis by (simp add: after_def has_table_def)
      qed simp
    qed
    have "(after k)(?a := ts') = after ?k" using True ts' by (auto simp: after_def)
    with run_operations_build [where s = "after k" and visible = visible, OF now] refs True rest count show ?thesis by simp
  qed
qed simp

lemma any_plan:
  assumes "keeps_dependencies {} plan" and "distinct (map mg_id plan)"
    and "\<And>m. m \<in> set plan \<longleftrightarrow> m \<in> set (chain (mg_app m))"
  shows "run_plan allowed visible plan (\<lambda>a. []) = Some (\<lambda>a. if allowed a then tables_of a else [])"
proof -
  have start: "(\<lambda>a. []) = after (\<lambda>a. 0)" by (simp add: after_def operations_of_def fun_eq_iff)
  have all: "length (filter (\<lambda>m. mg_app m = a) plan) = length (chain a)" for a
  proof -
    have apps: "mg_app m = a" if "m \<in> set (chain a)" for m
      using in_order [of a] that by (simp add: linked_def list_all_iff)
    have "set (filter (\<lambda>m. mg_app m = a) plan) = set (chain a)" using assms(3) apps by auto
    moreover have "distinct plan" using assms(2) by (simp add: distinct_map)
    moreover have "distinct (chain a)" using in_order [of a] by (simp add: linked_def distinct_map)
    ultimately show ?thesis by (metis distinct_card distinct_filter)
  qed
  have "after (\<lambda>a. length (chain a)) = (\<lambda>a. if allowed a then tables_of a else [])"
    using builds by (auto simp: after_def fun_eq_iff)
  with run_plan_after [OF assms(1), of "\<lambda>a. 0"] assms(2,3) all start show ?thesis
    by (auto simp: ran_prefix_def)
qed

end

end
