(* ===== verification/SchemaMigrations.thy ===== *)
theory SchemaMigrations
  imports Schema
begin

text \<open>
  The migrations of the program's apps, \<^verbatim>\<open>apps/*/migrations/*.py\<close>, one value each, with their
  dependencies and operations in the order of the files.
\<close>

definition AUTH_USER_MODEL :: model_ref where
  "AUTH_USER_MODEL = (AccountsApp, ''user'')"

text \<open>A dependency on the app of a model means the first migration of that app, and in each app the first
  one is \<open>0001_initial\<close>.\<close>

definition swappable_dependency :: "model_ref \<Rightarrow> app_label \<times> string" where
  "swappable_dependency r = (fst r, ''0001_initial'')"

subsection \<open>Accounts\<close>

definition accounts_0001 :: migration where
  "accounts_0001 = \<lparr>mg_app = AccountsApp,
     mg_name = ''0001_initial'',
     mg_dependencies = [(DjangoApp ''auth'', ''0012_alter_user_first_name_max_length'')],
     mg_operations = [
       CreateModel ''User'' [
        (''id'', (plain BigAutoField)\<lparr>mf_primary_key := True\<rparr>),
        (''password'', plain (CharField 128)),
        (''last_login'', (plain DateTimeField)\<lparr>mf_null := True, mf_blank := True\<rparr>),
        (''is_superuser'', (plain BooleanField)\<lparr>mf_default := DefaultBool False\<rparr>),
        (''username'', (plain (CharField 150))\<lparr>mf_unique := True\<rparr>),
        (''first_name'', (plain (CharField 150))\<lparr>mf_blank := True\<rparr>),
        (''last_name'', (plain (CharField 150))\<lparr>mf_blank := True\<rparr>),
        (''is_staff'', (plain BooleanField)\<lparr>mf_default := DefaultBool False\<rparr>),
        (''is_active'', (plain BooleanField)\<lparr>mf_default := DefaultBool True\<rparr>),
        (''date_joined'', (plain DateTimeField)\<lparr>mf_default := Callable ''timezone.now''\<rparr>),
        (''email'', (plain (EmailField 254))\<lparr>mf_unique := True\<rparr>),
        (''groups'', (plain (ManyToManyField (DjangoApp ''auth'', ''group'')))\<lparr>mf_blank := True,
           mf_related_name := Some ''user_set''\<rparr>),
        (''user_permissions'', (plain (ManyToManyField (DjangoApp ''auth'', ''permission'')))\<lparr>
           mf_blank := True, mf_related_name := Some ''user_set''\<rparr>)] [] []]\<rparr>"

subsection \<open>Auditing\<close>

definition auditing_0001 :: migration where
  "auditing_0001 = \<lparr>mg_app = AuditingApp,
     mg_name = ''0001_initial'',
     mg_dependencies = [swappable_dependency AUTH_USER_MODEL],
     mg_operations = [
       CreateModel ''AuditLog'' [
        (''created_at'', (plain DateTimeField)\<lparr>mf_auto := AutoNowAdd\<rparr>),
        (''updated_at'', (plain DateTimeField)\<lparr>mf_auto := AutoNow\<rparr>),
        (''id'', (plain UUIDField)\<lparr>mf_primary_key := True, mf_editable := False,
           mf_default := Callable ''uuid.uuid4''\<rparr>),
        (''action'', plain (CharField 255)),
        (''target_type'', plain (CharField 100)),
        (''target_id'', plain (CharField 255)),
        (''metadata'', (plain JSONField)\<lparr>mf_blank := True, mf_default := Callable ''dict''\<rparr>),
        (''actor'', (plain (ForeignKey AUTH_USER_MODEL SET_NULL))\<lparr>mf_null := True, mf_blank := True,
           mf_related_name := Some ''+''\<rparr>)] [''-created_at''] []]\<rparr>"

subsection \<open>Connections\<close>

definition connections_0001 :: migration where
  "connections_0001 = \<lparr>mg_app = ConnectionsApp,
     mg_name = ''0001_initial'',
     mg_dependencies = [swappable_dependency AUTH_USER_MODEL],
     mg_operations = [
       CreateModel ''Connection'' [
        (''created_at'', (plain DateTimeField)\<lparr>mf_auto := AutoNowAdd\<rparr>),
        (''updated_at'', (plain DateTimeField)\<lparr>mf_auto := AutoNow\<rparr>),
        (''id'', (plain UUIDField)\<lparr>mf_primary_key := True, mf_editable := False,
           mf_default := Callable ''uuid.uuid4''\<rparr>),
        (''name'', plain (CharField 255)),
        (''kind'', (plain (CharField 20))\<lparr>mf_choices := [(''source'', ''Source''),
           (''destination'', ''Destination'')]\<rparr>),
        (''connector_type'', plain (CharField 100)),
        (''config'', (plain JSONField)\<lparr>mf_blank := True, mf_default := Callable ''dict''\<rparr>),
        (''created_by'', (plain (ForeignKey AUTH_USER_MODEL SET_NULL))\<lparr>mf_null := True,
           mf_related_name := Some ''+''\<rparr>)] [] [],
       CreateModel ''Credential'' [
        (''created_at'', (plain DateTimeField)\<lparr>mf_auto := AutoNowAdd\<rparr>),
        (''updated_at'', (plain DateTimeField)\<lparr>mf_auto := AutoNow\<rparr>),
        (''id'', (plain UUIDField)\<lparr>mf_primary_key := True, mf_editable := False,
           mf_default := Callable ''uuid.uuid4''\<rparr>),
        (''auth_provider_type'', plain (CharField 100)),
        (''secret_ref'', plain (CharField 255)),
        (''connection'', (plain (OneToOneField (ConnectionsApp, ''connection'') CASCADE))\<lparr>
           mf_related_name := Some ''credential''\<rparr>)] [] [],
       AddConstraint ''connection''
         \<lparr>uc_name = ''unique_connection_name_per_kind'',
          uc_fields = [''name'', ''kind''], uc_condition = None\<rparr>]\<rparr>"

definition connections_0002 :: migration where
  "connections_0002 = \<lparr>mg_app = ConnectionsApp,
     mg_name = ''0002_allowedoutboundhost'',
     mg_dependencies = [(ConnectionsApp, ''0001_initial''), swappable_dependency AUTH_USER_MODEL],
     mg_operations = [
       CreateModel ''AllowedOutboundHost'' [
        (''created_at'', (plain DateTimeField)\<lparr>mf_auto := AutoNowAdd\<rparr>),
        (''updated_at'', (plain DateTimeField)\<lparr>mf_auto := AutoNow\<rparr>),
        (''id'', (plain UUIDField)\<lparr>mf_primary_key := True, mf_editable := False,
           mf_default := Callable ''uuid.uuid4''\<rparr>),
        (''host'', (plain (CharField 255))\<lparr>mf_unique := True\<rparr>),
        (''reason'', (plain (CharField 500))\<lparr>mf_blank := True,
           mf_default := DefaultText ''''\<rparr>),
        (''created_by'', (plain (ForeignKey AUTH_USER_MODEL SET_NULL))\<lparr>mf_null := True,
           mf_related_name := Some ''+''\<rparr>)] [] []]\<rparr>"

subsection \<open>Execution\<close>

definition execution_0001 :: migration where
  "execution_0001 = \<lparr>mg_app = ExecutionApp,
     mg_name = ''0001_initial'',
     mg_dependencies = [(PipelinesApp, ''0001_initial'')],
     mg_operations = [
       CreateModel ''PipelineRun'' [
        (''created_at'', (plain DateTimeField)\<lparr>mf_auto := AutoNowAdd\<rparr>),
        (''updated_at'', (plain DateTimeField)\<lparr>mf_auto := AutoNow\<rparr>),
        (''id'', (plain UUIDField)\<lparr>mf_primary_key := True, mf_editable := False,
           mf_default := Callable ''uuid.uuid4''\<rparr>),
        (''status'', (plain (CharField 20))\<lparr>mf_default := DefaultText ''pending'',
           mf_choices := [(''pending'', ''Pending''), (''running'', ''Running''),
           (''succeeded'', ''Succeeded''), (''failed'', ''Failed'')]\<rparr>),
        (''trigger'', (plain (CharField 20))\<lparr>mf_default := DefaultText ''manual'',
           mf_choices := [(''manual'', ''Manual''), (''scheduled'', ''Scheduled'')]\<rparr>),
        (''idempotency_key'', (plain (CharField 255))\<lparr>mf_unique := True\<rparr>),
        (''started_at'', (plain DateTimeField)\<lparr>mf_null := True, mf_blank := True\<rparr>),
        (''finished_at'', (plain DateTimeField)\<lparr>mf_null := True, mf_blank := True\<rparr>),
        (''error_message'', (plain TextField)\<lparr>mf_null := True, mf_blank := True\<rparr>),
        (''pipeline'', (plain (ForeignKey (PipelinesApp, ''pipeline'') CASCADE))\<lparr>
           mf_related_name := Some ''runs''\<rparr>)] [''-created_at''] [],
       CreateModel ''TaskExecution'' [
        (''created_at'', (plain DateTimeField)\<lparr>mf_auto := AutoNowAdd\<rparr>),
        (''updated_at'', (plain DateTimeField)\<lparr>mf_auto := AutoNow\<rparr>),
        (''id'', (plain UUIDField)\<lparr>mf_primary_key := True, mf_editable := False,
           mf_default := Callable ''uuid.uuid4''\<rparr>),
        (''step'', (plain (CharField 20))\<lparr>mf_choices := [(''extract'', ''Extract''),
           (''load'', ''Load'')]\<rparr>),
        (''status'', (plain (CharField 20))\<lparr>mf_default := DefaultText ''pending'',
           mf_choices := [(''pending'', ''Pending''), (''running'', ''Running''),
           (''succeeded'', ''Succeeded''), (''failed'', ''Failed'')]\<rparr>),
        (''attempt'', (plain PositiveIntegerField)\<lparr>mf_default := DefaultInt 1\<rparr>),
        (''started_at'', (plain DateTimeField)\<lparr>mf_null := True, mf_blank := True\<rparr>),
        (''finished_at'', (plain DateTimeField)\<lparr>mf_null := True, mf_blank := True\<rparr>),
        (''error_message'', (plain TextField)\<lparr>mf_null := True, mf_blank := True\<rparr>),
        (''run'', (plain (ForeignKey (ExecutionApp, ''pipelinerun'') CASCADE))\<lparr>
           mf_related_name := Some ''task_executions''\<rparr>)] [''created_at''] []]\<rparr>"

definition execution_0002 :: migration where
  "execution_0002 = \<lparr>mg_app = ExecutionApp,
     mg_name = ''0002_pipelinerun_attempt_pipelinerun_celery_task_id_and_more'',
     mg_dependencies = [(ExecutionApp, ''0001_initial'')],
     mg_operations = [
       AddField ''pipelinerun'' ''attempt'' ((plain PositiveIntegerField)\<lparr>
          mf_default := DefaultInt 0\<rparr>),
       AddField ''pipelinerun'' ''celery_task_id'' ((plain (CharField 255))\<lparr>mf_null := True,
          mf_blank := True\<rparr>),
       AddField ''pipelinerun'' ''error_category'' ((plain (CharField 100))\<lparr>mf_null := True,
          mf_blank := True\<rparr>),
       AddField ''pipelinerun'' ''error_is_retryable'' ((plain BooleanField)\<lparr>mf_null := True,
          mf_blank := True, mf_default := DefaultNone\<rparr>),
       AddField ''pipelinerun'' ''last_successful_cursor'' ((plain (CharField 255))\<lparr>mf_null := True,
          mf_blank := True\<rparr>),
       AddField ''pipelinerun'' ''pages_extracted'' ((plain PositiveIntegerField)\<lparr>
          mf_default := DefaultInt 0\<rparr>),
       AddField ''pipelinerun'' ''raw_payload_count'' ((plain PositiveIntegerField)\<lparr>
          mf_default := DefaultInt 0\<rparr>),
       AddField ''pipelinerun'' ''records_extracted'' ((plain PositiveIntegerField)\<lparr>
          mf_default := DefaultInt 0\<rparr>),
       AddField ''pipelinerun'' ''records_loaded'' ((plain PositiveIntegerField)\<lparr>
          mf_default := DefaultInt 0\<rparr>),
       AlterField ''taskexecution'' ''step'' ((plain (CharField 20))\<lparr>
          mf_choices := [(''extract'', ''Extract''), (''load'', ''Load''), (''run'', ''Run'')]\<rparr>)]\<rparr>"

definition execution_0003 :: migration where
  "execution_0003 = \<lparr>mg_app = ExecutionApp,
     mg_name = ''0003_pipelinerun_continued_from'',
     mg_dependencies = [(ExecutionApp, ''0002_pipelinerun_attempt_pipelinerun_celery_task_id_and_more'')],
     mg_operations = [
       AddField ''pipelinerun'' ''continued_from''
         ((plain (ForeignKey (ExecutionApp, ''pipelinerun'') SET_NULL))\<lparr>
          mf_null := True, mf_blank := True, mf_related_name := Some ''continuations''\<rparr>)]\<rparr>"

subsection \<open>Operator UI\<close>

definition opsui_0001 :: migration where
  "opsui_0001 = \<lparr>mg_app = OpsuiApp,
     mg_name = ''0001_initial'',
     mg_dependencies = [(OrgsApp, ''0002_organization_tenant_uuid''), swappable_dependency AUTH_USER_MODEL],
     mg_operations = [
       CreateModel ''RawPayloadMigrationJob'' [
        (''created_at'', (plain DateTimeField)\<lparr>mf_auto := AutoNowAdd\<rparr>),
        (''updated_at'', (plain DateTimeField)\<lparr>mf_auto := AutoNow\<rparr>),
        (''id'', (plain UUIDField)\<lparr>mf_primary_key := True, mf_editable := False,
           mf_default := Callable ''uuid.uuid4''\<rparr>),
        (''dry_run'', (plain BooleanField)\<lparr>mf_default := DefaultBool True\<rparr>),
        (''status'', (plain (CharField 20))\<lparr>mf_default := DefaultText ''pending'',
           mf_choices := [(''pending'', ''Pending''), (''running'', ''Running''),
           (''succeeded'', ''Succeeded''), (''partially_failed'', ''Partially failed''),
           (''failed'', ''Failed''), (''cancelled'', ''Cancelled'')]\<rparr>),
        (''celery_task_id'', (plain (CharField 255))\<lparr>mf_null := True, mf_blank := True\<rparr>),
        (''cancel_requested'', (plain BooleanField)\<lparr>mf_default := DefaultBool False\<rparr>),
        (''started_at'', (plain DateTimeField)\<lparr>mf_null := True, mf_blank := True\<rparr>),
        (''finished_at'', (plain DateTimeField)\<lparr>mf_null := True, mf_blank := True\<rparr>),
        (''records_inspected'', (plain PositiveIntegerField)\<lparr>mf_default := DefaultInt 0\<rparr>),
        (''already_migrated'', (plain PositiveIntegerField)\<lparr>mf_default := DefaultInt 0\<rparr>),
        (''legacy_unprefixed'', (plain PositiveIntegerField)\<lparr>mf_default := DefaultInt 0\<rparr>),
        (''schema_prefixed'', (plain PositiveIntegerField)\<lparr>mf_default := DefaultInt 0\<rparr>),
        (''missing_objects'', (plain PositiveIntegerField)\<lparr>mf_default := DefaultInt 0\<rparr>),
        (''checksum_conflicts'', (plain PositiveIntegerField)\<lparr>mf_default := DefaultInt 0\<rparr>),
        (''ready_for_migration'', (plain PositiveIntegerField)\<lparr>mf_default := DefaultInt 0\<rparr>),
        (''records_migrated'', (plain PositiveIntegerField)\<lparr>mf_default := DefaultInt 0\<rparr>),
        (''records_skipped'', (plain PositiveIntegerField)\<lparr>mf_default := DefaultInt 0\<rparr>),
        (''sample_problem_records'', (plain JSONField)\<lparr>mf_blank := True,
           mf_default := Callable ''list''\<rparr>),
        (''error_message'', (plain TextField)\<lparr>mf_null := True, mf_blank := True\<rparr>),
        (''initiated_by'', (plain (ForeignKey AUTH_USER_MODEL SET_NULL))\<lparr>mf_null := True,
           mf_blank := True, mf_related_name := Some ''+''\<rparr>),
        (''organization'', (plain (ForeignKey (OrgsApp, ''organization'') CASCADE))\<lparr>
           mf_related_name := Some ''raw_payload_migration_jobs''\<rparr>)] [''-created_at'']
       [\<lparr>uc_name = ''one_active_raw_payload_migration_job_per_org'',
          uc_fields = [''organization''], uc_condition = Some (''status'', [''pending'', ''running''])\<rparr>]]\<rparr>"

subsection \<open>Organizations\<close>

definition orgs_0001 :: migration where
  "orgs_0001 = \<lparr>mg_app = OrgsApp,
     mg_name = ''0001_initial'',
     mg_dependencies = [swappable_dependency AUTH_USER_MODEL],
     mg_operations = [
       CreateModel ''Organization'' [
        (''id'', (plain BigAutoField)\<lparr>mf_primary_key := True\<rparr>),
        (''schema_name'', (plain (CharField 63))\<lparr>mf_unique := True, mf_db_index := True\<rparr>),
        (''created_at'', (plain DateTimeField)\<lparr>mf_auto := AutoNowAdd\<rparr>),
        (''updated_at'', (plain DateTimeField)\<lparr>mf_auto := AutoNow\<rparr>),
        (''name'', plain (CharField 255)),
        (''slug'', (plain (SlugField 50))\<lparr>mf_unique := True\<rparr>)] [] [],
       CreateModel ''Membership'' [
        (''id'', (plain BigAutoField)\<lparr>mf_primary_key := True\<rparr>),
        (''created_at'', (plain DateTimeField)\<lparr>mf_auto := AutoNowAdd\<rparr>),
        (''updated_at'', (plain DateTimeField)\<lparr>mf_auto := AutoNow\<rparr>),
        (''role'', (plain (CharField 20))\<lparr>mf_default := DefaultText ''engineer'',
           mf_choices := [(''owner'', ''Owner''), (''admin'', ''Admin''), (''engineer'', ''Engineer''),
           (''analyst'', ''Analyst'')]\<rparr>),
        (''user'', (plain (ForeignKey AUTH_USER_MODEL CASCADE))\<lparr>
           mf_related_name := Some ''memberships''\<rparr>),
        (''organization'', (plain (ForeignKey (OrgsApp, ''organization'') CASCADE))\<lparr>
           mf_related_name := Some ''memberships''\<rparr>)] [] [],
       CreateModel ''Domain'' [
        (''id'', (plain BigAutoField)\<lparr>mf_primary_key := True\<rparr>),
        (''domain'', (plain (CharField 253))\<lparr>mf_unique := True, mf_db_index := True\<rparr>),
        (''is_primary'', (plain BooleanField)\<lparr>mf_db_index := True,
           mf_default := DefaultBool True\<rparr>),
        (''tenant'', (plain (ForeignKey (OrgsApp, ''organization'') CASCADE))\<lparr>
           mf_related_name := Some ''domains''\<rparr>)] [] [],
       AddConstraint ''membership''
         \<lparr>uc_name = ''unique_membership_per_org'',
          uc_fields = [''user'', ''organization''], uc_condition = None\<rparr>]\<rparr>"

definition orgs_0002 :: migration where
  "orgs_0002 = \<lparr>mg_app = OrgsApp,
     mg_name = ''0002_organization_tenant_uuid'',
     mg_dependencies = [(OrgsApp, ''0001_initial'')],
     mg_operations = [
       AddField ''organization'' ''tenant_uuid'' ((plain UUIDField)\<lparr>mf_null := True,
          mf_editable := False, mf_default := Callable ''uuid.uuid4''\<rparr>),
       RunPython,
       AlterField ''organization'' ''tenant_uuid'' ((plain UUIDField)\<lparr>mf_unique := True,
          mf_editable := False, mf_default := Callable ''uuid.uuid4''\<rparr>)]\<rparr>"

subsection \<open>Pipelines\<close>

definition pipelines_0001 :: migration where
  "pipelines_0001 = \<lparr>mg_app = PipelinesApp,
     mg_name = ''0001_initial'',
     mg_dependencies = [(ConnectionsApp, ''0001_initial''), swappable_dependency AUTH_USER_MODEL],
     mg_operations = [
       CreateModel ''Pipeline'' [
        (''created_at'', (plain DateTimeField)\<lparr>mf_auto := AutoNowAdd\<rparr>),
        (''updated_at'', (plain DateTimeField)\<lparr>mf_auto := AutoNow\<rparr>),
        (''id'', (plain UUIDField)\<lparr>mf_primary_key := True, mf_editable := False,
           mf_default := Callable ''uuid.uuid4''\<rparr>),
        (''name'', plain (CharField 255)),
        (''extraction_config'', (plain JSONField)\<lparr>mf_blank := True,
           mf_default := Callable ''dict''\<rparr>),
        (''destination_mapping'', (plain JSONField)\<lparr>mf_blank := True,
           mf_default := Callable ''dict''\<rparr>),
        (''schedule_cron'', (plain (CharField 100))\<lparr>mf_null := True, mf_blank := True\<rparr>),
        (''is_active'', (plain BooleanField)\<lparr>mf_default := DefaultBool True\<rparr>),
        (''created_by'', (plain (ForeignKey AUTH_USER_MODEL SET_NULL))\<lparr>mf_null := True,
           mf_related_name := Some ''+''\<rparr>),
        (''destination_connection'', (plain (ForeignKey (ConnectionsApp, ''connection'') PROTECT))\<lparr>
           mf_related_name := Some ''pipelines_as_destination'',
           mf_limit_choices_to := [(''kind'', ''destination'')]\<rparr>),
        (''source_connection'', (plain (ForeignKey (ConnectionsApp, ''connection'') PROTECT))\<lparr>
           mf_related_name := Some ''pipelines_as_source'',
           mf_limit_choices_to := [(''kind'', ''source'')]\<rparr>)] [] []]\<rparr>"

definition pipelines_0002 :: migration where
  "pipelines_0002 = \<lparr>mg_app = PipelinesApp,
     mg_name = ''0002_pipeline_strict_mapping'',
     mg_dependencies = [(PipelinesApp, ''0001_initial'')],
     mg_operations = [
       AddField ''pipeline'' ''strict_mapping'' ((plain BooleanField)\<lparr>
          mf_default := DefaultBool False\<rparr>)]\<rparr>"

subsection \<open>Raw payloads\<close>

definition rawstore_0001 :: migration where
  "rawstore_0001 = \<lparr>mg_app = RawstoreApp,
     mg_name = ''0001_initial'',
     mg_dependencies = [(ExecutionApp, ''0001_initial'')],
     mg_operations = [
       CreateModel ''RawPayloadRecord'' [
        (''created_at'', (plain DateTimeField)\<lparr>mf_auto := AutoNowAdd\<rparr>),
        (''updated_at'', (plain DateTimeField)\<lparr>mf_auto := AutoNow\<rparr>),
        (''id'', (plain UUIDField)\<lparr>mf_primary_key := True, mf_editable := False,
           mf_default := Callable ''uuid.uuid4''\<rparr>),
        (''storage_uri'', plain (CharField 1024)),
        (''content_type'', (plain (CharField 100))\<lparr>
           mf_default := DefaultText ''application/json''\<rparr>),
        (''size_bytes'', plain PositiveBigIntegerField),
        (''checksum_sha256'', plain (CharField 64)),
        (''sequence'', plain PositiveIntegerField),
        (''run'', (plain (ForeignKey (ExecutionApp, ''pipelinerun'') CASCADE))\<lparr>
           mf_related_name := Some ''raw_payloads''\<rparr>)] [''sequence''] [],
       AddConstraint ''rawpayloadrecord''
         \<lparr>uc_name = ''unique_raw_payload_sequence_per_run'',
          uc_fields = [''run'', ''sequence''], uc_condition = None\<rparr>]\<rparr>"

definition rawstore_0002 :: migration where
  "rawstore_0002 = \<lparr>mg_app = RawstoreApp,
     mg_name = ''0002_rawpayloadrecord_cursor_used_and_more'',
     mg_dependencies = [(RawstoreApp, ''0001_initial'')],
     mg_operations = [
       AddField ''rawpayloadrecord'' ''cursor_used'' ((plain (CharField 255))\<lparr>mf_null := True,
          mf_blank := True\<rparr>),
       AddField ''rawpayloadrecord'' ''http_status'' ((plain PositiveSmallIntegerField)\<lparr>
          mf_null := True, mf_blank := True\<rparr>),
       AddField ''rawpayloadrecord'' ''item_count'' ((plain PositiveIntegerField)\<lparr>
          mf_default := DefaultInt 0\<rparr>),
       AddField ''rawpayloadrecord'' ''next_cursor'' ((plain (CharField 255))\<lparr>mf_null := True,
          mf_blank := True\<rparr>),
       AddField ''rawpayloadrecord'' ''source_path'' ((plain (CharField 500))\<lparr>mf_blank := True,
          mf_default := DefaultText ''''\<rparr>)]\<rparr>"

definition rawstore_0003 :: migration where
  "rawstore_0003 = \<lparr>mg_app = RawstoreApp,
     mg_name = ''0003_alter_rawpayloadrecord_options_and_more'',
     mg_dependencies = [(ExecutionApp, ''0002_pipelinerun_attempt_pipelinerun_celery_task_id_and_more''),
       (RawstoreApp, ''0002_rawpayloadrecord_cursor_used_and_more'')],
     mg_operations = [
       AlterModelOptions ''rawpayloadrecord'' [''sequence'', ''created_at''],
       RemoveConstraint ''rawpayloadrecord'' ''unique_raw_payload_sequence_per_run'',
       AddField ''rawpayloadrecord'' ''loaded_successfully'' ((plain BooleanField)\<lparr>
          mf_default := DefaultBool False\<rparr>),
       AddConstraint ''rawpayloadrecord''
         \<lparr>uc_name = ''unique_raw_payload_version_per_run'',
          uc_fields = [''run'', ''sequence'', ''checksum_sha256''], uc_condition = None\<rparr>]\<rparr>"

definition rawstore_0004 :: migration where
  "rawstore_0004 = \<lparr>mg_app = RawstoreApp,
     mg_name = ''0004_backfill_loaded_successfully'',
     mg_dependencies = [(RawstoreApp, ''0003_alter_rawpayloadrecord_options_and_more'')],
     mg_operations = [
       RunPython]\<rparr>"

subsection \<open>Secrets\<close>

definition secrets_0001 :: migration where
  "secrets_0001 = \<lparr>mg_app = SecretsApp,
     mg_name = ''0001_initial'',
     mg_dependencies = [],
     mg_operations = [
       CreateModel ''EncryptedSecret'' [
        (''created_at'', (plain DateTimeField)\<lparr>mf_auto := AutoNowAdd\<rparr>),
        (''updated_at'', (plain DateTimeField)\<lparr>mf_auto := AutoNow\<rparr>),
        (''id'', (plain UUIDField)\<lparr>mf_primary_key := True, mf_editable := False,
           mf_default := Callable ''uuid.uuid4''\<rparr>),
        (''ciphertext'', plain BinaryField)] [] []]\<rparr>"

subsection \<open>All of them\<close>

fun migrations_of :: "app_label \<Rightarrow> migration list" where
  "migrations_of AccountsApp = [accounts_0001]"
| "migrations_of AuditingApp = [auditing_0001]"
| "migrations_of ConnectionsApp = [connections_0001, connections_0002]"
| "migrations_of ExecutionApp = [execution_0001, execution_0002, execution_0003]"
| "migrations_of OpsuiApp = [opsui_0001]"
| "migrations_of OrgsApp = [orgs_0001, orgs_0002]"
| "migrations_of PipelinesApp = [pipelines_0001, pipelines_0002]"
| "migrations_of RawstoreApp = [rawstore_0001, rawstore_0002, rawstore_0003, rawstore_0004]"
| "migrations_of SecretsApp = [secrets_0001]"
| "migrations_of (DjangoApp l) = []"

end
