(* ===== verification/ModelDecls.thy ===== *)
theory ModelDecls
  imports Schema SchemaMigrations
begin

text \<open>
  The classes of \<^verbatim>\<open>apps/*/models.py\<close> as declarations of tables: own fields, base classes, ordering and
  constraints, and when a table fits a declaration. Of a base class outside of the repository nothing is
  said, so the fields it contributes may be anything.
\<close>

datatype base = TimeStamped | Outside string

record model_decl =
  md_app :: app_label
  md_name :: string
  md_bases :: "base list"
  md_fields :: "(string \<times> model_field) list"
  md_ordering :: "string list"
  md_constraints :: "unique_constraint list"

definition timestamped_fields :: "(string \<times> model_field) list" where
  "timestamped_fields =
     [(''created_at'', (plain DateTimeField)\<lparr>mf_auto := AutoNowAdd\<rparr>),
      (''updated_at'', (plain DateTimeField)\<lparr>mf_auto := AutoNow\<rparr>)]"

fun base_fields :: "base \<Rightarrow> (string \<times> model_field) list" where
  "base_fields TimeStamped = timestamped_fields"
| "base_fields (Outside c) = []"

text \<open>A model without a primary key gets the one of \<^verbatim>\<open>DEFAULT_AUTO_FIELD\<close>.\<close>

definition DEFAULT_AUTO_FIELD :: field_type where
  "DEFAULT_AUTO_FIELD = BigAutoField"

definition declared_fields :: "model_decl \<Rightarrow> (string \<times> model_field) list" where
  "declared_fields d =
     (let fs = concat (map base_fields (md_bases d)) @ md_fields d
      in if list_ex (\<lambda>(n, f). mf_primary_key f) fs then fs
         else (''id'', (plain DEFAULT_AUTO_FIELD)\<lparr>mf_primary_key := True\<rparr>) # fs)"

definition fits :: "model_decl \<Rightarrow> table \<Rightarrow> bool" where
  "fits d t = (distinct (map fst (declared_fields d)) \<and> distinct (map fst (tb_fields t)) \<and>
     list_all (\<lambda>(n, f). map_of (tb_fields t) n = Some f) (declared_fields d) \<and>
     (list_all (\<lambda>b. b = TimeStamped) (md_bases d) \<longrightarrow> length (tb_fields t) = length (declared_fields d)) \<and>
     tb_ordering t = md_ordering d \<and> tb_constraints t = md_constraints d)"

text \<open>The tables of an app are those of its models.\<close>

definition implement :: "tables \<Rightarrow> model_decl list \<Rightarrow> bool" where
  "implement ts ds = (length ts = length ds \<and> distinct (map fst ts) \<and> distinct (map (\<lambda>d. py_lower (md_name d)) ds) \<and>
     list_all (\<lambda>d. case map_of ts (py_lower (md_name d)) of None \<Rightarrow> False | Some t \<Rightarrow> fits d t) ds)"

subsection \<open>Accounts\<close>

definition declared_User :: model_decl where
  "declared_User = \<lparr>md_app = AccountsApp, md_name = ''User'',
     md_bases = [Outside ''AbstractUser''],
     md_fields = [
       (''email'', (plain (EmailField 254))\<lparr>mf_unique := True\<rparr>)],
     md_ordering = [],
     md_constraints = []\<rparr>"

subsection \<open>Auditing\<close>

definition declared_AuditLog :: model_decl where
  "declared_AuditLog = \<lparr>md_app = AuditingApp, md_name = ''AuditLog'',
     md_bases = [TimeStamped],
     md_fields = [
       (''id'', (plain UUIDField)\<lparr>mf_primary_key := True, mf_editable := False,
          mf_default := Callable ''uuid.uuid4''\<rparr>),
       (''actor'', (plain (ForeignKey AUTH_USER_MODEL SET_NULL))\<lparr>mf_null := True, mf_blank := True,
          mf_related_name := Some ''+''\<rparr>),
       (''action'', plain (CharField 255)),
       (''target_type'', plain (CharField 100)),
       (''target_id'', plain (CharField 255)),
       (''metadata'', (plain JSONField)\<lparr>mf_blank := True, mf_default := Callable ''dict''\<rparr>)],
     md_ordering = [''-created_at''],
     md_constraints = []\<rparr>"

subsection \<open>Connections\<close>

definition Connection_Kind :: "(string \<times> string) list" where
  "Connection_Kind = [(''source'', ''Source''), (''destination'', ''Destination'')]"

definition declared_Connection :: model_decl where
  "declared_Connection = \<lparr>md_app = ConnectionsApp, md_name = ''Connection'',
     md_bases = [TimeStamped],
     md_fields = [
       (''id'', (plain UUIDField)\<lparr>mf_primary_key := True, mf_editable := False,
          mf_default := Callable ''uuid.uuid4''\<rparr>),
       (''name'', plain (CharField 255)),
       (''kind'', (plain (CharField 20))\<lparr>mf_choices := Connection_Kind\<rparr>),
       (''connector_type'', plain (CharField 100)),
       (''config'', (plain JSONField)\<lparr>mf_blank := True, mf_default := Callable ''dict''\<rparr>),
       (''created_by'', (plain (ForeignKey AUTH_USER_MODEL SET_NULL))\<lparr>mf_null := True,
          mf_related_name := Some ''+''\<rparr>)],
     md_ordering = [],
     md_constraints = [\<lparr>uc_name = ''unique_connection_name_per_kind'',
          uc_fields = [''name'', ''kind''], uc_condition = None\<rparr>]\<rparr>"

definition declared_Credential :: model_decl where
  "declared_Credential = \<lparr>md_app = ConnectionsApp, md_name = ''Credential'',
     md_bases = [TimeStamped],
     md_fields = [
       (''id'', (plain UUIDField)\<lparr>mf_primary_key := True, mf_editable := False,
          mf_default := Callable ''uuid.uuid4''\<rparr>),
       (''connection'', (plain (OneToOneField (ConnectionsApp, ''connection'') CASCADE))\<lparr>
          mf_related_name := Some ''credential''\<rparr>),
       (''auth_provider_type'', plain (CharField 100)),
       (''secret_ref'', plain (CharField 255))],
     md_ordering = [],
     md_constraints = []\<rparr>"

definition declared_AllowedOutboundHost :: model_decl where
  "declared_AllowedOutboundHost = \<lparr>md_app = ConnectionsApp, md_name = ''AllowedOutboundHost'',
     md_bases = [TimeStamped],
     md_fields = [
       (''id'', (plain UUIDField)\<lparr>mf_primary_key := True, mf_editable := False,
          mf_default := Callable ''uuid.uuid4''\<rparr>),
       (''host'', (plain (CharField 255))\<lparr>mf_unique := True\<rparr>),
       (''reason'', (plain (CharField 500))\<lparr>mf_blank := True, mf_default := DefaultText ''''\<rparr>),
       (''created_by'', (plain (ForeignKey AUTH_USER_MODEL SET_NULL))\<lparr>mf_null := True,
          mf_related_name := Some ''+''\<rparr>)],
     md_ordering = [],
     md_constraints = []\<rparr>"

subsection \<open>Execution\<close>

definition PipelineRun_Status :: "(string \<times> string) list" where
  "PipelineRun_Status = [(''pending'', ''Pending''), (''running'', ''Running''),
     (''succeeded'', ''Succeeded''), (''failed'', ''Failed'')]"

definition PipelineRun_Trigger :: "(string \<times> string) list" where
  "PipelineRun_Trigger = [(''manual'', ''Manual''), (''scheduled'', ''Scheduled'')]"

definition declared_PipelineRun :: model_decl where
  "declared_PipelineRun = \<lparr>md_app = ExecutionApp, md_name = ''PipelineRun'',
     md_bases = [TimeStamped],
     md_fields = [
       (''id'', (plain UUIDField)\<lparr>mf_primary_key := True, mf_editable := False,
          mf_default := Callable ''uuid.uuid4''\<rparr>),
       (''pipeline'', (plain (ForeignKey (PipelinesApp, ''pipeline'') CASCADE))\<lparr>
          mf_related_name := Some ''runs''\<rparr>),
       (''status'', (plain (CharField 20))\<lparr>mf_default := DefaultText ''pending'',
          mf_choices := PipelineRun_Status\<rparr>),
       (''trigger'', (plain (CharField 20))\<lparr>mf_default := DefaultText ''manual'',
          mf_choices := PipelineRun_Trigger\<rparr>),
       (''idempotency_key'', (plain (CharField 255))\<lparr>mf_unique := True\<rparr>),
       (''started_at'', (plain DateTimeField)\<lparr>mf_null := True, mf_blank := True\<rparr>),
       (''finished_at'', (plain DateTimeField)\<lparr>mf_null := True, mf_blank := True\<rparr>),
       (''continued_from'', (plain (ForeignKey (ExecutionApp, ''pipelinerun'') SET_NULL))\<lparr>
          mf_null := True, mf_blank := True, mf_related_name := Some ''continuations''\<rparr>),
       (''attempt'', (plain PositiveIntegerField)\<lparr>mf_default := DefaultInt 0\<rparr>),
       (''celery_task_id'', (plain (CharField 255))\<lparr>mf_null := True, mf_blank := True\<rparr>),
       (''last_successful_cursor'', (plain (CharField 255))\<lparr>mf_null := True,
          mf_blank := True\<rparr>),
       (''pages_extracted'', (plain PositiveIntegerField)\<lparr>mf_default := DefaultInt 0\<rparr>),
       (''records_extracted'', (plain PositiveIntegerField)\<lparr>mf_default := DefaultInt 0\<rparr>),
       (''records_loaded'', (plain PositiveIntegerField)\<lparr>mf_default := DefaultInt 0\<rparr>),
       (''raw_payload_count'', (plain PositiveIntegerField)\<lparr>mf_default := DefaultInt 0\<rparr>),
       (''error_category'', (plain (CharField 100))\<lparr>mf_null := True, mf_blank := True\<rparr>),
       (''error_message'', (plain TextField)\<lparr>mf_null := True, mf_blank := True\<rparr>),
       (''error_is_retryable'', (plain BooleanField)\<lparr>mf_null := True, mf_blank := True,
          mf_default := DefaultNone\<rparr>)],
     md_ordering = [''-created_at''],
     md_constraints = []\<rparr>"

definition TaskExecution_Step :: "(string \<times> string) list" where
  "TaskExecution_Step = [(''extract'', ''Extract''), (''load'', ''Load''), (''run'', ''Run'')]"

definition TaskExecution_Status :: "(string \<times> string) list" where
  "TaskExecution_Status = [(''pending'', ''Pending''), (''running'', ''Running''),
     (''succeeded'', ''Succeeded''), (''failed'', ''Failed'')]"

definition declared_TaskExecution :: model_decl where
  "declared_TaskExecution = \<lparr>md_app = ExecutionApp, md_name = ''TaskExecution'',
     md_bases = [TimeStamped],
     md_fields = [
       (''id'', (plain UUIDField)\<lparr>mf_primary_key := True, mf_editable := False,
          mf_default := Callable ''uuid.uuid4''\<rparr>),
       (''run'', (plain (ForeignKey (ExecutionApp, ''pipelinerun'') CASCADE))\<lparr>
          mf_related_name := Some ''task_executions''\<rparr>),
       (''step'', (plain (CharField 20))\<lparr>mf_choices := TaskExecution_Step\<rparr>),
       (''status'', (plain (CharField 20))\<lparr>mf_default := DefaultText ''pending'',
          mf_choices := TaskExecution_Status\<rparr>),
       (''attempt'', (plain PositiveIntegerField)\<lparr>mf_default := DefaultInt 1\<rparr>),
       (''started_at'', (plain DateTimeField)\<lparr>mf_null := True, mf_blank := True\<rparr>),
       (''finished_at'', (plain DateTimeField)\<lparr>mf_null := True, mf_blank := True\<rparr>),
       (''error_message'', (plain TextField)\<lparr>mf_null := True, mf_blank := True\<rparr>)],
     md_ordering = [''created_at''],
     md_constraints = []\<rparr>"

subsection \<open>Operator UI\<close>

definition RawPayloadMigrationJob_Status :: "(string \<times> string) list" where
  "RawPayloadMigrationJob_Status = [(''pending'', ''Pending''), (''running'', ''Running''),
     (''succeeded'', ''Succeeded''), (''partially_failed'', ''Partially failed''), (''failed'', ''Failed''),
     (''cancelled'', ''Cancelled'')]"

definition declared_RawPayloadMigrationJob :: model_decl where
  "declared_RawPayloadMigrationJob = \<lparr>md_app = OpsuiApp, md_name = ''RawPayloadMigrationJob'',
     md_bases = [TimeStamped],
     md_fields = [
       (''id'', (plain UUIDField)\<lparr>mf_primary_key := True, mf_editable := False,
          mf_default := Callable ''uuid.uuid4''\<rparr>),
       (''organization'', (plain (ForeignKey (OrgsApp, ''organization'') CASCADE))\<lparr>
          mf_related_name := Some ''raw_payload_migration_jobs''\<rparr>),
       (''initiated_by'', (plain (ForeignKey AUTH_USER_MODEL SET_NULL))\<lparr>mf_null := True,
          mf_blank := True, mf_related_name := Some ''+''\<rparr>),
       (''dry_run'', (plain BooleanField)\<lparr>mf_default := DefaultBool True\<rparr>),
       (''status'', (plain (CharField 20))\<lparr>mf_default := DefaultText ''pending'',
          mf_choices := RawPayloadMigrationJob_Status\<rparr>),
       (''celery_task_id'', (plain (CharField 255))\<lparr>mf_null := True, mf_blank := True\<rparr>),
       (''cancel_requested'', (plain BooleanField)\<lparr>mf_default := DefaultBool False\<rparr>),
       (''started_at'', (plain DateTimeField)\<lparr>mf_null := True, mf_blank := True\<rparr>),
       (''finished_at'', (plain DateTimeField)\<lparr>mf_null := True, mf_blank := True\<rparr>),
       (''records_inspected'', (plain PositiveIntegerField)\<lparr>mf_default := DefaultInt 0\<rparr>),
       (''already_migrated'', (plain PositiveIntegerField)\<lparr>mf_default := DefaultInt 0\<rparr>),
       (''legacy_unprefixed'', (plain PositiveIntegerField)\<lparr>mf_default := DefaultInt 0\<rparr>),
       (''schema_prefixed'', (plain PositiveIntegerField)\<lparr>mf_default := DefaultInt 0\<rparr>),
       (''missing_objects'', (plain PositiveIntegerField)\<lparr>mf_default := DefaultInt 0\<rparr>),
       (''checksum_conflicts'', (plain PositiveIntegerField)\<lparr>mf_default := DefaultInt 0\<rparr>),
       (''ready_for_migration'', (plain PositiveIntegerField)\<lparr>mf_default := DefaultInt 0\<rparr>),
       (''records_migrated'', (plain PositiveIntegerField)\<lparr>mf_default := DefaultInt 0\<rparr>),
       (''records_skipped'', (plain PositiveIntegerField)\<lparr>mf_default := DefaultInt 0\<rparr>),
       (''sample_problem_records'', (plain JSONField)\<lparr>mf_blank := True,
          mf_default := Callable ''list''\<rparr>),
       (''error_message'', (plain TextField)\<lparr>mf_null := True, mf_blank := True\<rparr>)],
     md_ordering = [''-created_at''],
     md_constraints = [\<lparr>uc_name = ''one_active_raw_payload_migration_job_per_org'',
          uc_fields = [''organization''], uc_condition = Some (''status'', [''pending'', ''running''])\<rparr>]\<rparr>"

subsection \<open>Organizations\<close>

definition declared_Organization :: model_decl where
  "declared_Organization = \<lparr>md_app = OrgsApp, md_name = ''Organization'',
     md_bases = [Outside ''TenantMixin'', TimeStamped],
     md_fields = [
       (''name'', plain (CharField 255)),
       (''slug'', (plain (SlugField 50))\<lparr>mf_unique := True\<rparr>),
       (''tenant_uuid'', (plain UUIDField)\<lparr>mf_unique := True, mf_editable := False,
          mf_default := Callable ''uuid.uuid4''\<rparr>)],
     md_ordering = [],
     md_constraints = []\<rparr>"

definition declared_Domain :: model_decl where
  "declared_Domain = \<lparr>md_app = OrgsApp, md_name = ''Domain'',
     md_bases = [Outside ''DomainMixin''],
     md_fields = [],
     md_ordering = [],
     md_constraints = []\<rparr>"

definition Membership_Role :: "(string \<times> string) list" where
  "Membership_Role = [(''owner'', ''Owner''), (''admin'', ''Admin''), (''engineer'', ''Engineer''),
     (''analyst'', ''Analyst'')]"

definition declared_Membership :: model_decl where
  "declared_Membership = \<lparr>md_app = OrgsApp, md_name = ''Membership'',
     md_bases = [TimeStamped],
     md_fields = [
       (''user'', (plain (ForeignKey AUTH_USER_MODEL CASCADE))\<lparr>
          mf_related_name := Some ''memberships''\<rparr>),
       (''organization'', (plain (ForeignKey (OrgsApp, ''organization'') CASCADE))\<lparr>
          mf_related_name := Some ''memberships''\<rparr>),
       (''role'', (plain (CharField 20))\<lparr>mf_default := DefaultText ''engineer'',
          mf_choices := Membership_Role\<rparr>)],
     md_ordering = [],
     md_constraints = [\<lparr>uc_name = ''unique_membership_per_org'',
          uc_fields = [''user'', ''organization''], uc_condition = None\<rparr>]\<rparr>"

subsection \<open>Pipelines\<close>

definition declared_Pipeline :: model_decl where
  "declared_Pipeline = \<lparr>md_app = PipelinesApp, md_name = ''Pipeline'',
     md_bases = [TimeStamped],
     md_fields = [
       (''id'', (plain UUIDField)\<lparr>mf_primary_key := True, mf_editable := False,
          mf_default := Callable ''uuid.uuid4''\<rparr>),
       (''name'', plain (CharField 255)),
       (''source_connection'', (plain (ForeignKey (ConnectionsApp, ''connection'') PROTECT))\<lparr>
          mf_related_name := Some ''pipelines_as_source'',
          mf_limit_choices_to := [(''kind'', ''source'')]\<rparr>),
       (''destination_connection'', (plain (ForeignKey (ConnectionsApp, ''connection'') PROTECT))\<lparr>
          mf_related_name := Some ''pipelines_as_destination'',
          mf_limit_choices_to := [(''kind'', ''destination'')]\<rparr>),
       (''extraction_config'', (plain JSONField)\<lparr>mf_blank := True,
          mf_default := Callable ''dict''\<rparr>),
       (''destination_mapping'', (plain JSONField)\<lparr>mf_blank := True,
          mf_default := Callable ''dict''\<rparr>),
       (''strict_mapping'', (plain BooleanField)\<lparr>mf_default := DefaultBool False\<rparr>),
       (''schedule_cron'', (plain (CharField 100))\<lparr>mf_null := True, mf_blank := True\<rparr>),
       (''is_active'', (plain BooleanField)\<lparr>mf_default := DefaultBool True\<rparr>),
       (''created_by'', (plain (ForeignKey AUTH_USER_MODEL SET_NULL))\<lparr>mf_null := True,
          mf_related_name := Some ''+''\<rparr>)],
     md_ordering = [],
     md_constraints = []\<rparr>"

subsection \<open>Raw payloads\<close>

definition declared_RawPayloadRecord :: model_decl where
  "declared_RawPayloadRecord = \<lparr>md_app = RawstoreApp, md_name = ''RawPayloadRecord'',
     md_bases = [TimeStamped],
     md_fields = [
       (''id'', (plain UUIDField)\<lparr>mf_primary_key := True, mf_editable := False,
          mf_default := Callable ''uuid.uuid4''\<rparr>),
       (''run'', (plain (ForeignKey (ExecutionApp, ''pipelinerun'') CASCADE))\<lparr>
          mf_related_name := Some ''raw_payloads''\<rparr>),
       (''storage_uri'', plain (CharField 1024)),
       (''content_type'', (plain (CharField 100))\<lparr>
          mf_default := DefaultText ''application/json''\<rparr>),
       (''size_bytes'', plain PositiveBigIntegerField),
       (''checksum_sha256'', plain (CharField 64)),
       (''sequence'', plain PositiveIntegerField),
       (''loaded_successfully'', (plain BooleanField)\<lparr>mf_default := DefaultBool False\<rparr>),
       (''cursor_used'', (plain (CharField 255))\<lparr>mf_null := True, mf_blank := True\<rparr>),
       (''next_cursor'', (plain (CharField 255))\<lparr>mf_null := True, mf_blank := True\<rparr>),
       (''item_count'', (plain PositiveIntegerField)\<lparr>mf_default := DefaultInt 0\<rparr>),
       (''source_path'', (plain (CharField 500))\<lparr>mf_blank := True,
          mf_default := DefaultText ''''\<rparr>),
       (''http_status'', (plain PositiveSmallIntegerField)\<lparr>mf_null := True, mf_blank := True\<rparr>)],
     md_ordering = [''sequence'', ''created_at''],
     md_constraints = [\<lparr>uc_name = ''unique_raw_payload_version_per_run'',
          uc_fields = [''run'', ''sequence'', ''checksum_sha256''], uc_condition = None\<rparr>]\<rparr>"

subsection \<open>Secrets\<close>

definition declared_EncryptedSecret :: model_decl where
  "declared_EncryptedSecret = \<lparr>md_app = SecretsApp, md_name = ''EncryptedSecret'',
     md_bases = [TimeStamped],
     md_fields = [
       (''id'', (plain UUIDField)\<lparr>mf_primary_key := True, mf_editable := False,
          mf_default := Callable ''uuid.uuid4''\<rparr>),
       (''ciphertext'', plain BinaryField)],
     md_ordering = [],
     md_constraints = []\<rparr>"

subsection \<open>All of them\<close>

fun declared_models :: "app_label \<Rightarrow> model_decl list" where
  "declared_models AccountsApp = [declared_User]"
| "declared_models AuditingApp = [declared_AuditLog]"
| "declared_models ConnectionsApp = [declared_Connection, declared_Credential, declared_AllowedOutboundHost]"
| "declared_models ExecutionApp = [declared_PipelineRun, declared_TaskExecution]"
| "declared_models OpsuiApp = [declared_RawPayloadMigrationJob]"
| "declared_models OrgsApp = [declared_Organization, declared_Domain, declared_Membership]"
| "declared_models PipelinesApp = [declared_Pipeline]"
| "declared_models RawstoreApp = [declared_RawPayloadRecord]"
| "declared_models SecretsApp = [declared_EncryptedSecret]"
| "declared_models (DjangoApp l) = []"

end
