(* ===== verification/Database.thy ===== *)
theory Database
  imports ModelDecls MigrationJobs Dispatch
begin

text \<open>
  The two kinds of schema of the database, from \<^verbatim>\<open>config/settings/base.py\<close>: the public one with the apps of
  \<^verbatim>\<open>SHARED_APPS\<close> and one for each tenant with those of \<^verbatim>\<open>TENANT_APPS\<close>. Whatever order the migrations
  are run in, as long as it keeps their dependencies, they build the tables that the models declare. The
  unique rules of these tables are then compared with what the operations on the rows keep out.
\<close>

subsection \<open>Settings\<close>

definition SHARED_APPS :: "string list" where
  "SHARED_APPS =
     [''django_tenants'', ''apps.core'', ''apps.orgs'', ''apps.accounts'', ''apps.opsui'', ''django.contrib.admin'',
      ''django.contrib.auth'', ''django.contrib.contenttypes'', ''django.contrib.sessions'',
      ''django.contrib.messages'', ''django.contrib.staticfiles'', ''django_htmx'']"

definition TENANT_APPS :: "string list" where
  "TENANT_APPS =
     [''django.contrib.contenttypes'', ''apps.secrets'', ''apps.connectors'', ''apps.authproviders'',
      ''apps.connections'', ''apps.pipelines'', ''apps.execution'', ''apps.rawstore'', ''apps.auditing'']"

definition INSTALLED_APPS :: "string list" where
  "INSTALLED_APPS = SHARED_APPS @ filter (\<lambda>app. app \<notin> set SHARED_APPS) TENANT_APPS"

text \<open>The name under which an app is installed, as its \<^verbatim>\<open>AppConfig\<close> has it.\<close>

fun app_module :: "app_label \<Rightarrow> string" where
  "app_module AccountsApp = ''apps.accounts''"
| "app_module AuditingApp = ''apps.auditing''"
| "app_module ConnectionsApp = ''apps.connections''"
| "app_module ExecutionApp = ''apps.execution''"
| "app_module OpsuiApp = ''apps.opsui''"
| "app_module OrgsApp = ''apps.orgs''"
| "app_module PipelinesApp = ''apps.pipelines''"
| "app_module RawstoreApp = ''apps.rawstore''"
| "app_module SecretsApp = ''apps.secrets''"
| "app_module (DjangoApp l) = ''django.contrib.'' @ l"

definition own_apps :: "app_label list" where
  "own_apps = [AccountsApp, AuditingApp, ConnectionsApp, ExecutionApp, OpsuiApp, OrgsApp, PipelinesApp, RawstoreApp,
     SecretsApp]"

text \<open>The router of \<^verbatim>\<open>django_tenants\<close> migrates into a schema the apps that its setting names.\<close>

definition in_schema :: "string list \<Rightarrow> app_label \<Rightarrow> bool" where
  "in_schema apps a = (app_module a \<in> set apps)"

definition migrate_schema :: "string list \<Rightarrow> (model_ref \<Rightarrow> bool) \<Rightarrow> migration list \<Rightarrow> schema option" where
  "migrate_schema apps visible plan = run_plan (in_schema apps) visible plan (\<lambda>a. [])"

definition all_migrations :: "migration list" where
  "all_migrations = concat (map migrations_of own_apps)"

text \<open>All migrations, each once, after those it depends on.\<close>

definition valid_plan :: "migration list \<Rightarrow> bool" where
  "valid_plan plan = (distinct (map mg_id plan) \<and> keeps_dependencies {} plan \<and> set plan = set all_migrations)"

text \<open>Every app with models is installed, and no app twice.\<close>

lemma installed_once: "distinct INSTALLED_APPS" "list_all (\<lambda>a. app_module a \<in> set INSTALLED_APPS) own_apps"
  by code_simp+

subsection \<open>Each app by itself\<close>

lemma own_or_outside: "a \<in> set own_apps \<or> (\<exists>l. a = DjangoApp l)"
  by (cases a) (simp_all add: own_apps_def)

lemma for_all_apps:
  assumes "list_all P own_apps" and "\<And>l. P (DjangoApp l)"
  shows "P a"
  using own_or_outside [of a] assms by (auto simp: list_all_iff)

lemma migrations_linked: "linked a (migrations_of a)"
proof (rule for_all_apps [where P = "\<lambda>a. linked a (migrations_of a)"])
  show "list_all (\<lambda>a. linked a (migrations_of a)) own_apps" by code_simp
qed (simp add: linked_def)

definition built :: "app_label \<Rightarrow> tables" where
  "built a = (case build a (operations_of (migrations_of a)) [] of None \<Rightarrow> [] | Some ts \<Rightarrow> ts)"

definition builds_models :: "app_label \<Rightarrow> bool" where
  "builds_models a =
     (case build a (operations_of (migrations_of a)) [] of
        None \<Rightarrow> False | Some ts \<Rightarrow> implement ts (declared_models a))"

lemma accounts_built: "builds_models AccountsApp" by code_simp
lemma auditing_built: "builds_models AuditingApp" by code_simp
lemma connections_built: "builds_models ConnectionsApp" by code_simp
lemma execution_built: "builds_models ExecutionApp" by code_simp
lemma opsui_built: "builds_models OpsuiApp" by code_simp
lemma orgs_built: "builds_models OrgsApp" by code_simp
lemma pipelines_built: "builds_models PipelinesApp" by code_simp
lemma rawstore_built: "builds_models RawstoreApp" by code_simp
lemma secrets_built: "builds_models SecretsApp" by code_simp

lemma every_app_builds_models: "builds_models a"
proof (rule for_all_apps [where P = builds_models])
  show "list_all builds_models own_apps"
    by (simp add: own_apps_def accounts_built auditing_built connections_built execution_built opsui_built
      orgs_built pipelines_built rawstore_built secrets_built)
qed (simp add: builds_models_def operations_of_def implement_def)

lemma build_built: "build a (operations_of (migrations_of a)) [] = Some (built a)"
  and built_models: "implement (built a) (declared_models a)"
  using every_app_builds_models [of a] by (auto simp: builds_models_def built_def split: option.splits)

text \<open>What an app refers to outside of itself is in a list of visible tables, or a migration that it
  depends on has created it in the same schema.\<close>

definition backed :: "string list \<Rightarrow> model_ref list \<Rightarrow> migration \<Rightarrow> model_ref \<Rightarrow> bool" where
  "backed apps visible m r = (r \<in> set visible \<or> in_schema apps (fst r) \<and>
     list_ex (\<lambda>j. mg_id (migrations_of (fst r) ! j) \<in> set (mg_dependencies m) \<and>
        snd r \<in> set (created (operations_of (take (Suc j) (migrations_of (fst r))))))
       [0..<length (migrations_of (fst r))])"

definition app_backed :: "string list \<Rightarrow> model_ref list \<Rightarrow> app_label \<Rightarrow> bool" where
  "app_backed apps visible a = (in_schema apps a \<longrightarrow>
     list_all (\<lambda>m. list_all (backed apps visible m) (cross_refs a (mg_operations m))) (migrations_of a))"

lemma app_backedD:
  assumes "app_backed apps visible a" and "in_schema apps a" and "m \<in> set (migrations_of a)"
    and "r \<in> set (cross_refs a (mg_operations m))"
  shows "r \<in> set visible \<or> in_schema apps (fst r) \<and>
    (\<exists>j < length (migrations_of (fst r)). mg_id (migrations_of (fst r) ! j) \<in> set (mg_dependencies m) \<and>
      snd r \<in> set (created (operations_of (take (Suc j) (migrations_of (fst r))))))"
proof -
  have "backed apps visible m r" using assms by (simp add: app_backed_def list_all_iff)
  then show ?thesis unfolding backed_def list_ex_iff by (metis atLeastLessThan_iff set_upt)
qed

definition auth_tables :: "model_ref list" where
  "auth_tables = [(DjangoApp ''auth'', ''group''), (DjangoApp ''auth'', ''permission'')]"

lemma shared_backed: "app_backed SHARED_APPS auth_tables a"
proof (rule for_all_apps [where P = "app_backed SHARED_APPS auth_tables"])
  show "list_all (app_backed SHARED_APPS auth_tables) own_apps" by code_simp
qed (simp add: app_backed_def)

lemma tenant_backed: "app_backed TENANT_APPS [AUTH_USER_MODEL] a"
proof (rule for_all_apps [where P = "app_backed TENANT_APPS [AUTH_USER_MODEL]"])
  show "list_all (app_backed TENANT_APPS [AUTH_USER_MODEL]) own_apps" by code_simp
qed (simp add: app_backed_def)

interpretation shared: migration_set migrations_of "in_schema SHARED_APPS" "\<lambda>r. r \<in> set auth_tables" built
  by unfold_locales (rule migrations_linked, rule build_built, rule app_backedD [OF shared_backed])

interpretation tenants: migration_set migrations_of "in_schema TENANT_APPS" "\<lambda>r. r \<in> set [AUTH_USER_MODEL]" built
  by unfold_locales (rule migrations_linked, rule build_built, rule app_backedD [OF tenant_backed])

subsection \<open>The schemas\<close>

definition schema_of :: "string list \<Rightarrow> schema" where
  "schema_of apps = (\<lambda>a. if in_schema apps a then built a else [])"

lemma in_all_migrations: "m \<in> set all_migrations \<longleftrightarrow> m \<in> set (migrations_of (mg_app m))"
proof
  assume "m \<in> set all_migrations"
  then obtain a where "m \<in> set (migrations_of a)" by (auto simp: all_migrations_def)
  moreover from this migrations_linked [of a] have "mg_app m = a" by (simp add: linked_def list_all_iff)
  ultimately show "m \<in> set (migrations_of (mg_app m))" by simp
next
  assume m: "m \<in> set (migrations_of (mg_app m))"
  then have "mg_app m \<in> set own_apps" using own_or_outside [of "mg_app m"] by auto
  with m show "m \<in> set all_migrations" by (auto simp: all_migrations_def)
qed

lemma valid_planD:
  assumes "valid_plan plan"
  shows "keeps_dependencies {} plan" "distinct (map mg_id plan)"
    "m \<in> set plan \<longleftrightarrow> m \<in> set (migrations_of (mg_app m))"
  using assms in_all_migrations by (auto simp: valid_plan_def)

lemma public_schema:
  assumes "valid_plan plan" and "\<And>r. r \<in> set auth_tables \<Longrightarrow> visible r"
  shows "migrate_schema SHARED_APPS visible plan = Some (schema_of SHARED_APPS)"
  using run_plan_mono [OF shared.any_plan [OF valid_planD [OF assms(1)]]] assms(2)
  by (simp add: migrate_schema_def schema_of_def)

lemma tenant_schema:
  assumes "valid_plan plan" and "visible AUTH_USER_MODEL"
  shows "migrate_schema TENANT_APPS visible plan = Some (schema_of TENANT_APPS)"
  using run_plan_mono [OF tenants.any_plan [OF valid_planD [OF assms(1)]]] assms(2)
  by (simp add: migrate_schema_def schema_of_def)

lemma built_outside: "built (DjangoApp l) = []"
  by (simp add: built_def operations_of_def)

lemma schema_models: "implement (schema_of apps a) (if in_schema apps a then declared_models a else [])"
  using built_models [of a] by (simp add: schema_of_def implement_def)

text \<open>Which tables a schema has follows from the operations that create them.\<close>

definition created_in :: "string list \<Rightarrow> model_ref \<Rightarrow> bool" where
  "created_in apps r = (in_schema apps (fst r) \<and> snd r \<in> set (created (operations_of (migrations_of (fst r)))))"

lemma has_table_created: "has_table (schema_of apps) r = created_in apps r"
  using build_tables [OF build_built [of "fst r"]]
  by (cases "in_schema apps (fst r)") (simp_all add: has_table_def created_in_def schema_of_def)

lemma user_is_shared: "has_table (schema_of SHARED_APPS) AUTH_USER_MODEL"
  unfolding has_table_created by code_simp

text \<open>The public schema is migrated first. \<open>django\<close> says which tables of Django's own apps exist.\<close>

lemma both_schemas:
  assumes "valid_plan plan" and "list_all django auth_tables"
  shows "migrate_schema SHARED_APPS django plan = Some (schema_of SHARED_APPS)"
    and "migrate_schema TENANT_APPS (\<lambda>r. django r \<or> has_table (schema_of SHARED_APPS) r) plan =
      Some (schema_of TENANT_APPS)"
  using public_schema [OF assms(1), of django] tenant_schema [OF assms(1)] assms(2) user_is_shared
  by (auto simp: list_all_iff)

lemma schemas_given:
  assumes "valid_plan plan" and "list_all django auth_tables"
    and "migrate_schema SHARED_APPS django plan = Some pub"
    and "migrate_schema TENANT_APPS (\<lambda>r. django r \<or> has_table pub r) plan = Some tenant"
  shows "pub = schema_of SHARED_APPS" and "tenant = schema_of TENANT_APPS"
proof -
  show "pub = schema_of SHARED_APPS" using both_schemas(1) [OF assms(1,2)] assms(3) by simp
  with both_schemas(2) [OF assms(1,2)] assms(4) show "tenant = schema_of TENANT_APPS" by simp
qed

definition example_plan :: "migration list" where
  "example_plan =
     [accounts_0001, secrets_0001, orgs_0001, auditing_0001, connections_0001, pipelines_0001, orgs_0002, opsui_0001,
      execution_0001, rawstore_0001, connections_0002, execution_0002, pipelines_0002, rawstore_0002, rawstore_0003,
      execution_0003, rawstore_0004]"

lemma example_plan_valid: "valid_plan example_plan"
proof -
  have "distinct (map mg_id example_plan)" by code_simp
  moreover have "keeps_dependencies {} example_plan" by code_simp
  moreover have "set example_plan = set all_migrations"
    by (auto simp: example_plan_def all_migrations_def own_apps_def)
  ultimately show ?thesis by (simp add: valid_plan_def)
qed

text \<open>C8: In whatever order the migrations run, as long as each comes after those it depends on, they all
  apply, and the tables they leave are exactly those that \<^verbatim>\<open>models.py\<close> declares: of the shared apps in the
  public schema, of the tenant apps in the schema of each tenant, and of no other app.\<close>

theorem migrations_build_the_models:
  assumes "valid_plan plan" and "list_all django auth_tables"
  shows "\<exists>pub tenant. migrate_schema SHARED_APPS django plan = Some pub \<and>
    migrate_schema TENANT_APPS (\<lambda>r. django r \<or> has_table pub r) plan = Some tenant \<and>
    (\<forall>a. implement (pub a) (if in_schema SHARED_APPS a then declared_models a else []) \<and>
         implement (tenant a) (if in_schema TENANT_APPS a then declared_models a else []))"
  using both_schemas [OF assms] schema_models by blast

lemma migrations_build_the_models_witness:
  "valid_plan example_plan \<and>
    (\<exists>pub. migrate_schema SHARED_APPS (\<lambda>r. r \<in> set auth_tables) example_plan = Some pub \<and>
       implement (pub OrgsApp) [declared_Organization, declared_Domain, declared_Membership])"
proof -
  have "in_schema SHARED_APPS OrgsApp" by code_simp
  with migrations_build_the_models [OF example_plan_valid, of "\<lambda>r. r \<in> set auth_tables"] example_plan_valid
  show ?thesis by (fastforce simp: list_all_iff dest: spec [of _ OrgsApp])
qed

subsection \<open>References\<close>

definition references :: "tables \<Rightarrow> model_ref list" where
  "references ts = concat (map (\<lambda>(n, t). refs_of (tb_fields t)) ts)"

definition columns :: "tables \<Rightarrow> model_field list" where
  "columns ts = concat (map (\<lambda>(n, t). map snd (tb_fields t)) ts)"

fun deletion_of :: "field_type \<Rightarrow> (model_ref \<times> deletion) option" where
  "deletion_of (ForeignKey r d) = Some (r, d)"
| "deletion_of (OneToOneField r d) = Some (r, d)"
| "deletion_of t = None"

text \<open>A row with this column outlives the row of \<open>r\<close> it refers to, and the column can be emptied.\<close>

definition outlives :: "model_ref \<Rightarrow> model_field \<Rightarrow> bool" where
  "outlives r f = (case deletion_of (mf_type f) of
     None \<Rightarrow> True | Some (r', d) \<Rightarrow> r' \<noteq> r \<or> d = SET_NULL \<and> mf_null f)"

definition public_closed :: "app_label \<Rightarrow> bool" where
  "public_closed a = (list_all (\<lambda>r. created_in SHARED_APPS r \<or> r \<in> set auth_tables)
      (references (schema_of SHARED_APPS a)) \<and>
      (migrations_of a = [] \<or> \<not> in_schema SHARED_APPS a \<or> \<not> in_schema TENANT_APPS a))"

definition tenant_closed :: "app_label \<Rightarrow> bool" where
  "tenant_closed a = (list_all (\<lambda>r. created_in TENANT_APPS r \<or> r = AUTH_USER_MODEL)
      (references (schema_of TENANT_APPS a)) \<and> list_all (outlives AUTH_USER_MODEL) (columns (schema_of TENANT_APPS a)))"

lemma own_apps_closed_public: "list_all public_closed own_apps" by code_simp
lemma own_apps_closed_tenant: "list_all tenant_closed own_apps" by code_simp

lemma every_app_closed: "public_closed a" "tenant_closed a"
proof -
  show "public_closed a"
  proof (rule for_all_apps [where P = public_closed])
    show "list_all public_closed own_apps" by (rule own_apps_closed_public)
  qed (simp add: public_closed_def schema_of_def built_outside references_def)
  show "tenant_closed a"
  proof (rule for_all_apps [where P = tenant_closed])
    show "list_all tenant_closed own_apps" by (rule own_apps_closed_tenant)
  qed (simp add: tenant_closed_def schema_of_def built_outside references_def columns_def)
qed

text \<open>\<^verbatim>\<open>django.contrib.contenttypes\<close> is in both lists, as the settings explain: each schema has its own copy of
  that table. Of the program's own apps none is in both.\<close>

definition kept_apart :: "app_label \<Rightarrow> bool" where
  "kept_apart a = (\<not> (in_schema SHARED_APPS a \<and> in_schema TENANT_APPS a))"

lemma own_apps_kept_apart: "list_all kept_apart own_apps" by code_simp

text \<open>C22: None of the program's own apps is both in the public schema and in those of the tenants. After any valid
  run of the migrations a public table refers only to public tables and to those of Django's authentication, a
  table of a tenant refers to nothing outside of its schema but the users, and a row of a tenant outlives the
  user it refers to: the column is emptied.\<close>

theorem schemas_are_separate:
  assumes "valid_plan plan" and "list_all django auth_tables"
    and "migrate_schema SHARED_APPS django plan = Some pub"
    and "migrate_schema TENANT_APPS (\<lambda>r. django r \<or> has_table pub r) plan = Some tenant"
  shows "(own_app a \<longrightarrow> \<not> (in_schema SHARED_APPS a \<and> in_schema TENANT_APPS a)) \<and>
    (pub a = [] \<or> tenant a = []) \<and>
    list_all (\<lambda>r. has_table pub r \<or> r \<in> set auth_tables) (references (pub a)) \<and>
    list_all (\<lambda>r. has_table tenant r \<or> r = AUTH_USER_MODEL \<and> has_table pub r) (references (tenant a)) \<and>
    list_all (outlives AUTH_USER_MODEL) (columns (tenant a))"
proof -
  have "built a = []" if "migrations_of a = []" using that by (simp add: built_def operations_of_def)
  then have "schema_of SHARED_APPS a = [] \<or> schema_of TENANT_APPS a = []"
    using every_app_closed(1) [of a] by (auto simp: public_closed_def schema_of_def)
  moreover have "own_app a \<longrightarrow> kept_apart a"
    using own_or_outside [of a] own_apps_kept_apart by (auto simp: own_app_def list_all_iff)
  ultimately show ?thesis using every_app_closed [of a] user_is_shared
    unfolding schemas_given [OF assms] public_closed_def tenant_closed_def list_all_iff has_table_created kept_apart_def
    by blast
qed

lemma schemas_are_separate_witness:
  "list_all (outlives AUTH_USER_MODEL) (columns (schema_of TENANT_APPS AuditingApp)) \<and>
   list_all (\<lambda>r. has_table (schema_of SHARED_APPS) r \<or> r \<in> set auth_tables) (references (schema_of SHARED_APPS OpsuiApp))"
proof -
  have d: "list_all (\<lambda>r. True) auth_tables" by (simp add: list_all_iff)
  note both = both_schemas [OF example_plan_valid d]
  from schemas_are_separate [OF example_plan_valid d both, of AuditingApp]
    schemas_are_separate [OF example_plan_valid d both, of OpsuiApp]
  show ?thesis by blast
qed

subsection \<open>Unique rows\<close>

text \<open>What a column of a row holds; a foreign key holds the identifier of its row.\<close>

datatype cell = NullCell | TextCell string | IntCell int | BoolCell bool | TimeCell timestamp | ProblemsCell "problem_entry list"

type_synonym cells = "(string \<times> cell) list"

definition cell_of :: "cells \<Rightarrow> string \<Rightarrow> cell" where
  "cell_of v n = (case map_of v n of None \<Rightarrow> NullCell | Some c \<Rightarrow> c)"

definition nullable :: "('a \<Rightarrow> cell) \<Rightarrow> 'a option \<Rightarrow> cell" where
  "nullable f x = (case x of None \<Rightarrow> NullCell | Some a \<Rightarrow> f a)"

text \<open>PostgreSQL refuses a row when another one has the same values in the columns of a unique rule: a column
  declared \<^verbatim>\<open>unique\<close>, a primary key, a one-to-one column, or a \<^verbatim>\<open>UniqueConstraint\<close>, which
  with a condition counts only the rows that fulfil it. Null is the same as nothing.\<close>

definition unique_rules :: "table \<Rightarrow> (string list \<times> (string \<times> string list) option) list" where
  "unique_rules t =
     map (\<lambda>(n, f). ([n], None)) (filter (\<lambda>(n, f). mf_unique f \<or> mf_primary_key f \<or>
        (case mf_type f of OneToOneField r d \<Rightarrow> True | _ \<Rightarrow> False)) (tb_fields t)) @
     map (\<lambda>c. (uc_fields c, uc_condition c)) (tb_constraints t)"

definition covered :: "(string \<times> string list) option \<Rightarrow> cells \<Rightarrow> bool" where
  "covered cond v = (case cond of None \<Rightarrow> True | Some (n, vs) \<Rightarrow> cell_of v n \<in> TextCell ` set vs)"

definition clash :: "string list \<times> (string \<times> string list) option \<Rightarrow> cells \<Rightarrow> cells \<Rightarrow> bool" where
  "clash c v v' = (covered (snd c) v \<and> covered (snd c) v' \<and>
     list_all (\<lambda>n. cell_of v n = cell_of v' n \<and> cell_of v n \<noteq> NullCell) (fst c))"

text \<open>Does the migrated table refuse a row beside others?\<close>

definition rules_of :: "schema \<Rightarrow> model_ref \<Rightarrow> (string list \<times> (string \<times> string list) option) list" where
  "rules_of s r = (case map_of (s (fst r)) (snd r) of None \<Rightarrow> [] | Some t \<Rightarrow> unique_rules t)"

definition refuses :: "schema \<Rightarrow> model_ref \<Rightarrow> cells \<Rightarrow> cells list \<Rightarrow> bool" where
  "refuses s r v rows = list_ex (\<lambda>c. list_ex (clash c v) rows) (rules_of s r)"

text \<open>The rows of the models as the columns hold them. \<open>made\<close> says when a row was created, which the
  models of rows leave out.\<close>

fun trigger_text :: "trigger \<Rightarrow> string" where
  "trigger_text MANUAL = ''manual''"
| "trigger_text SCHEDULED = ''scheduled''"

definition run_cells :: "(uuid \<Rightarrow> timestamp) \<Rightarrow> pipeline_run \<Rightarrow> cells" where
  "run_cells made r =
     [(''id'', TextCell (pr_id r)), (''pipeline'', TextCell (pr_pipeline_id r)),
      (''status'', TextCell (status_text (pr_status r))), (''trigger'', TextCell (trigger_text (pr_trigger r))),
      (''idempotency_key'', TextCell (pr_idempotency_key r)), (''started_at'', nullable TimeCell (pr_started_at r)),
      (''finished_at'', nullable TimeCell (pr_finished_at r)),
      (''continued_from'', nullable TextCell (pr_continued_from r)), (''attempt'', IntCell (int (pr_attempt r))),
      (''celery_task_id'', nullable TextCell (pr_celery_task_id r)),
      (''last_successful_cursor'', nullable TextCell (pr_last_successful_cursor r)),
      (''pages_extracted'', IntCell (int (pr_pages_extracted r))),
      (''records_extracted'', IntCell (int (pr_records_extracted r))),
      (''records_loaded'', IntCell (int (pr_records_loaded r))),
      (''raw_payload_count'', IntCell (int (pr_raw_payload_count r))),
      (''error_category'', nullable TextCell (pr_error_category r)),
      (''error_message'', nullable TextCell (pr_error_message r)),
      (''error_is_retryable'', nullable BoolCell (pr_error_is_retryable r)),
      (''created_at'', TimeCell (made (pr_id r))), (''updated_at'', TimeCell (pr_updated_at r))]"

definition raw_cells :: "(uuid \<Rightarrow> timestamp) \<Rightarrow> raw_payload_record \<Rightarrow> cells" where
  "raw_cells made r =
     [(''id'', TextCell (rp_id r)), (''run'', TextCell (rp_run r)), (''storage_uri'', TextCell (rp_storage_uri r)),
      (''content_type'', TextCell (rp_content_type r)), (''size_bytes'', IntCell (int (rp_size_bytes r))),
      (''checksum_sha256'', TextCell (rp_checksum r)), (''sequence'', IntCell (int (rp_sequence r))),
      (''loaded_successfully'', BoolCell (rp_loaded r)), (''cursor_used'', nullable TextCell (rp_cursor_used r)),
      (''next_cursor'', nullable TextCell (rp_next_cursor r)), (''item_count'', IntCell (int (rp_item_count r))),
      (''source_path'', TextCell (rp_source_path r)), (''http_status'', nullable IntCell (rp_http_status r)),
      (''created_at'', TimeCell (made (rp_id r))), (''updated_at'', TimeCell (rp_updated_at r))]"

fun job_status_text :: "job_status \<Rightarrow> string" where
  "job_status_text JPENDING = ''pending''"
| "job_status_text JRUNNING = ''running''"
| "job_status_text JSUCCEEDED = ''succeeded''"
| "job_status_text JPARTIALLY_FAILED = ''partially_failed''"
| "job_status_text JFAILED = ''failed''"
| "job_status_text JCANCELLED = ''cancelled''"

definition job_cells :: "(uuid \<Rightarrow> timestamp) \<Rightarrow> migration_job \<Rightarrow> cells" where
  "job_cells made j = (let r = mj_result j in
     [(''id'', TextCell (mj_id j)), (''organization'', IntCell (mj_organization j)),
      (''initiated_by'', nullable IntCell (mj_initiated_by j)), (''dry_run'', BoolCell (mj_dry_run j)),
      (''status'', TextCell (job_status_text (mj_status j))),
      (''celery_task_id'', nullable TextCell (mj_celery_task_id j)),
      (''cancel_requested'', BoolCell (mj_cancel_requested j)), (''started_at'', nullable TimeCell (mj_started_at j)),
      (''finished_at'', nullable TimeCell (mj_finished_at j)), (''records_inspected'', IntCell (int (mr_inspected r))),
      (''already_migrated'', IntCell (int (mr_already r))), (''legacy_unprefixed'', IntCell (int (mr_legacy r))),
      (''schema_prefixed'', IntCell (int (mr_schema_prefixed r))), (''missing_objects'', IntCell (int (mr_missing r))),
      (''checksum_conflicts'', IntCell (int (mr_conflicts r))), (''ready_for_migration'', IntCell (int (mr_ready r))),
      (''records_migrated'', IntCell (int (mr_migrated r))), (''records_skipped'', IntCell (int (mr_skipped r))),
      (''sample_problem_records'', ProblemsCell (mr_problems r)),
      (''error_message'', nullable TextCell (mj_error_message j)), (''created_at'', TimeCell (made (mj_id j))),
      (''updated_at'', TimeCell (mj_updated_at j))])"

abbreviation (input) run_table :: model_ref where "run_table \<equiv> (ExecutionApp, ''pipelinerun'')"
abbreviation (input) raw_table :: model_ref where "raw_table \<equiv> (RawstoreApp, ''rawpayloadrecord'')"
abbreviation (input) job_table :: model_ref where "job_table \<equiv> (OpsuiApp, ''rawpayloadmigrationjob'')"

lemma run_rules: "rules_of (schema_of TENANT_APPS) run_table = [([''id''], None), ([''idempotency_key''], None)]"
  by code_simp

lemma raw_rules:
  "rules_of (schema_of TENANT_APPS) raw_table = [([''id''], None), ([''run'', ''sequence'', ''checksum_sha256''], None)]"
  by code_simp

lemma job_rules:
  "rules_of (schema_of SHARED_APPS) job_table =
     [([''id''], None), ([''organization''], Some (''status'', [''pending'', ''running'']))]"
  by code_simp

text \<open>The cells of the columns that the rules name.\<close>

named_theorems cells

lemma run_cells_ruled [cells]:
  "cell_of (run_cells made r) ''id'' = TextCell (pr_id r)"
  "cell_of (run_cells made r) ''idempotency_key'' = TextCell (pr_idempotency_key r)"
  by (simp_all add: cell_of_def run_cells_def)

lemma raw_cells_ruled [cells]:
  "cell_of (raw_cells made p) ''id'' = TextCell (rp_id p)"
  "cell_of (raw_cells made p) ''run'' = TextCell (rp_run p)"
  "cell_of (raw_cells made p) ''sequence'' = IntCell (int (rp_sequence p))"
  "cell_of (raw_cells made p) ''checksum_sha256'' = TextCell (rp_checksum p)"
  by (simp_all add: cell_of_def raw_cells_def)

lemma job_cells_ruled [cells]:
  "cell_of (job_cells made j) ''id'' = TextCell (mj_id j)"
  "cell_of (job_cells made j) ''organization'' = IntCell (mj_organization j)"
  "cell_of (job_cells made j) ''status'' = TextCell (job_status_text (mj_status j))"
  by (simp_all add: cell_of_def job_cells_def Let_def)

lemma active_text: "job_status_text s \<in> {''pending'', ''running''} \<longleftrightarrow> job_active s"
  by (cases s) (simp_all add: job_active_def)

lemma run_refused:
  "refuses (schema_of TENANT_APPS) run_table (run_cells made r) (map (run_cells made) rs) \<longleftrightarrow>
     pr_id r \<in> pr_id ` set rs \<or> pr_idempotency_key r \<in> pr_idempotency_key ` set rs"
  by (auto simp: refuses_def run_rules clash_def covered_def cells list_ex_iff)

lemma raw_refused:
  "refuses (schema_of TENANT_APPS) raw_table (raw_cells made p) (map (raw_cells made) ps) \<longleftrightarrow>
     rp_id p \<in> rp_id ` set ps \<or> (\<exists>r \<in> set ps. rp_run r = rp_run p \<and> rp_sequence r = rp_sequence p \<and>
       rp_checksum r = rp_checksum p)"
  by (auto simp: refuses_def raw_rules clash_def covered_def cells list_ex_iff) metis+

lemma job_refused:
  "refuses (schema_of SHARED_APPS) job_table (job_cells made j) (map (job_cells made) js) \<longleftrightarrow>
     mj_id j \<in> mj_id ` set js \<or>
     job_active (mj_status j) \<and> (\<exists>r \<in> set js. mj_organization r = mj_organization j \<and> job_active (mj_status r))"
  using active_text [of "mj_status j"] active_text
  by (auto simp: refuses_def job_rules clash_def covered_def cells list_ex_iff image_iff)

text \<open>C23: The unique rules of the migrated tables refuse exactly the rows that the operations keep out: a run
  beside those of a tenant exactly when one of them has its identifier or \<^verbatim>\<open>get_or_create\<close> finds its
  idempotency key; a raw payload record exactly when its identifier is taken or \<^verbatim>\<open>get_or_create\<close> finds that
  version of the page; an inserted or updated migration job exactly when it would be a second active one of its
  organization, and the insertion of a job with a new identifier when \<^verbatim>\<open>create\<close> raises the
  \<^verbatim>\<open>IntegrityError\<close>.\<close>

theorem tables_refuse_exactly:
  assumes "valid_plan plan" and "list_all django auth_tables"
    and "migrate_schema SHARED_APPS django plan = Some pub"
    and "migrate_schema TENANT_APPS (\<lambda>r. django r \<or> has_table pub r) plan = Some tenant"
    and "ids (pb_drawn p) \<notin> mj_id ` set (pb_jobs p)"
  shows "(refuses tenant run_table (run_cells made run) (map (run_cells made) (w_runs w)) \<longleftrightarrow>
      get_run w (pr_id run) \<noteq> None \<or> find_key (pr_idempotency_key run) w \<noteq> None) \<and>
    (refuses tenant raw_table (raw_cells made raw) (map (raw_cells made) (w_raw w)) \<longleftrightarrow>
      rp_id raw \<in> rp_id ` set (w_raw w) \<or> find_raw (rp_run raw) (rp_sequence raw) (rp_checksum raw) w \<noteq> None) \<and>
    (refuses pub job_table (job_cells made job)
        (map (job_cells made) (filter (\<lambda>r. mj_id r \<noteq> mj_id job) (pb_jobs p))) \<longleftrightarrow>
      violates_one_active job (pb_jobs p)) \<and>
    (refuses pub job_table (job_cells made (fresh_job ids p org u dry)) (map (job_cells made) (pb_jobs p)) \<longleftrightarrow>
      create_job ids org u dry p = Inl integrity_error)"
proof (intro conjI)
  note given = schemas_given [OF assms(1-4)]
  show "refuses tenant run_table (run_cells made run) (map (run_cells made) (w_runs w)) \<longleftrightarrow>
      get_run w (pr_id run) \<noteq> None \<or> find_key (pr_idempotency_key run) w \<noteq> None"
    unfolding given run_refused by (simp add: get_run_def find_key_def find_row_None)
  show "refuses tenant raw_table (raw_cells made raw) (map (raw_cells made) (w_raw w)) \<longleftrightarrow>
      rp_id raw \<in> rp_id ` set (w_raw w) \<or> find_raw (rp_run raw) (rp_sequence raw) (rp_checksum raw) w \<noteq> None"
    unfolding given raw_refused by (auto simp: find_raw_def find_None_iff)
  show "refuses pub job_table (job_cells made job)
        (map (job_cells made) (filter (\<lambda>r. mj_id r \<noteq> mj_id job) (pb_jobs p))) \<longleftrightarrow>
      violates_one_active job (pb_jobs p)"
    unfolding given job_refused violates_iff by auto
  have "refuses pub job_table (job_cells made (fresh_job ids p org u dry)) (map (job_cells made) (pb_jobs p)) \<longleftrightarrow>
      violates_one_active (fresh_job ids p org u dry) (pb_jobs p)"
    unfolding given job_refused violates_iff using assms(5) by (simp add: fresh_job_def image_iff) metis
  then show "refuses pub job_table (job_cells made (fresh_job ids p org u dry)) (map (job_cells made) (pb_jobs p)) \<longleftrightarrow>
      create_job ids org u dry p = Inl integrity_error"
    by (simp add: create_job_def fresh_job_def [symmetric] Let_def)
qed

definition example_ids :: "nat \<Rightarrow> uuid" where
  "example_ids n = replicate (Suc n) CHR ''j''"

definition example_public :: public where
  "example_public = with_job
     (fresh_job example_ids \<lparr>pb_orgs = [], pb_memberships = [], pb_jobs = [], pb_clock = 0, pb_drawn = 0, pb_queue = []\<rparr>
        1 None True)
     \<lparr>pb_orgs = [], pb_memberships = [], pb_jobs = [], pb_clock = 0, pb_drawn = 0, pb_queue = []\<rparr>"

lemma tables_refuse_exactly_witness:
  "example_ids (pb_drawn example_public) \<notin> mj_id ` set (pb_jobs example_public) \<and>
   refuses (schema_of SHARED_APPS) job_table (job_cells (\<lambda>i. 0) (fresh_job example_ids example_public 1 None False))
     (map (job_cells (\<lambda>i. 0)) (pb_jobs example_public)) \<and>
   \<not> refuses (schema_of SHARED_APPS) job_table (job_cells (\<lambda>i. 0) (fresh_job example_ids example_public 2 None False))
     (map (job_cells (\<lambda>i. 0)) (pb_jobs example_public)) \<and>
   refuses (schema_of TENANT_APPS) run_table (run_cells (\<lambda>i. 0) (example_run\<lparr>pr_id := ''r2''\<rparr>))
     (map (run_cells (\<lambda>i. 0)) (w_runs example_world))"
proof -
  have d: "list_all (\<lambda>r. True) auth_tables" by (simp add: list_all_iff)
  have new: "example_ids (pb_drawn example_public) \<notin> mj_id ` set (pb_jobs example_public)" by code_simp
  have jobs: "create_job example_ids 1 None False example_public = Inl integrity_error"
    "create_job example_ids 2 None False example_public \<noteq> Inl integrity_error"
    by (simp_all add: create_job_def Let_def violates_one_active_def active_job_of_def job_active_def example_public_def
      with_job_def fresh_job_def example_ids_def)
  have "find_key (pr_idempotency_key (example_run\<lparr>pr_id := ''r2''\<rparr>)) example_world \<noteq> None"
    by (simp add: find_key_def find_row_def example_world_def)
  with new jobs tables_refuse_exactly [where ids = example_ids and p = example_public, OF example_plan_valid d
      both_schemas [OF example_plan_valid d] new]
  show ?thesis by blast
qed

end
