(* ===== verification/Spec2Isabelle.thy ===== *)
theory Spec2Isabelle
  imports Continuation Concurrency Links Backfills Deployment Registries Database
begin

text \<open>
  A model of DataLake, a multi-tenant platform that copies records from REST sources into SQL Server
  tables, keeps every response it was given, and has a small web tool for its operators.

  \<^bold>\<open>The program.\<close> A tenant's pipeline is triggered from the command line or continued from the web
  (\<^verbatim>\<open>apps/execution/dispatch.py\<close>), which writes a pending run and gives its identifier to the broker. A
  Celery worker (\<^verbatim>\<open>apps/execution/tasks.py\<close>) claims the run (\<^verbatim>\<open>claims.py\<close>), fetches the source page by page
  (\<^verbatim>\<open>apps/connectors/sources/rest_api.py\<close>) with a token from an authentication provider
  (\<^verbatim>\<open>apps/authproviders\<close>), each request through the outbound policy (\<^verbatim>\<open>apps/core/outbound_http.py\<close>); each
  page is stored untouched (\<^verbatim>\<open>apps/rawstore\<close>), mapped (\<^verbatim>\<open>apps/pipelines/mapping.py\<close>) and loaded in one
  transaction (\<^verbatim>\<open>apps/connectors/destinations/sqlserver.py\<close>), and the run's row tells how far it came
  (\<^verbatim>\<open>orchestration.py\<close>). Objects stored under the keys of earlier versions are moved by migration jobs
  (\<^verbatim>\<open>apps/rawstore/migration.py\<close>, \<^verbatim>\<open>apps/opsui\<close>).

  \<^bold>\<open>Theories, in the order of their use.\<close>
  \<^item> \<open>Prelude\<close>, \<open>Values\<close>: text operations of Python, results as sums, integers and their texts, JSON.
  \<^item> \<open>Errors\<close> (\<^verbatim>\<open>core/exceptions.py\<close>), \<open>Mapping_Paths\<close> (\<^verbatim>\<open>core/paths.py\<close>, \<^verbatim>\<open>pipelines/mapping.py\<close>), \<open>Redaction\<close>
    (\<^verbatim>\<open>core/redaction.py\<close>; the patterns with the leftmost and greedy semantics of \<^verbatim>\<open>re.sub\<close>).
  \<^item> \<open>Urls\<close>, \<open>Outbound\<close>: \<^verbatim>\<open>urllib.parse\<close> and \<^verbatim>\<open>ipaddress\<close> as far as used, and the outbound policy; \<open>Deployment\<close>:
    the typed environment and the settings of the policy.
  \<^item> \<open>TokenSupport\<close>, \<open>AuthProviders\<close>: tokens and the five providers; the locale \<open>auth_interface\<close>.
  \<^item> \<open>RestApi\<close>: the source. Its generator is a state machine, \<open>fetch_next\<close> one resumption of it; the locale
    \<open>page_source\<close> is what the orchestration needs of any source.
  \<^item> \<open>SqlServer\<close>: the destination and the locale \<open>destination\<close>.
  \<^item> \<open>Models\<close>: the rows of a tenant's schema and the record \<open>world\<close> of its tables; \<open>S3Store\<close>: the store of raw
    payloads; \<open>Secrets\<close>: encrypted secrets and credentials, the locale \<open>secrets_interface\<close>.
  \<^item> \<open>Claims\<close>: claiming and the transitions of a run's status, the locale \<open>run_claims\<close>; \<open>Orchestration\<close>: one
    invocation of \<^verbatim>\<open>run_pipeline\<close>; \<open>Dispatch\<close>, \<open>Tasks\<close>: triggers, the task with its retries and back-off.
  \<^item> \<open>ErrorFlow\<close>: which errors a run can end with, by a locale over classes of errors that is interpreted twice.
  \<^item> \<open>Continuation\<close>: a run that met its page limit together with the run that continues it.
  \<^item> \<open>Concurrency\<close>: any number of workers on the runs of a tenant, as steps of an abstract system, and the
    refinement that an invocation of \<^verbatim>\<open>run_pipeline\<close> is a sequence of such steps.
  \<^item> \<open>Migration\<close>: the pass over the raw payload records; \<open>MigrationJobs\<close>: jobs, their lifecycle and their task,
    among other processes that commit in between; \<open>OpsUI\<close>: permissions, audit trail and views; \<open>Routing\<close>: paths
    and the two sites; \<open>Links\<close>: addresses, and what follows a redirect; \<open>Backfills\<close>: the migrations of the database that move data.
  \<^item> \<open>Registries\<close>: the registries as the imports fill them, and the factories of the stores.
  \<^item> \<open>Schema\<close>: tables, the operations of migrations and plans of migrations, with the locale \<open>migration_set\<close>;
    \<open>SchemaMigrations\<close>, \<open>ModelDecls\<close>: the migration files and the classes of \<^verbatim>\<open>models.py\<close> as values; \<open>Database\<close>:
    the public schema and that of a tenant, for both of which the locale is interpreted.

  \<^bold>\<open>State and operations.\<close> A class with fields is a record, an enumeration a datatype, a table a list of rows
  in the order of insertion. An operation that changes tables, storage or network takes them and
  returns them; an exception is a value of \<open>exn\<close> in the left of a sum, either of the program's own class or of
  one of Python and its libraries. A write by \<^verbatim>\<open>save(update_fields=...)\<close> is a function that copies the named
  fields of the object in memory to the row, so that what a stale object does and does not overwrite is
  visible. Names are those of the source, without a leading underscore.

  \<^bold>\<open>Parameters.\<close> Code that is not of this repository is an argument: the HTTP library (\<open>http_lib\<close>), the
  resolver, SQLAlchemy (\<open>sql_lib\<close>), boto3 (\<open>s3_lib\<close>), Fernet, the generator of identifiers, and the middleware
  that finds a tenant by domain. What properties need of them is in named hypotheses: an S3 client
  keeps the laws \<open>s3_laws\<close> (an object is there after a put, a create-only put never overwrites, a put that
  raises may or may not have stored its body), an HTTP client that follows no redirects sends one request per
  call (\<open>single_exchange\<close>), decryption inverts encryption, identifiers are drawn injectively; each is shown to be
  satisfiable by a concrete library.
  Other processes between the transactions of a migration job are a function \<open>others\<close> of which only
  \<open>transactions\<close> is assumed: whatever it does is a sequence of transactions of these models. In \<open>Concurrency\<close> a
  step of a worker (\<open>worker_step\<close>) may be any claim, also of a task that the broker delivered again while its first
  worker lives. What needs the broker to give a task to one worker at a time is stated for \<open>brokered_steps\<close>,
  which name that condition; \<open>second_delivery_overwrites\<close> shows what happens without it. The query that claims
  a run joins its pipeline and the two connections and locks all four rows; \<open>w_locked\<close> are the rows that open
  transactions hold, \<open>unlocked\<close> says that none of the four is among them, and
  \<open>shared_connection_is_rejected\<close> shows what the lock on a shared connection does to another run. A worker's cache
  of tenant identifiers is shown right after any calls from the empty one (\<open>cache_true\<close>). The audit trail, a
  table of each tenant, is kept apart in \<open>wb_audit\<close>, because requests to the public site write it; what they may
  add is stated.

  \<^bold>\<open>What the lemmas show.\<close> Of each component, its behaviour on every branch with the errors included, and what it
  promises to its callers; of a run, that a success is complete, that a failure is recorded with its
  category and sanitized text, that it ends, that its pages are delivered once and in order even across a
  continuation, that it is executed by one worker at a time and its status only moves forward; of raw
  payloads, immutability and isolation of the tenants; of the outbound policy, that nothing is sent to an
  address that was not permitted; of migrations, that they lose nothing, close their job, and are idle when
  repeated; of the web tool, that no request acts, and no page shows anything, without a role, and that redirects arrive; of the database,
  that every order of its migrations builds the declared tables, that their unique rules refuse exactly the rows that
  the operations of the other theories keep out, and that the schemas of tenants stay separate.

  \<^bold>\<open>Loops and fuel.\<close> Loops are structural recursion, or recursion on a measure: the fetch loop on the budget of
  pages \<open>fetch_budget\<close>, which is at most \<^verbatim>\<open>max_pages\<close> and two. \<open>drain\<close> takes fuel and is shown to need no more than
  this budget. A task is retried at most four times, so the chain of invocations has a bound of five.

  \<^bold>\<open>Not modelled.\<close> Logging, templates, sessions and the CSRF middleware, the admin site and Django's account
  pages (their paths lead to no view of the program, so \<open>route\<close> knows none), argument parsers,
  the start of the processes, and settings that only configure Django and
  Celery. Migrations run on tables without rows, except those in \<open>Backfills\<close>. References to secrets are identifiers
  that the program made itself. Time is a counter of seconds in the tables. Texts are sequences of characters of eight bits. Rates
  and delays are rational numbers, not floating point. A view acts in one step, except that other processes
  may commit at the points where \<open>others\<close> is applied.
\<close>

end
